(* ===== verification/JS_Base.thy ===== *)
theory JS_Base
  imports Main "HOL-Library.List_Lexorder" "HOL-Library.Multiset"
begin

text \<open>
  Shared ground of the development: the strings and arrays of JavaScript.

  A JavaScript string is a sequence of UTF-16 code units. It is modelled as the list of
  their numbers, so that the length, the slices and the order of strings are those of the
  language, and so that characters outside ASCII (the full-width comma, the Chinese closing
  quote) are ordinary elements. \<open>str\<close> gives the code units of an ASCII literal. Case
  mapping (\<open>toLowerCase\<close>, \<open>toUpperCase\<close>) is that of ASCII; every other code unit is its
  own image.
\<close>

named_theorems js_str_simps \<open>evaluation of the string operations on literals\<close>
named_theorems js_trim \<open>facts about trimming and blank strings\<close>

type_synonym jstr = "int list"

definition str :: "string \<Rightarrow> jstr" where
  "str s = map of_char s"

lemma str_inject [simp]: "str s = str t \<longleftrightarrow> s = t"
proof
  have "inj (of_char :: char \<Rightarrow> int)"
    by (rule injI) simp
  moreover assume "str s = str t"
  ultimately show "s = t"
    by (simp add: str_def inj_map_eq_map)
qed simp

lemma str_eq_Nil [simp]: "str s = [] \<longleftrightarrow> s = []" "[] = str s \<longleftrightarrow> s = []"
  by (auto simp: str_def)

lemma length_str [simp]: "length (str s) = length s"
  by (simp add: str_def)

lemma str_Nil [js_str_simps]: "str [] = []"
  and str_Cons [js_str_simps]: "str (c # s) = of_char c # str s"
  by (simp_all add: str_def)

lemma str_append: "str (s @ t) = str s @ str t"
  by (simp add: str_def)


subsection \<open>White space and trimming\<close>

text \<open>WhiteSpace and LineTerminator of the language, the characters \<open>trim\<close> removes.\<close>

definition is_ws :: "int \<Rightarrow> bool" where
  "is_ws c \<longleftrightarrow> 9 \<le> c \<and> c \<le> 13 \<or> c = 32 \<or> c = 160 \<or> c = 5760 \<or> 8192 \<le> c \<and> c \<le> 8202
     \<or> c = 8232 \<or> c = 8233 \<or> c = 8239 \<or> c = 8287 \<or> c = 12288 \<or> c = 65279"

definition trim_start :: "jstr \<Rightarrow> jstr" where
  "trim_start s = dropWhile is_ws s"

definition trim_end :: "jstr \<Rightarrow> jstr" where
  "trim_end s = rev (dropWhile is_ws (rev s))"

definition trim :: "jstr \<Rightarrow> jstr" where
  "trim s = trim_end (trim_start s)"

lemma trim_eq_Nil_iff [js_trim]: "trim s = [] \<longleftrightarrow> (\<forall>c\<in>set s. is_ws c)"
proof -
  have "(\<forall>x\<in>set (dropWhile is_ws s). is_ws x) \<longleftrightarrow> (\<forall>c\<in>set s. is_ws c)"
    by (induction s) (auto split: if_splits)
  then show ?thesis
    by (simp add: trim_def trim_end_def trim_start_def)
qed

lemma trim_Nil [simp, js_trim]: "trim [] = []"
  by (simp add: trim_def trim_end_def trim_start_def)

lemma dropWhile_fixed: "s = [] \<or> \<not> P (hd s) \<Longrightarrow> dropWhile P s = s"
  by (cases s) auto

lemma trim_start_fixed: "s = [] \<or> \<not> is_ws (hd s) \<Longrightarrow> trim_start s = s"
  by (simp add: trim_start_def dropWhile_fixed)

lemma trim_end_fixed: "s = [] \<or> \<not> is_ws (last s) \<Longrightarrow> trim_end s = s"
  by (auto simp: trim_end_def dropWhile_fixed hd_rev)

lemma trim_fixed [js_trim]:
  "s = [] \<or> \<not> is_ws (hd s) \<and> \<not> is_ws (last s) \<Longrightarrow> trim s = s"
  by (auto simp: trim_def trim_start_fixed trim_end_fixed)

lemma trim_start_hd: "trim_start s \<noteq> [] \<Longrightarrow> \<not> is_ws (hd (trim_start s))"
  by (simp add: trim_start_def hd_dropWhile)

lemma trim_end_last: "trim_end s \<noteq> [] \<Longrightarrow> \<not> is_ws (last (trim_end s))"
  by (simp add: trim_end_def hd_dropWhile last_rev)

lemma trim_end_prefix: "\<exists>t. s = trim_end s @ t \<and> (\<forall>c\<in>set t. is_ws c)"
proof -
  let ?w = "takeWhile is_ws (rev s)"
  have "rev s = ?w @ dropWhile is_ws (rev s)"
    by simp
  then have "s = rev (dropWhile is_ws (rev s)) @ rev ?w"
    by (metis rev_append rev_rev_ident)
  moreover have "\<forall>c\<in>set (rev ?w). is_ws c"
    using set_takeWhileD by fastforce
  ultimately show ?thesis
    unfolding trim_end_def by blast
qed

lemma trim_hd_last:
  assumes "trim s \<noteq> []"
  shows "\<not> is_ws (hd (trim s))" "\<not> is_ws (last (trim s))"
proof -
  let ?t = "trim_start s"
  obtain u where u: "?t = trim_end ?t @ u"
    using trim_end_prefix by blast
  have ne: "trim_end ?t \<noteq> []"
    using assms by (simp add: trim_def)
  then have "?t \<noteq> []"
    using u by auto
  then have "\<not> is_ws (hd ?t)"
    by (rule trim_start_hd)
  moreover have "hd ?t = hd (trim_end ?t)"
    using u ne by (metis hd_append2)
  ultimately show "\<not> is_ws (hd (trim s))"
    by (simp add: trim_def)
  show "\<not> is_ws (last (trim s))"
    using ne by (simp add: trim_def trim_end_last)
qed

lemma trim_idem [simp, js_trim]: "trim (trim s) = trim s"
  using trim_hd_last [of s] by (cases "trim s = []") (auto intro: trim_fixed)

lemma set_trim: "set (trim s) \<subseteq> set s"
proof -
  have "set (trim_end t) \<subseteq> set t" for t
    using trim_end_prefix [of t] by (metis Un_upper1 set_append)
  moreover have "set (trim_start s) \<subseteq> set s"
    by (auto simp: trim_start_def dest: set_dropWhileD)
  ultimately show ?thesis
    unfolding trim_def by blast
qed


subsection \<open>Searching, splitting and joining\<close>

fun starts_with :: "'a list \<Rightarrow> 'a list \<Rightarrow> bool" where
  "starts_with s [] = True"
| "starts_with [] (p # ps) = False"
| "starts_with (c # s) (p # ps) = (c = p \<and> starts_with s ps)"

definition ends_with :: "'a list \<Rightarrow> 'a list \<Rightarrow> bool" where
  "ends_with s p = starts_with (rev s) (rev p)"

fun index_of :: "'a list \<Rightarrow> 'a list \<Rightarrow> nat option" where
  "index_of [] p = (if p = [] then Some 0 else None)"
| "index_of (c # s) p = (if starts_with (c # s) p then Some 0 else map_option Suc (index_of s p))"

definition includes_str :: "'a list \<Rightarrow> 'a list \<Rightarrow> bool" where
  "includes_str s p \<longleftrightarrow> index_of s p \<noteq> None"

fun last_index_of :: "'a list \<Rightarrow> 'a list \<Rightarrow> nat option" where
  "last_index_of [] p = (if p = [] then Some 0 else None)"
| "last_index_of (c # s) p =
     (case last_index_of s p of
        Some i \<Rightarrow> Some (Suc i)
      | None \<Rightarrow> if starts_with (c # s) p then Some 0 else None)"

fun split_on :: "'a \<Rightarrow> 'a list \<Rightarrow> 'a list list" where
  "split_on d [] = [[]]"
| "split_on d (c # s) =
     (if c = d then [] # split_on d s
      else (case split_on d s of [] \<Rightarrow> [[c]] | w # ws \<Rightarrow> (c # w) # ws))"

fun join :: "'a list \<Rightarrow> 'a list list \<Rightarrow> 'a list" where
  "join d [] = []"
| "join d [w] = w"
| "join d (w # v # ws) = w @ d @ join d (v # ws)"

lemma starts_with_iff: "starts_with s p \<longleftrightarrow> (\<exists>t. s = p @ t)"
  by (induction s p rule: starts_with.induct) auto

lemma starts_with_append [simp]: "starts_with (p @ t) p"
  by (auto simp: starts_with_iff)

lemma index_of_Some:
  "index_of s p = Some i \<Longrightarrow> i + length p \<le> length s \<and> take (length p) (drop i s) = p"
proof (induction s arbitrary: i)
  case (Cons c s)
  show ?case
  proof (cases "starts_with (c # s) p")
    case True
    then obtain t where t: "c # s = p @ t"
      by (auto simp: starts_with_iff)
    then have "length p \<le> length (c # s)" and "take (length p) (c # s) = p"
      by (metis le_add1 length_append, simp)
    with True Cons.prems show ?thesis
      by auto
  next
    case False
    with Cons.prems obtain j where "index_of s p = Some j" "i = Suc j"
      by auto
    with Cons.IH show ?thesis
      by auto
  qed
qed (auto split: if_splits)

lemma includes_str_iff: "includes_str s p \<longleftrightarrow> (\<exists>u v. s = u @ p @ v)"
proof (induction s)
  case (Cons c s)
  have "(\<exists>u v. c # s = u @ p @ v) \<longleftrightarrow> starts_with (c # s) p \<or> (\<exists>u v. s = u @ p @ v)"
    by (auto simp: starts_with_iff Cons_eq_append_conv)
  with Cons show ?case
    by (auto simp: includes_str_def)
qed (auto simp: includes_str_def)

lemma last_index_of_None: "last_index_of s p = None \<longleftrightarrow> index_of s p = None"
  by (induction s) (auto split: option.splits)

lemma split_on_not_Nil [simp]: "split_on d s \<noteq> []"
  by (induction s) (auto split: list.splits)

lemma split_on_Nil_in: "d \<notin> set s \<Longrightarrow> split_on d s = [s]"
  by (induction s) auto

lemma split_on_append: "d \<notin> set w \<Longrightarrow> split_on d (w @ d # s) = w # split_on d s"
  by (induction w) auto

lemma split_on_join:
  "ws \<noteq> [] \<Longrightarrow> \<forall>w\<in>set ws. d \<notin> set w \<Longrightarrow> split_on d (join [d] ws) = ws"
  by (induction "[d]" ws rule: join.induct) (auto simp: split_on_Nil_in split_on_append)

lemma split_on_no_sep: "w \<in> set (split_on d s) \<Longrightarrow> d \<notin> set w"
  by (induction s arbitrary: w) (auto split: if_splits list.splits)

lemma join_split_on [simp]: "join [d] (split_on d s) = s"
proof (induction s)
  case (Cons c s)
  obtain w ws where "split_on d s = w # ws"
    using split_on_not_Nil neq_Nil_conv by metis
  with Cons show ?case
    by (cases ws) auto
qed simp

lemma set_join: "set (join d ws) \<subseteq> set d \<union> (\<Union>w\<in>set ws. set w)"
  by (induction d ws rule: join.induct) auto


subsection \<open>Case mapping and replacement\<close>

definition to_lower_unit :: "int \<Rightarrow> int" where
  "to_lower_unit c = (if 65 \<le> c \<and> c \<le> 90 then c + 32 else c)"

definition to_upper_unit :: "int \<Rightarrow> int" where
  "to_upper_unit c = (if 97 \<le> c \<and> c \<le> 122 then c - 32 else c)"

definition to_lower :: "jstr \<Rightarrow> jstr" where
  "to_lower s = map to_lower_unit s"

definition to_upper :: "jstr \<Rightarrow> jstr" where
  "to_upper s = map to_upper_unit s"

lemma to_lower_idem [simp]: "to_lower (to_lower s) = to_lower s"
  by (auto simp: to_lower_def to_lower_unit_def)

definition replace_unit :: "int \<Rightarrow> jstr \<Rightarrow> jstr \<Rightarrow> jstr" where
  "replace_unit c r s = concat (map (\<lambda>x. if x = c then r else [x]) s)"

definition is_digit :: "int \<Rightarrow> bool" where
  "is_digit c \<longleftrightarrow> 48 \<le> c \<and> c \<le> 57"

lemma is_digit_not_ws [simp]: "is_digit c \<Longrightarrow> \<not> is_ws c"
  by (auto simp: is_digit_def is_ws_def)


subsection \<open>Arrays\<close>

text \<open>\<open>Array.from(new Set(xs))\<close>: the distinct elements in the order of their first occurrence.\<close>

fun uniq_from :: "'a list \<Rightarrow> 'a list \<Rightarrow> 'a list" where
  "uniq_from seen [] = []"
| "uniq_from seen (x # xs) =
     (if x \<in> set seen then uniq_from seen xs else x # uniq_from (x # seen) xs)"

definition uniq :: "'a list \<Rightarrow> 'a list" where
  "uniq xs = uniq_from [] xs"

lemma set_uniq_from: "set (uniq_from seen xs) = set xs - set seen"
  by (induction seen xs rule: uniq_from.induct) auto

lemma set_uniq [simp]: "set (uniq xs) = set xs"
  by (simp add: uniq_def set_uniq_from)

lemma distinct_uniq_from: "distinct (uniq_from seen xs)"
  by (induction seen xs rule: uniq_from.induct) (auto simp: set_uniq_from)

lemma distinct_uniq [simp]: "distinct (uniq xs)"
  by (simp add: uniq_def distinct_uniq_from)

lemma uniq_from_distinct: "distinct xs \<Longrightarrow> set xs \<inter> set seen = {} \<Longrightarrow> uniq_from seen xs = xs"
  by (induction seen xs rule: uniq_from.induct) auto

lemma uniq_distinct [simp]: "distinct xs \<Longrightarrow> uniq xs = xs"
  by (simp add: uniq_def uniq_from_distinct)

text \<open>\<open>findIndex\<close>, with \<open>None\<close> for -1.\<close>

fun find_index :: "('a \<Rightarrow> bool) \<Rightarrow> 'a list \<Rightarrow> nat option" where
  "find_index P [] = None"
| "find_index P (x # xs) = (if P x then Some 0 else map_option Suc (find_index P xs))"

lemma find_index_Some:
  "find_index P xs = Some i \<Longrightarrow> i < length xs \<and> P (xs ! i) \<and> (\<forall>j<i. \<not> P (xs ! j))"
proof (induction xs arbitrary: i)
  case (Cons x xs)
  then show ?case
    by (auto split: if_splits simp: less_Suc_eq_0_disj)
qed simp

lemma find_index_None [simp]: "find_index P xs = None \<longleftrightarrow> (\<forall>x\<in>set xs. \<not> P x)"
  by (induction xs) auto

text \<open>\<open>splice(i, 1)\<close> and \<open>splice(i, 0, x)\<close> on a copy of the array.\<close>

definition remove_at :: "nat \<Rightarrow> 'a list \<Rightarrow> 'a list" where
  "remove_at i xs = take i xs @ drop (Suc i) xs"

definition insert_at :: "nat \<Rightarrow> 'a \<Rightarrow> 'a list \<Rightarrow> 'a list" where
  "insert_at i x xs = take i xs @ x # drop i xs"

text \<open>
  \<open>slice(a, b)\<close>: a negative position counts from the end, positions are clipped to the array.
\<close>

definition slice_pos :: "nat \<Rightarrow> int \<Rightarrow> nat" where
  "slice_pos n k = nat (if k < 0 then max (int n + k) 0 else min k (int n))"

definition slice :: "int \<Rightarrow> int \<Rightarrow> 'a list \<Rightarrow> 'a list" where
  "slice a b xs = (let i = slice_pos (length xs) a; j = slice_pos (length xs) b in take (j - i) (drop i xs))"

lemma slice_nonneg: "0 \<le> a \<Longrightarrow> a \<le> b \<Longrightarrow> slice a b xs = take (nat (b - a)) (drop (nat a) xs)"
  by (cases "int (length xs) \<le> a") (auto simp: slice_def slice_pos_def Let_def min_def nat_diff_distrib)

text \<open>
  \<open>sort(cmp)\<close> with a comparison that returns a number: elements that compare as equal keep their
  order. Where the comparison is a total preorder every stable sort gives this result.
\<close>

fun insert_by :: "('a \<Rightarrow> 'a \<Rightarrow> int) \<Rightarrow> 'a \<Rightarrow> 'a list \<Rightarrow> 'a list" where
  "insert_by cmp x [] = [x]"
| "insert_by cmp x (y # ys) = (if cmp x y \<le> 0 then x # y # ys else y # insert_by cmp x ys)"

definition sort_by :: "('a \<Rightarrow> 'a \<Rightarrow> int) \<Rightarrow> 'a list \<Rightarrow> 'a list" where
  "sort_by cmp xs = foldr (insert_by cmp) xs []"

lemma mset_insert_by [simp]: "mset (insert_by cmp x ys) = add_mset x (mset ys)"
  by (induction ys) auto

lemma mset_sort_by [simp]: "mset (sort_by cmp xs) = mset xs"
  by (induction xs) (simp_all add: sort_by_def)

lemma set_sort_by [simp]: "set (sort_by cmp xs) = set xs"
  by (metis mset_sort_by set_mset_mset)

lemma distinct_map_sort_by [simp]: "distinct (map f (sort_by cmp xs)) \<longleftrightarrow> distinct (map f xs)"
  by (metis mset_sort_by mset_map mset_eq_imp_distinct_iff)

lemma sorted_insert_by:
  assumes total: "\<And>a b. cmp a b \<le> 0 \<or> cmp b a \<le> 0"
    and trans: "\<And>a b c. cmp a b \<le> 0 \<Longrightarrow> cmp b c \<le> 0 \<Longrightarrow> cmp a c \<le> 0"
  shows "sorted_wrt (\<lambda>a b. cmp a b \<le> 0) ys \<Longrightarrow> sorted_wrt (\<lambda>a b. cmp a b \<le> 0) (insert_by cmp x ys)"
proof (induction ys)
  case (Cons y ys)
  have "set (insert_by cmp x ys) = insert x (set ys)"
    by (metis mset_insert_by set_mset_add_mset_insert set_mset_mset)
  then show ?case
    using Cons total [of x y] trans by auto
qed simp

lemma sorted_sort_by:
  assumes "\<And>a b. cmp a b \<le> 0 \<or> cmp b a \<le> 0"
    and "\<And>a b c. cmp a b \<le> 0 \<Longrightarrow> cmp b c \<le> 0 \<Longrightarrow> cmp a c \<le> 0"
  shows "sorted_wrt (\<lambda>a b. cmp a b \<le> 0) (sort_by cmp xs)"
  by (induction xs) (simp_all add: sort_by_def sorted_insert_by [OF assms])

end
