(* ===== verification/JS_Number.thy ===== *)
theory JS_Number
  imports JS_Base Complex_Main "HOL-Library.Log_Nat"
begin

text \<open>
  The Number type of JavaScript: IEEE 754 binary64 with round to nearest, ties to even.

  A finite number is its exact rational value. The two zeros are identified: nothing in the
  modelled sources tells them apart (the quotient of a number by a zero is only tested for
  being finite). \<open>to_num\<close> rounds a rational to a number, and every arithmetic operation is
  the exact operation followed by \<open>to_num\<close>, which is the definition of the standard.
  Conversions to and from text follow ECMA-262: \<open>string_to_num\<close> is \<open>Number(s)\<close>,
  \<open>parse_float\<close> and \<open>parse_int\<close> are the functions of those names, \<open>num_to_string\<close> is
  \<open>String(x)\<close> (the shortest decimal that reads back as the number) and \<open>to_fixed\<close> is
  \<open>x.toFixed(d)\<close>.
\<close>

named_theorems num_ops \<open>definitions of the arithmetic on numbers\<close>

datatype jsnum = NaN | PosInf | NegInf | Fin rat


subsection \<open>Rounding\<close>

text \<open>The exponent of a positive rational: \<open>2 powi floor_log2 x \<le> x < 2 powi (floor_log2 x + 1)\<close>.\<close>

definition floor_log2 :: "rat \<Rightarrow> int" where
  "floor_log2 x =
     (let (a, b) = quotient_of x; k = bitlen a - bitlen b in if 2 powi k \<le> x then k else k - 1)"

definition round_even :: "rat \<Rightarrow> int" where
  "round_even x =
     (let f = \<lfloor>x\<rfloor>; d = x - of_int f
      in if d < 1/2 then f else if 1/2 < d then f + 1 else if even f then f else f + 1)"

text \<open>The exponent of the last place of the result: 53 significant bits, never below \<open>2 powi -1074\<close>.\<close>

definition quantum :: "rat \<Rightarrow> int" where
  "quantum x = max (floor_log2 \<bar>x\<bar> - 52) (- 1074)"

definition round_double :: "rat \<Rightarrow> rat" where
  "round_double x =
     (if x = 0 then 0 else of_int (round_even (x / 2 powi quantum x)) * 2 powi quantum x)"

definition double_limit :: rat where
  "double_limit = 2 ^ 1024"

definition to_num :: "rat \<Rightarrow> jsnum" where
  "to_num x =
     (let r = round_double x
      in if double_limit \<le> r then PosInf else if r \<le> - double_limit then NegInf else Fin r)"

text \<open>The values a finite number can have.\<close>

definition is_double :: "rat \<Rightarrow> bool" where
  "is_double x \<longleftrightarrow> to_num x = Fin x"

definition wf_num :: "jsnum \<Rightarrow> bool" where
  "wf_num n = (case n of Fin x \<Rightarrow> is_double x | _ \<Rightarrow> True)"

lemma powi_le_iff: "(2::rat) powi a \<le> 2 powi b \<longleftrightarrow> a \<le> b"
  using power_int_increasing [of a b "2::rat"] power_int_strict_increasing [of b a "2::rat"]
  by (cases "a \<le> b") auto

lemma powi_less_iff: "(2::rat) powi a < 2 powi b \<longleftrightarrow> a < b"
  using powi_le_iff [of b a] by (simp add: not_le [symmetric])

lemma bitlen_powi:
  assumes "0 < a"
  shows "(2::rat) powi (bitlen a - 1) \<le> of_int a" "of_int a < (2::rat) powi bitlen a"
proof -
  have "2 ^ nat (bitlen a - 1) \<le> a \<and> a < 2 ^ nat (bitlen a)"
    using bitlen_bounds [OF assms] .
  moreover have "0 < bitlen a"
    using assms bitlen_eq_zero_iff [of a] bitlen_nonneg [of a] by linarith
  ultimately have le: "(of_int (2 ^ nat (bitlen a - 1)) :: rat) \<le> of_int a"
    and lt: "(of_int a :: rat) < of_int (2 ^ nat (bitlen a))"
    by (simp_all only: of_int_le_iff of_int_less_iff)
  from le \<open>0 < bitlen a\<close> show "(2::rat) powi (bitlen a - 1) \<le> of_int a"
    by (simp add: power_int_def)
  from lt \<open>0 < bitlen a\<close> show "of_int a < (2::rat) powi bitlen a"
    by (simp add: power_int_def)
qed

lemma floor_log2_bounds:
  assumes "0 < x"
  shows "2 powi floor_log2 x \<le> x" "x < 2 powi (floor_log2 x + 1)"
proof -
  obtain a b where ab: "quotient_of x = (a, b)"
    by fastforce
  have b: "0 < b"
    using ab by (rule quotient_of_denom_pos)
  have x: "x = of_int a / of_int b"
    using ab by (rule quotient_of_div)
  have a: "0 < a"
    using assms x b by (simp add: zero_less_divide_iff)
  let ?k = "bitlen a - bitlen b"
  note A = bitlen_powi [OF a] and B = bitlen_powi [OF b]
  have lower: "2 powi (?k - 1) \<le> x"
  proof -
    have "2 powi (?k - 1) * of_int b \<le> 2 powi (?k - 1) * (2::rat) powi bitlen b"
      using B(2) by (intro mult_left_mono) auto
    also have "\<dots> = (2::rat) powi (bitlen a - 1)"
      by (simp add: power_int_add [symmetric] algebra_simps)
    also have "\<dots> \<le> of_int a"
      by (rule A(1))
    finally show ?thesis
      using b by (simp add: x pos_le_divide_eq)
  qed
  have upper: "x < 2 powi (?k + 1)"
  proof -
    have "of_int a < (2::rat) powi bitlen a"
      by (rule A(2))
    also have "\<dots> = 2 powi (?k + 1) * 2 powi (bitlen b - 1)"
      by (simp add: power_int_add [symmetric] algebra_simps)
    also have "\<dots> \<le> 2 powi (?k + 1) * of_int b"
      using B(1) by (intro mult_left_mono) auto
    finally show ?thesis
      using b by (simp add: x pos_divide_less_eq)
  qed
  show "2 powi floor_log2 x \<le> x"
    using lower by (simp add: floor_log2_def ab Let_def)
  show "x < 2 powi (floor_log2 x + 1)"
    using upper by (simp add: floor_log2_def ab Let_def)
qed

lemma round_even_bounds: "of_int (round_even x) \<le> x + 1/2" "x \<le> of_int (round_even x) + 1/2"
proof -
  have "of_int \<lfloor>x\<rfloor> \<le> x" "x < of_int \<lfloor>x\<rfloor> + 1"
    by linarith+
  then show "of_int (round_even x) \<le> x + 1/2" "x \<le> of_int (round_even x) + 1/2"
    unfolding round_even_def Let_def by (auto simp del: divide_le_eq_numeral1) linarith+
qed

lemma round_even_of_int [simp]: "round_even (of_int n) = n"
  by (simp add: round_even_def)

lemma of_int_le_half: "(of_int m :: rat) \<le> of_int n + 1/2 \<Longrightarrow> m \<le> n"
proof (rule ccontr)
  assume le: "(of_int m :: rat) \<le> of_int n + 1/2" and "\<not> m \<le> n"
  then have "(of_int (n + 1) :: rat) \<le> of_int m"
    unfolding of_int_le_iff by simp
  with le show False
    by simp
qed

lemma round_even_le: "x \<le> of_int n \<Longrightarrow> round_even x \<le> n"
  using round_even_bounds(1) [of x] by (intro of_int_le_half) linarith

lemma round_even_ge: "of_int n \<le> x \<Longrightarrow> n \<le> round_even x"
  using round_even_bounds(2) [of x] by (intro of_int_le_half) linarith

lemma round_even_minus: "round_even (- x) = - round_even x"
proof (cases "x = of_int \<lfloor>x\<rfloor>")
  case True
  then have "- x = of_int (- \<lfloor>x\<rfloor>)"
    by simp
  then show ?thesis
    using True round_even_of_int by metis
next
  case False
  then have "\<lfloor>- x\<rfloor> = - \<lfloor>x\<rfloor> - 1"
    by linarith
  then show ?thesis
    by (auto simp: round_even_def Let_def)
qed

text \<open>
  The values of the form \<open>m * 2 powi q\<close> with 53 bits of \<open>m\<close> are exactly the fixed points of
  rounding, and every result of rounding is one.
\<close>

lemma floor_log2_le:
  assumes "0 < x" "x < 2 powi k"
  shows "floor_log2 x < k"
proof -
  have "2 powi floor_log2 x < (2::rat) powi k"
    using floor_log2_bounds(1) [OF assms(1)] assms(2) by simp
  then show ?thesis
    by (simp add: powi_less_iff)
qed

lemma floor_log2_ge:
  assumes "0 < x" "2 powi k \<le> x"
  shows "k \<le> floor_log2 x"
proof -
  have "2 powi k < (2::rat) powi (floor_log2 x + 1)"
    using floor_log2_bounds(2) [OF assms(1)] assms(2) by simp
  then show ?thesis
    by (simp add: powi_less_iff)
qed

lemma round_double_on_grid:
  assumes "x = of_int n * 2 powi quantum x"
  shows "round_double x = x"
proof (cases "x = 0")
  case False
  have "x / 2 powi quantum x = of_int n"
    using assms by (simp add: field_simps)
  then have "round_double x = of_int n * 2 powi quantum x"
    using False by (simp add: round_double_def)
  then show ?thesis
    using assms by simp
qed (simp add: round_double_def)

lemma round_double_fixed_strict:
  assumes x: "x = of_int m * 2 powi q" and m: "\<bar>m\<bar> < 2 ^ 53" and q: "- 1074 \<le> q"
  shows "round_double x = x"
proof (cases "x = 0")
  case False
  have "\<bar>x\<bar> = of_int \<bar>m\<bar> * 2 powi q"
    by (simp add: x abs_mult)
  also have "\<dots> < 2 ^ 53 * 2 powi q"
    using m by (intro mult_strict_right_mono) (simp_all flip: of_int_less_iff [where 'a = rat])
  also have "\<dots> = 2 powi (q + 53)"
    by (simp add: power_int_add)
  finally have "floor_log2 \<bar>x\<bar> < q + 53"
    using False by (intro floor_log2_le) auto
  then have le: "quantum x \<le> q"
    using q by (simp add: quantum_def)
  have "x = of_int (m * 2 ^ nat (q - quantum x)) * 2 powi quantum x"
    using le by (simp add: x power_int_def [of 2 "q - quantum x", symmetric, simplified]
        flip: power_int_add power_int_of_nat)
  then show ?thesis
    by (rule round_double_on_grid)
qed (simp add: round_double_def)

lemma round_double_fixed:
  assumes x: "x = of_int m * 2 powi q" and m: "\<bar>m\<bar> \<le> 2 ^ 53" and q: "- 1074 \<le> q"
  shows "round_double x = x"
proof (cases "\<bar>m\<bar> = 2 ^ 53")
  case True
  then obtain s :: int where s: "m = s * 2 ^ 52 * 2" "\<bar>s\<bar> = 1"
    by (cases "0 \<le> m") (auto intro: that [of 1] that [of "- 1"])
  have "x = of_int (s * 2 ^ 52) * 2 powi (q + 1)"
    by (simp add: x s(1) power_int_add)
  moreover have "\<bar>s * 2 ^ 52\<bar> < 2 ^ 53"
    using s(2) by (simp add: abs_mult)
  ultimately show ?thesis
    using q by (intro round_double_fixed_strict [of x "s * 2 ^ 52" "q + 1"]) simp_all
next
  case False
  then show ?thesis
    using assms by (intro round_double_fixed_strict) auto
qed

lemma round_double_repr:
  "\<exists>m q. round_double x = of_int m * 2 powi q \<and> \<bar>m\<bar> \<le> 2 ^ 53 \<and> - 1074 \<le> q"
proof (cases "x = 0")
  case False
  let ?q = "quantum x" and ?m = "round_even (x / 2 powi quantum x)"
  have q: "- 1074 \<le> ?q" "floor_log2 \<bar>x\<bar> + 1 \<le> ?q + 53"
    by (simp_all add: quantum_def)
  have "\<bar>x\<bar> < 2 powi (floor_log2 \<bar>x\<bar> + 1)"
    using False by (intro floor_log2_bounds) auto
  also have "\<dots> \<le> 2 powi (?q + 53)"
    using q by (simp add: powi_le_iff)
  also have "\<dots> = 2 ^ 53 * 2 powi ?q"
    by (simp add: power_int_add)
  finally have "\<bar>x / 2 powi ?q\<bar> \<le> of_int (2 ^ 53)"
    by (simp add: abs_divide pos_divide_le_eq)
  then have "x / 2 powi ?q \<le> of_int (2 ^ 53)" "of_int (- (2 ^ 53)) \<le> x / 2 powi ?q"
    by (simp_all only: abs_le_iff of_int_minus minus_le_iff)
  then have "\<bar>?m\<bar> \<le> 2 ^ 53"
    using round_even_le round_even_ge by (metis abs_leI minus_le_iff)
  then show ?thesis
    using False q(1) by (auto simp: round_double_def)
qed (auto simp: round_double_def intro: exI [of _ 0])

theorem round_double_idem [simp]: "round_double (round_double x) = round_double x"
  using round_double_repr [of x] round_double_fixed by metis

lemma round_double_0 [simp]: "round_double 0 = 0"
  by (simp add: round_double_def)

lemma round_double_minus: "round_double (- x) = - round_double x"
  by (simp add: round_double_def quantum_def round_even_minus)

lemma to_num_Fin_iff: "to_num x = Fin r \<longleftrightarrow> round_double x = r \<and> \<bar>r\<bar> < double_limit"
proof -
  have "to_num x = Fin r \<longleftrightarrow> round_double x = r \<and> \<not> double_limit \<le> r \<and> \<not> r \<le> - double_limit"
    unfolding to_num_def Let_def by (cases "round_double x = r") auto
  then show ?thesis
    by linarith
qed

lemma is_double_iff: "is_double x \<longleftrightarrow> round_double x = x \<and> \<bar>x\<bar> < double_limit"
  unfolding is_double_def to_num_Fin_iff by (rule refl)

lemma to_num_is_double: "to_num x = Fin r \<Longrightarrow> is_double r"
  unfolding is_double_def to_num_Fin_iff using round_double_idem by blast

lemma wf_to_num [simp]: "wf_num (to_num x)"
  by (auto simp: wf_num_def split: jsnum.split dest: to_num_is_double)

lemma is_double_to_num: "is_double x \<Longrightarrow> to_num x = Fin x"
  by (simp add: is_double_def)

lemma is_double_int: "\<bar>n\<bar> \<le> 2 ^ 53 \<Longrightarrow> is_double (of_int n)"
proof -
  assume n: "\<bar>n\<bar> \<le> 2 ^ 53"
  have fixed: "round_double (of_int n) = of_int n"
    by (rule round_double_fixed [of _ n 0]) (use n in auto)
  have "(of_int \<bar>n\<bar> :: rat) \<le> of_int (2 ^ 53)"
    using n by (simp only: of_int_le_iff)
  then have "\<bar>of_int n :: rat\<bar> \<le> 2 ^ 53"
    by simp
  moreover have "(2 :: rat) ^ 53 < double_limit"
    unfolding double_limit_def by (rule power_strict_increasing) simp_all
  ultimately have "\<bar>of_int n :: rat\<bar> < double_limit"
    by (rule le_less_trans)
  with fixed show ?thesis
    by (simp add: is_double_iff)
qed

lemma is_double_0 [simp]: "is_double 0"
  using is_double_int [of 0] by simp

lemma is_double_minus [simp]: "is_double (- x) \<longleftrightarrow> is_double x"
  by (simp add: is_double_iff round_double_minus)


text \<open>Overflow is decided on the exponent when \<open>to_num\<close> is evaluated.\<close>

lemma double_limit_le_iff: "0 < x \<Longrightarrow> double_limit \<le> x \<longleftrightarrow> 1024 \<le> floor_log2 x"
proof -
  assume x: "0 < x"
  have limit: "double_limit = 2 powi 1024"
    by (simp only: double_limit_def power_int_numeral)
  show ?thesis
  proof
    assume "double_limit \<le> x"
    then show "1024 \<le> floor_log2 x"
      using x unfolding limit by (rule floor_log2_ge [rotated])
  next
    assume "1024 \<le> floor_log2 x"
    then have "double_limit \<le> 2 powi floor_log2 x"
      unfolding limit by (simp only: powi_le_iff)
    also have "\<dots> \<le> x"
      using x by (rule floor_log2_bounds)
    finally show "double_limit \<le> x" .
  qed
qed

lemma to_num_code [code]:
  "to_num x =
     (let r = round_double x
      in if r \<noteq> 0 \<and> 1024 \<le> floor_log2 \<bar>r\<bar> then (if 0 < r then PosInf else NegInf) else Fin r)"
proof -
  have pos: "0 < double_limit"
    unfolding double_limit_def by (rule zero_less_power) simp
  let ?r = "round_double x"
  consider "?r = 0" | "0 < ?r" | "?r < 0"
    by linarith
  then show ?thesis
  proof cases
    case 2
    with pos double_limit_le_iff [of ?r] show ?thesis
      by (simp add: to_num_def Let_def)
  next
    case 3
    with pos double_limit_le_iff [of "- ?r"] show ?thesis
      by (simp add: to_num_def Let_def le_minus_iff)
  qed (use pos in \<open>simp add: to_num_def\<close>)
qed


subsection \<open>Arithmetic and comparison\<close>

definition num_inf :: "bool \<Rightarrow> jsnum" where
  "num_inf pos = (if pos then PosInf else NegInf)"

fun num_neg :: "jsnum \<Rightarrow> jsnum" where
  "num_neg NaN = NaN"
| "num_neg PosInf = NegInf"
| "num_neg NegInf = PosInf"
| "num_neg (Fin x) = Fin (- x)"

fun num_add :: "jsnum \<Rightarrow> jsnum \<Rightarrow> jsnum" where
  "num_add (Fin x) (Fin y) = to_num (x + y)"
| "num_add NaN _ = NaN"
| "num_add _ NaN = NaN"
| "num_add PosInf NegInf = NaN"
| "num_add NegInf PosInf = NaN"
| "num_add (Fin _) m = m"
| "num_add n _ = n"

text \<open>The sign of a number that is not NaN, as -1, 0 or 1.\<close>

fun num_sgn :: "jsnum \<Rightarrow> int" where
  "num_sgn (Fin x) = (if 0 < x then 1 else if x < 0 then - 1 else 0)"
| "num_sgn PosInf = 1"
| "num_sgn NegInf = - 1"
| "num_sgn NaN = 0"

fun num_mul :: "jsnum \<Rightarrow> jsnum \<Rightarrow> jsnum" where
  "num_mul (Fin x) (Fin y) = to_num (x * y)"
| "num_mul NaN _ = NaN"
| "num_mul _ NaN = NaN"
| "num_mul n m = (let s = num_sgn n * num_sgn m in if s = 0 then NaN else num_inf (0 < s))"

fun num_div :: "jsnum \<Rightarrow> jsnum \<Rightarrow> jsnum" where
  "num_div (Fin x) (Fin y) =
     (if y = 0 then (if x = 0 then NaN else num_inf (0 < x)) else to_num (x / y))"
| "num_div NaN _ = NaN"
| "num_div _ NaN = NaN"
| "num_div (Fin _) _ = Fin 0"
| "num_div n (Fin y) = num_inf ((0 < num_sgn n) = (0 \<le> y))"
| "num_div _ _ = NaN"

fun num_lt :: "jsnum \<Rightarrow> jsnum \<Rightarrow> bool" where
  "num_lt (Fin x) (Fin y) = (x < y)"
| "num_lt NaN _ = False"
| "num_lt _ NaN = False"
| "num_lt NegInf m = (m \<noteq> NegInf)"
| "num_lt _ PosInf = True"
| "num_lt _ _ = False"

text \<open>\<open>===\<close> on numbers: NaN differs from itself.\<close>

definition num_eq :: "jsnum \<Rightarrow> jsnum \<Rightarrow> bool" where
  "num_eq n m \<longleftrightarrow> n \<noteq> NaN \<and> n = m"

definition num_le :: "jsnum \<Rightarrow> jsnum \<Rightarrow> bool" where
  "num_le n m \<longleftrightarrow> num_lt n m \<or> num_eq n m"

fun is_finite :: "jsnum \<Rightarrow> bool" where
  "is_finite (Fin x) = True"
| "is_finite _ = False"

definition is_integer :: "jsnum \<Rightarrow> bool" where
  "is_integer n = (case n of Fin x \<Rightarrow> of_int \<lfloor>x\<rfloor> = x | _ \<Rightarrow> False)"

text \<open>\<open>Math.round\<close> and \<open>Math.floor\<close>.\<close>

fun num_round :: "jsnum \<Rightarrow> jsnum" where
  "num_round (Fin x) = to_num (of_int \<lfloor>x + 1/2\<rfloor>)"
| "num_round n = n"

fun num_floor :: "jsnum \<Rightarrow> jsnum" where
  "num_floor (Fin x) = to_num (of_int \<lfloor>x\<rfloor>)"
| "num_floor n = n"

abbreviation num_of_int :: "int \<Rightarrow> jsnum" where
  "num_of_int n \<equiv> Fin (of_int n)"

lemma is_finite_iff: "is_finite n \<longleftrightarrow> (\<exists>x. n = Fin x)"
  by (cases n) auto

lemma wf_num_simps [simp]:
  "wf_num NaN" "wf_num PosInf" "wf_num NegInf" "wf_num (Fin x) = is_double x"
  by (simp_all add: wf_num_def)

lemma wf_num_inf [simp]: "wf_num (num_inf p)"
  by (simp add: num_inf_def)

lemma wf_num_add: "wf_num n \<Longrightarrow> wf_num m \<Longrightarrow> wf_num (num_add n m)"
  by (cases n; cases m) auto

lemma wf_num_mul: "wf_num n \<Longrightarrow> wf_num m \<Longrightarrow> wf_num (num_mul n m)"
  by (cases n; cases m) (auto simp: Let_def)

lemma wf_num_div: "wf_num n \<Longrightarrow> wf_num m \<Longrightarrow> wf_num (num_div n m)"
  by (cases n; cases m) auto

lemma wf_num_round: "wf_num n \<Longrightarrow> wf_num (num_round n)"
  by (cases n) auto

lemma wf_num_floor: "wf_num n \<Longrightarrow> wf_num (num_floor n)"
  by (cases n) auto

lemmas wf_num_intros = wf_num_add wf_num_mul wf_num_div wf_num_round wf_num_floor wf_to_num

lemma num_eq_Fin [simp]: "num_eq (Fin x) (Fin y) \<longleftrightarrow> x = y"
  by (simp add: num_eq_def)

lemma num_le_Fin [simp]: "num_le (Fin x) (Fin y) \<longleftrightarrow> x \<le> y"
  by (auto simp: num_le_def)

end
