(* ===== verification/JS_NumText.thy ===== *)
theory JS_NumText
  imports JS_Number
begin

text \<open>
  Numbers and text: decimal literals, \<open>Number(s)\<close>, \<open>parseFloat\<close>, \<open>parseInt\<close>,
  \<open>String(x)\<close> and \<open>toFixed\<close>. The main fact is that the text of a number reads back
  as that number, alone and in front of a character that cannot continue it.
\<close>


subsection \<open>Digits\<close>

function dec_digits :: "int \<Rightarrow> jstr" where
  "dec_digits n = (if n < 10 then [48 + n] else dec_digits (n div 10) @ [48 + n mod 10])"
  by pat_completeness auto
termination
  by (relation "measure nat") auto

declare dec_digits.simps [simp del]

definition digits_val :: "jstr \<Rightarrow> int" where
  "digits_val ds = foldl (\<lambda>a c. a * 10 + (c - 48)) 0 ds"

lemma digits_val_Nil [simp]: "digits_val [] = 0"
  by (simp add: digits_val_def)

lemma digits_val_snoc: "digits_val (ds @ [c]) = digits_val ds * 10 + (c - 48)"
  by (simp add: digits_val_def)

lemma digits_val_append: "digits_val (ds @ es) = digits_val ds * 10 ^ length es + digits_val es"
proof (induction es rule: rev_induct)
  case (snoc c es)
  then show ?case
    by (simp add: digits_val_snoc append_assoc [symmetric] algebra_simps del: append_assoc)
qed simp

lemma digits_val_zeros: "digits_val (replicate n 48) = 0"
  by (induction n) (simp_all add: digits_val_def)

lemma digits_val_cons: "digits_val (c # ds) = (c - 48) * 10 ^ length ds + digits_val ds"
  using digits_val_append [of "[c]" ds] by (simp add: digits_val_def)

lemma dec_digits_props:
  assumes "0 \<le> n"
  shows "digits_val (dec_digits n) = n \<and> (\<forall>c\<in>set (dec_digits n). is_digit c) \<and> dec_digits n \<noteq> []
    \<and> (hd (dec_digits n) = 48 \<longleftrightarrow> n = 0)"
  using assms
proof (induction n rule: dec_digits.induct)
  case (1 n)
  show ?case
  proof (cases "n < 10")
    case True
    with "1.prems" show ?thesis
      by (subst (1 2 3 4) dec_digits.simps) (auto simp: digits_val_def is_digit_def)
  next
    case False
    then have IH: "digits_val (dec_digits (n div 10)) = n div 10 \<and>
        (\<forall>c\<in>set (dec_digits (n div 10)). is_digit c) \<and> dec_digits (n div 10) \<noteq> [] \<and>
        (hd (dec_digits (n div 10)) = 48 \<longleftrightarrow> n div 10 = 0)"
      by (intro "1.IH") auto
    have eq: "dec_digits n = dec_digits (n div 10) @ [48 + n mod 10]"
      using False by (subst dec_digits.simps) simp
    have "n div 10 \<noteq> 0"
      using False by auto
    with False IH show ?thesis
      unfolding eq by (auto simp: digits_val_snoc is_digit_def)
  qed
qed

lemma dec_digits_val [simp]: "0 \<le> n \<Longrightarrow> digits_val (dec_digits n) = n"
  and dec_digits_digit: "0 \<le> n \<Longrightarrow> c \<in> set (dec_digits n) \<Longrightarrow> is_digit c"
  and dec_digits_not_Nil: "0 \<le> n \<Longrightarrow> dec_digits n \<noteq> []"
  and dec_digits_hd: "0 < n \<Longrightarrow> hd (dec_digits n) \<noteq> 48"
  using dec_digits_props [of n] by auto

lemma digits_val_nonneg: "\<forall>c\<in>set ds. is_digit c \<Longrightarrow> 0 \<le> digits_val ds"
  by (induction ds rule: rev_induct) (auto simp: digits_val_snoc is_digit_def)


subsection \<open>Reading decimal literals\<close>

text \<open>An exponent part is consumed only if it has a digit.\<close>

definition read_exp :: "jstr \<Rightarrow> int \<times> jstr" where
  "read_exp s =
     (case s of
        [] \<Rightarrow> (0, s)
      | c # r \<Rightarrow>
          if c = 101 \<or> c = 69 then
            (let neg = (r \<noteq> [] \<and> hd r = 45);
                 r' = (if r \<noteq> [] \<and> (hd r = 43 \<or> hd r = 45) then tl r else r);
                 ds = takeWhile is_digit r'
             in if ds = [] then (0, s)
                else ((if neg then - digits_val ds else digits_val ds), dropWhile is_digit r'))
          else (0, s))"

text \<open>
  StrUnsignedDecimalLiteral without Infinity: the value of the longest prefix that is such a
  literal, and the rest of the text.
\<close>

definition read_decimal :: "jstr \<Rightarrow> (rat \<times> jstr) option" where
  "read_decimal s =
     (let ip = takeWhile is_digit s; r = dropWhile is_digit s;
          dot = (r \<noteq> [] \<and> hd r = 46);
          fp = (if dot then takeWhile is_digit (tl r) else []);
          r2 = (if dot then dropWhile is_digit (tl r) else r)
      in if ip = [] \<and> fp = [] then None
         else (let (e, r3) = read_exp r2
               in Some (of_int (digits_val (ip @ fp)) * 10 powi (e - int (length fp)), r3)))"

definition infinity_text :: jstr where
  "infinity_text = str ''Infinity''"

definition read_signed :: "jstr \<Rightarrow> (jsnum \<times> jstr) option" where
  "read_signed s =
     (let neg = (s \<noteq> [] \<and> hd s = 45);
          r = (if s \<noteq> [] \<and> (hd s = 43 \<or> hd s = 45) then tl s else s)
      in if starts_with r infinity_text then Some (num_inf (\<not> neg), drop 8 r)
         else map_option (\<lambda>(v, rest). (to_num (if neg then - v else v), rest)) (read_decimal r))"

text \<open>The digits of a literal with prefix \<open>0x\<close>, \<open>0o\<close> or \<open>0b\<close>.\<close>

definition digit_of :: "int \<Rightarrow> int option" where
  "digit_of c =
     (if is_digit c then Some (c - 48)
      else if 97 \<le> c \<and> c \<le> 122 then Some (c - 87)
      else if 65 \<le> c \<and> c \<le> 90 then Some (c - 55) else None)"

fun read_radix :: "int \<Rightarrow> int \<Rightarrow> jstr \<Rightarrow> int option" where
  "read_radix b acc [] = Some acc"
| "read_radix b acc (c # s) =
     (case digit_of c of
        Some d \<Rightarrow> if d < b then read_radix b (acc * b + d) s else None
      | None \<Rightarrow> None)"

definition radix_of :: "jstr \<Rightarrow> int option" where
  "radix_of s =
     (if length s < 2 \<or> hd s \<noteq> 48 then None
      else let c = to_lower_unit (s ! 1)
           in if c = 120 then Some 16 else if c = 111 then Some 8 else if c = 98 then Some 2 else None)"

text \<open>\<open>Number(s)\<close>.\<close>

definition string_to_num :: "jstr \<Rightarrow> jsnum" where
  "string_to_num s =
     (let t = trim s
      in if t = [] then Fin 0
         else case radix_of t of
             Some b \<Rightarrow>
               (if drop 2 t = [] then NaN
                else case read_radix b 0 (drop 2 t) of Some n \<Rightarrow> to_num (of_int n) | None \<Rightarrow> NaN)
           | None \<Rightarrow> (case read_signed t of Some (n, []) \<Rightarrow> n | _ \<Rightarrow> NaN))"

definition parse_float :: "jstr \<Rightarrow> jsnum" where
  "parse_float s = (case read_signed (trim_start s) of Some (n, _) \<Rightarrow> n | None \<Rightarrow> NaN)"

text \<open>\<open>Number.parseInt(s, 10)\<close>.\<close>

definition parse_int :: "jstr \<Rightarrow> jsnum" where
  "parse_int s =
     (let t = trim_start s;
          neg = (t \<noteq> [] \<and> hd t = 45);
          r = (if t \<noteq> [] \<and> (hd t = 43 \<or> hd t = 45) then tl t else t);
          ds = takeWhile is_digit r
      in if ds = [] then NaN
         else to_num (of_int (if neg then - digits_val ds else digits_val ds)))"


subsection \<open>Writing numbers\<close>

definition floor_log10 :: "rat \<Rightarrow> int" where
  "floor_log10 x =
     (let (a, b) = quotient_of x; k = int (length (dec_digits a)) - int (length (dec_digits b))
      in if 10 powi k \<le> x then k else k - 1)"

text \<open>
  A decimal of \<open>k\<close> digits that reads back as \<open>x\<close>: of the two neighbours of \<open>x\<close>, the one that
  does, and the nearer one (the even one on a tie) if both do.
\<close>

definition decimal_candidate :: "nat \<Rightarrow> rat \<Rightarrow> (int \<times> int) option" where
  "decimal_candidate k x =
     (let e = floor_log10 x + 1 - int k; y = x / 10 powi e; lo = \<lfloor>y\<rfloor>; hi = lo + 1;
          ok = (\<lambda>s. 0 < s \<and> to_num (of_int s * 10 powi e) = Fin x);
          near = round_even y
      in if ok near then Some (near, e)
         else if ok lo then Some (lo, e) else if ok hi then Some (hi, e) else None)"

text \<open>The exact decimal expansion of a dyadic rational.\<close>

definition exact_decimal :: "rat \<Rightarrow> int \<times> int" where
  "exact_decimal x =
     (let (a, b) = quotient_of x; j = bitlen b - 1 in (a * 5 ^ nat j, - j))"

fun shortest_from :: "nat \<Rightarrow> nat \<Rightarrow> rat \<Rightarrow> int \<times> int" where
  "shortest_from 0 k x = exact_decimal x"
| "shortest_from (Suc fuel) k x =
     (case decimal_candidate k x of Some d \<Rightarrow> d | None \<Rightarrow> shortest_from fuel (Suc k) x)"

text \<open>17 digits determine a number, so the search ends within its 17 rounds.\<close>

definition shortest_decimal :: "rat \<Rightarrow> int \<times> int" where
  "shortest_decimal x = shortest_from 17 1 x"

text \<open>Trailing zeros of the digits move into the exponent.\<close>

function strip_zeros :: "int \<times> int \<Rightarrow> int \<times> int" where
  "strip_zeros (s, e) = (if s \<noteq> 0 \<and> s mod 10 = 0 then strip_zeros (s div 10, e + 1) else (s, e))"
  by pat_completeness auto
termination
  by (relation "measure (\<lambda>(s, e). nat \<bar>s\<bar>)") auto

declare strip_zeros.simps [simp del]

definition sign_digits :: "int \<Rightarrow> jstr" where
  "sign_digits n = (if n < 0 then 45 # dec_digits (- n) else 43 # dec_digits n)"

definition write_decimal :: "int \<times> int \<Rightarrow> jstr" where
  "write_decimal d =
     (let (s, e) = strip_zeros d; ds = dec_digits s; k = int (length ds); n = k + e
      in if k \<le> n \<and> n \<le> 21 then ds @ replicate (nat e) 48
         else if 0 < n \<and> n \<le> 21 then take (nat n) ds @ 46 # drop (nat n) ds
         else if - 6 < n \<and> n \<le> 0 then 48 # 46 # replicate (nat (- n)) 48 @ ds
         else if k = 1 then ds @ 101 # sign_digits (n - 1)
         else hd ds # 46 # tl ds @ 101 # sign_digits (n - 1))"

definition rat_to_string :: "rat \<Rightarrow> jstr" where
  "rat_to_string x =
     (if x = 0 then [48]
      else if x < 0 then 45 # write_decimal (shortest_decimal (- x))
      else write_decimal (shortest_decimal x))"

fun num_to_string :: "jsnum \<Rightarrow> jstr" where
  "num_to_string NaN = str ''NaN''"
| "num_to_string PosInf = infinity_text"
| "num_to_string NegInf = 45 # infinity_text"
| "num_to_string (Fin x) = rat_to_string x"

text \<open>\<open>x.toFixed(d)\<close>.\<close>

definition fixed_digits :: "nat \<Rightarrow> int \<Rightarrow> jstr" where
  "fixed_digits d n =
     (let ds = dec_digits n; ps = replicate (Suc d - length ds) 48 @ ds; i = length ps - d
      in if d = 0 then ds else take i ps @ 46 # drop i ps)"

fun to_fixed :: "nat \<Rightarrow> jsnum \<Rightarrow> jstr" where
  "to_fixed d (Fin x) =
     (if \<bar>x\<bar> < 10 ^ 21 then
        (if x < 0 then [45] else []) @ fixed_digits d \<lfloor>\<bar>x\<bar> * 10 ^ d + 1/2\<rfloor>
      else rat_to_string x)"
| "to_fixed d n = num_to_string n"


subsection \<open>What is written reads back\<close>

text \<open>A text that does not continue a decimal literal.\<close>

definition ends_literal :: "jstr \<Rightarrow> bool" where
  "ends_literal r \<longleftrightarrow> r = [] \<or> \<not> is_digit (hd r) \<and> hd r \<noteq> 46 \<and> hd r \<noteq> 101 \<and> hd r \<noteq> 69"

lemma takeWhile_digits:
  assumes "\<forall>c\<in>set ds. is_digit c" "r = [] \<or> \<not> is_digit (hd r)"
  shows "takeWhile is_digit (ds @ r) = ds" "dropWhile is_digit (ds @ r) = r"
  using assms by (induction ds) (auto simp: takeWhile_eq_Nil_iff dropWhile_fixed)

lemma not_digit_simps [simp]:
  "\<not> is_digit 46" "\<not> is_digit 101" "\<not> is_digit 43" "\<not> is_digit 45" "is_digit 48"
  by (simp_all add: is_digit_def)

lemma read_exp_none: "ends_literal r \<Longrightarrow> read_exp r = (0, r)"
  by (auto simp: ends_literal_def read_exp_def split: list.split)

lemma read_exp_sign:
  assumes "ends_literal r"
  shows "read_exp (101 # sign_digits n @ r) = (n, r)"
proof -
  have r: "r = [] \<or> \<not> is_digit (hd r)"
    using assms by (auto simp: ends_literal_def)
  have ds: "\<forall>c\<in>set (dec_digits m). is_digit c" "dec_digits m \<noteq> []" if "0 \<le> m" for m
    using that dec_digits_digit dec_digits_not_Nil by auto
  note take = takeWhile_digits [OF ds(1) r]
  show ?thesis
  proof (cases "n < 0")
    case True
    then show ?thesis
      using take [of "- n"] ds(2) [of "- n"] by (simp add: read_exp_def sign_digits_def Let_def)
  next
    case False
    then show ?thesis
      using take [of n] ds(2) [of n] by (simp add: read_exp_def sign_digits_def Let_def)
  qed
qed

lemma read_decimal_parts:
  assumes "\<forall>c\<in>set ip. is_digit c" "\<forall>c\<in>set fp. is_digit c" "ip \<noteq> []"
    and "read_exp r = (e, r')" "r = [] \<or> \<not> is_digit (hd r)"
  shows "read_decimal (ip @ 46 # fp @ r) =
      Some (of_int (digits_val (ip @ fp)) * 10 powi (e - int (length fp)), r')"
  using assms takeWhile_digits [of ip "46 # fp @ r"] takeWhile_digits [of fp r]
  by (simp add: read_decimal_def Let_def)

lemma read_decimal_int:
  assumes "\<forall>c\<in>set ip. is_digit c" "ip \<noteq> []"
    and "read_exp r = (e, r')" "r = [] \<or> \<not> is_digit (hd r) \<and> hd r \<noteq> 46"
  shows "read_decimal (ip @ r) = Some (of_int (digits_val ip) * 10 powi e, r')"
  using assms takeWhile_digits [of ip r]
  by (auto simp: read_decimal_def Let_def)

lemma strip_zeros_value:
  assumes "strip_zeros (s, e) = (s', e')"
  shows "(of_int s' :: rat) * 10 powi e' = of_int s * 10 powi e \<and> (0 < s \<longrightarrow> 0 < s')"
  using assms
proof (induction "(s, e)" arbitrary: s e rule: strip_zeros.induct)
  case (1 s e)
  show ?case
  proof (cases "s \<noteq> 0 \<and> s mod 10 = 0")
    case True
    then have "strip_zeros (s div 10, e + 1) = (s', e')"
      using "1.prems" by (simp add: strip_zeros.simps [of s e])
    then have IH: "(of_int s' :: rat) * 10 powi e' = of_int (s div 10) * 10 powi (e + 1) \<and>
        (0 < s div 10 \<longrightarrow> 0 < s')"
      using "1.hyps" True by blast
    have s: "s = s div 10 * 10"
      using True by auto
    then have "(of_int s :: rat) * 10 powi e = of_int (s div 10) * 10 powi (e + 1)"
      by (subst s) (simp add: power_int_add)
    moreover have "0 < s \<longrightarrow> 0 < s div 10"
      using s by linarith
    ultimately show ?thesis
      using IH by simp
  next
    case False
    then show ?thesis
      using "1.prems" by (auto simp: strip_zeros.simps [of s e])
  qed
qed

lemma write_decimal_cases:
  assumes "strip_zeros d = (s, e)" "0 < s"
  defines "ds \<equiv> dec_digits s"
  obtains (int) "0 \<le> e" "write_decimal d = ds @ replicate (nat e) 48"
  | (point) i where "i < length ds" "0 < i" "e = int i - int (length ds)"
      "write_decimal d = take i ds @ 46 # drop i ds"
  | (small) j where "e = - int (j + length ds)"
      "write_decimal d = 48 # 46 # replicate j 48 @ ds"
  | (exp1) "length ds = 1" "write_decimal d = ds @ 101 # sign_digits e"
  | (exp) "length ds \<noteq> 1"
      "write_decimal d = [hd ds] @ 46 # tl ds @ 101 # sign_digits (int (length ds) + e - 1)"
proof -
  define k where "k = int (length ds)"
  have eq: "write_decimal d =
      (if k \<le> k + e \<and> k + e \<le> 21 then ds @ replicate (nat e) 48
       else if 0 < k + e \<and> k + e \<le> 21 then take (nat (k + e)) ds @ 46 # drop (nat (k + e)) ds
       else if - 6 < k + e \<and> k + e \<le> 0 then 48 # 46 # replicate (nat (- (k + e))) 48 @ ds
       else if k = 1 then ds @ 101 # sign_digits (k + e - 1)
       else hd ds # 46 # tl ds @ 101 # sign_digits (k + e - 1))"
    using assms(1) by (simp add: write_decimal_def ds_def k_def Let_def)
  consider (A) "k \<le> k + e \<and> k + e \<le> 21"
    | (B) "\<not> (k \<le> k + e \<and> k + e \<le> 21)" "0 < k + e \<and> k + e \<le> 21"
    | (C) "\<not> (k \<le> k + e \<and> k + e \<le> 21)" "- 6 < k + e \<and> k + e \<le> 0"
    | (D) "\<not> (k \<le> k + e \<and> k + e \<le> 21)" "\<not> (0 < k + e \<and> k + e \<le> 21)"
      "\<not> (- 6 < k + e \<and> k + e \<le> 0)"
    by blast
  then show thesis
  proof cases
    case A
    then show thesis
      by (intro int) (auto simp: eq)
  next
    case B
    then show thesis
      by (intro point [of "nat (k + e)"]) (auto simp: eq k_def)
  next
    case C
    then show thesis
      by (intro small [of "nat (- (k + e))"]) (auto simp: eq k_def)
  next
    case D
    then have eqD: "write_decimal d = (if k = 1 then ds @ 101 # sign_digits (k + e - 1)
        else hd ds # 46 # tl ds @ 101 # sign_digits (k + e - 1))"
      by (auto simp: eq)
    show thesis
    proof (cases "k = 1")
      case True
      then show thesis
        by (intro exp1) (auto simp: eqD k_def)
    next
      case False
      then show thesis
        by (intro exp) (auto simp: eqD k_def)
    qed
  qed
qed

lemma read_write_decimal:
  assumes "0 < fst d" "ends_literal r"
  shows "read_decimal (write_decimal d @ r) = Some (of_int (fst d) * 10 powi snd d, r)"
proof -
  obtain s e where se: "strip_zeros d = (s, e)"
    by fastforce
  then have s: "0 < s" and val: "(of_int s :: rat) * 10 powi e = of_int (fst d) * 10 powi snd d"
    using strip_zeros_value [of "fst d" "snd d" s e] assms(1) by simp_all
  let ?ds = "dec_digits s"
  have ds: "\<forall>c\<in>set ?ds. is_digit c" "?ds \<noteq> []" "digits_val ?ds = s"
    using s by (auto dest: dec_digits_digit [rotated] simp: dec_digits_not_Nil)
  have none: "read_exp r = (0, r)" and r: "r = [] \<or> \<not> is_digit (hd r) \<and> hd r \<noteq> 46"
    using assms(2) by (auto simp: read_exp_none ends_literal_def)
  note sign = read_exp_sign [OF assms(2)]
  have "read_decimal (write_decimal d @ r) = Some (of_int s * 10 powi e, r)"
    using se s
  proof (cases rule: write_decimal_cases)
    case int
    have "read_decimal ((?ds @ replicate (nat e) 48) @ r) =
        Some (of_int (digits_val (?ds @ replicate (nat e) 48)) * 10 powi 0, r)"
      using ds none r by (intro read_decimal_int) auto
    then show ?thesis
      using int ds(3) by (simp add: digits_val_append digits_val_zeros power_int_def)
  next
    case (point i)
    have "read_decimal (take i ?ds @ 46 # drop i ?ds @ r) =
        Some (of_int (digits_val (take i ?ds @ drop i ?ds)) * 10 powi (0 - int (length (drop i ?ds))), r)"
      using ds none r point(1,2)
      by (intro read_decimal_parts) (auto dest: in_set_takeD in_set_dropD)
    then show ?thesis
      using point ds(3) by (simp add: of_nat_diff)
  next
    case (small j)
    have "read_decimal ([48] @ 46 # (replicate j 48 @ ?ds) @ r) =
        Some (of_int (digits_val ([48] @ replicate j 48 @ ?ds)) *
          10 powi (0 - int (length (replicate j (48::int) @ ?ds))), r)"
      using ds none r by (intro read_decimal_parts) auto
    moreover have "digits_val ([48] @ replicate j 48 @ ?ds) = s"
      using ds(3) by (simp add: digits_val_cons digits_val_append digits_val_zeros)
    ultimately show ?thesis
      using small by simp
  next
    case exp1
    have "read_decimal (?ds @ 101 # sign_digits e @ r) = Some (of_int (digits_val ?ds) * 10 powi e, r)"
      using ds sign by (intro read_decimal_int) auto
    then show ?thesis
      using exp1 ds(3) by simp
  next
    case exp
    let ?e = "int (length ?ds) + e - 1"
    have hd: "[hd ?ds] @ tl ?ds = ?ds"
      using ds(2) by simp
    have "read_decimal ([hd ?ds] @ 46 # tl ?ds @ 101 # sign_digits ?e @ r) =
        Some (of_int (digits_val ([hd ?ds] @ tl ?ds)) * 10 powi (?e - int (length (tl ?ds))), r)"
      using ds sign by (intro read_decimal_parts) (auto dest: list.set_sel)
    moreover have "?e - int (length (tl ?ds)) = e"
      using ds(2) by (cases ?ds) auto
    ultimately show ?thesis
      using exp ds(3) hd by simp
  qed
  then show ?thesis
    using val by simp
qed

text \<open>
  The shape of a written decimal: digits without a superfluous leading zero, and then nothing,
  a point with a digit after it, or an exponent.
\<close>

lemma write_decimal_shape:
  assumes "0 < fst d"
  obtains ip q where "write_decimal d = ip @ q" "ip \<noteq> []" "\<forall>c\<in>set ip. is_digit c"
    "hd ip = 48 \<longrightarrow> ip = [48]" "q = [] \<or> hd q = 101 \<or> hd q = 46 \<and> tl q \<noteq> [] \<and> is_digit (hd (tl q))"
    "\<forall>c\<in>set q. is_digit c \<or> c = 46 \<or> c = 101 \<or> c = 43 \<or> c = 45"
proof -
  obtain s e where se: "strip_zeros d = (s, e)"
    by fastforce
  then have s: "0 < s"
    using strip_zeros_value [of "fst d" "snd d" s e] assms by simp
  let ?ds = "dec_digits s"
  have ds: "\<forall>c\<in>set ?ds. is_digit c" "?ds \<noteq> []" "hd ?ds \<noteq> 48"
    using s by (auto dest: dec_digits_digit [rotated] simp: dec_digits_not_Nil dec_digits_hd)
  have sign: "\<forall>c\<in>set (sign_digits n). is_digit c \<or> c = 43 \<or> c = 45" for n
    by (auto simp: sign_digits_def dest: dec_digits_digit [rotated])
  from se s show thesis
  proof (cases rule: write_decimal_cases)
    case int
    show thesis
      using ds by (intro that [of "?ds @ replicate (nat e) 48" "[]"]) (auto simp: int)
  next
    case (point i)
    then have "drop i ?ds \<noteq> []" "hd (drop i ?ds) \<in> set ?ds" "take i ?ds \<noteq> []"
      by (auto simp: hd_drop_conv_nth)
    then show thesis
      using ds point by (intro that [of "take i ?ds" "46 # drop i ?ds"])
        (auto dest: in_set_takeD in_set_dropD)
  next
    case (small j)
    then show thesis
      using ds by (intro that [of "[48]" "46 # replicate j 48 @ ?ds"]) (auto simp: hd_append)
  next
    case exp1
    then show thesis
      using ds sign by (intro that [of ?ds "101 # sign_digits e"]) auto
  next
    case exp
    then have tl: "tl ?ds \<noteq> []"
      using ds(2) by (cases ?ds) auto
    then have "hd (tl ?ds) \<in> set ?ds"
      using ds(2) by (metis hd_in_set list.set_sel(2))
    then show thesis
      using ds sign exp tl
      by (intro that [of "[hd ?ds]" "46 # tl ?ds @ 101 # sign_digits (int (length ?ds) + e - 1)"])
        (auto dest: list.set_sel)
  qed
qed

lemma write_decimal_chars:
  assumes "0 < fst d"
  shows "\<forall>c\<in>set (write_decimal d). is_digit c \<or> c = 46 \<or> c = 101 \<or> c = 43 \<or> c = 45"
    "write_decimal d \<noteq> []" "is_digit (hd (write_decimal d))"
  using assms by (elim write_decimal_shape; auto)+


subsection \<open>The shortest decimal of a number\<close>

lemma decimal_candidate_correct:
  "decimal_candidate k x = Some (s, e) \<Longrightarrow> 0 < s \<and> to_num (of_int s * 10 powi e) = Fin x"
  by (auto simp: decimal_candidate_def Let_def split: if_splits)

lemma dvd_power_of_2: "0 < b \<Longrightarrow> b dvd 2 ^ j \<Longrightarrow> \<exists>i. b = 2 ^ i" for b :: int
proof (induction j arbitrary: b)
  case (Suc j)
  show ?case
  proof (cases "even b")
    case True
    then obtain c where c: "b = 2 * c"
      by blast
    with Suc.prems have "0 < c" "c dvd 2 ^ j"
      by auto
    then obtain i where "c = 2 ^ i"
      using Suc.IH by blast
    with c have "b = 2 ^ Suc i"
      by simp
    then show ?thesis
      by blast
  next
    case False
    then have "coprime b 2"
      by simp
    then have "b dvd 1"
      using Suc.prems(2) by (metis coprime_dvd_mult_right_iff coprime_power_right_iff mult.right_neutral)
    then have "b = 2 ^ 0"
      using Suc.prems(1) by simp
    then show ?thesis
      by blast
  qed
qed (auto intro: exI [of _ 0])

lemma dyadic_denominator:
  assumes "x = of_int m * 2 powi q" "quotient_of x = (a, b)"
  obtains j where "b = 2 ^ j"
proof -
  have b: "0 < b" "coprime a b" "x = of_int a / of_int b"
    using assms(2) by (auto dest: quotient_of_denom_pos quotient_of_coprime quotient_of_div)
  define j where "j = nat (- q)"
  have "x * 2 ^ j = of_int (m * 2 ^ nat (q + int j))"
    by (auto simp: assms(1) j_def power_int_def power_inverse field_simps power_add [symmetric])
  then have "of_int (a * 2 ^ j) = (of_int (m * 2 ^ nat (q + int j) * b) :: rat)"
    using b(1,3) by (simp add: field_simps)
  then have "a * 2 ^ j = m * 2 ^ nat (q + int j) * b"
    by (simp only: of_int_eq_iff)
  then have "b dvd a * 2 ^ j"
    by simp
  then have "b dvd 2 ^ j"
    using b(2) by (simp add: coprime_commute coprime_dvd_mult_right_iff)
  then show thesis
    using dvd_power_of_2 [OF b(1)] that by blast
qed

lemma exact_decimal_correct:
  assumes "is_double x" "0 < x"
  shows "0 < fst (exact_decimal x)"
    "of_int (fst (exact_decimal x)) * 10 powi snd (exact_decimal x) = x"
proof -
  obtain a b where ab: "quotient_of x = (a, b)"
    by fastforce
  obtain m q where "x = of_int m * 2 powi q"
    using round_double_repr [of x] assms(1) by (auto simp: is_double_iff)
  then obtain j where j: "b = 2 ^ j"
    using ab by (rule dyadic_denominator)
  have x: "x = of_int a / 2 ^ j"
    using quotient_of_div [OF ab] j by simp
  then have a: "0 < a"
    using assms(2) by (simp add: zero_less_divide_iff)
  have "bitlen b = int j + 1"
    using bitlen_pow2 [of 1 j] by (simp add: j compute_bitlen)
  then have exact: "exact_decimal x = (a * 5 ^ j, - int j)"
    by (simp add: exact_decimal_def ab)
  show "0 < fst (exact_decimal x)"
    using a by (simp add: exact)
  have "(10::rat) ^ j = 2 ^ j * 5 ^ j"
    by (simp flip: power_mult_distrib)
  then show "of_int (fst (exact_decimal x)) * 10 powi snd (exact_decimal x) = x"
    unfolding exact by (simp add: x power_int_minus field_simps)
qed

lemma shortest_from_correct:
  assumes "is_double x" "0 < x" "shortest_from fuel k x = (s, e)"
  shows "0 < s \<and> to_num (of_int s * 10 powi e) = Fin x"
  using assms(3)
proof (induction fuel arbitrary: k)
  case 0
  then show ?case
    using exact_decimal_correct [OF assms(1,2)] assms(1) by (auto simp: is_double_def)
next
  case (Suc fuel)
  then show ?case
    by (auto split: option.splits dest: decimal_candidate_correct)
qed

lemma shortest_decimal_correct:
  assumes "is_double x" "0 < x"
  shows "0 < fst (shortest_decimal x)"
    "to_num (of_int (fst (shortest_decimal x)) * 10 powi snd (shortest_decimal x)) = Fin x"
  using shortest_from_correct [OF assms, of 17 1] unfolding shortest_decimal_def
  by (metis prod.collapse)+


subsection \<open>\<open>Number(String(x))\<close> is \<open>x\<close>\<close>

lemma starts_infinity: "s \<noteq> [] \<Longrightarrow> hd s \<noteq> 73 \<Longrightarrow> \<not> starts_with s infinity_text"
  by (cases s) (auto simp: infinity_text_def js_str_simps)

lemma read_signed_rat:
  assumes "is_double x" "ends_literal r"
  shows "read_signed (rat_to_string x @ r) = Some (Fin x, r)"
proof -
  have pos: "read_decimal (write_decimal (shortest_decimal y) @ r) =
      Some (of_int (fst (shortest_decimal y)) * 10 powi snd (shortest_decimal y), r)"
    "hd (write_decimal (shortest_decimal y) @ r) \<notin> {43, 45, 73}"
    "write_decimal (shortest_decimal y) \<noteq> []"
    if "is_double y" "0 < y" for y
    using shortest_decimal_correct [OF that] assms(2) write_decimal_chars [of "shortest_decimal y"]
    by (auto simp: read_write_decimal is_digit_def)
  consider "x = 0" | "0 < x" | "x < 0"
    by linarith
  then show ?thesis
  proof cases
    case 1
    have "read_decimal ([48] @ r) = Some (of_int (digits_val [48]) * 10 powi 0, r)"
      using assms(2) by (intro read_decimal_int) (auto simp: read_exp_none ends_literal_def)
    then show ?thesis
      using 1 starts_infinity [of "48 # r"]
      by (simp add: read_signed_def rat_to_string_def digits_val_def to_num_def Let_def double_limit_def)
  next
    case 2
    note y = pos [OF assms(1) 2]
    show ?thesis
      using 2 y shortest_decimal_correct(2) [OF assms(1) 2]
        starts_infinity [of "write_decimal (shortest_decimal x) @ r"]
      by (simp add: read_signed_def rat_to_string_def Let_def)
  next
    case 3
    then have d: "is_double (- x)" "0 < - x"
      using assms(1) by simp_all
    note y = pos [OF d]
    have "to_num (- (of_int (fst (shortest_decimal (- x))) * 10 powi snd (shortest_decimal (- x)))) = Fin x"
      using shortest_decimal_correct(2) [OF d] unfolding to_num_Fin_iff round_double_minus
      by (metis abs_minus_cancel minus_minus)
    then show ?thesis
      using 3 y starts_infinity [of "write_decimal (shortest_decimal (- x)) @ r"]
      by (simp add: read_signed_def rat_to_string_def Let_def)
  qed
qed

lemma rat_to_string_chars:
  assumes "is_double x"
  shows "\<forall>c\<in>set (rat_to_string x). is_digit c \<or> c \<in> {43, 45, 46, 101}" "rat_to_string x \<noteq> []"
proof -
  have pos: "\<forall>c\<in>set (write_decimal (shortest_decimal y)). is_digit c \<or> c \<in> {43, 45, 46, 101}"
    "write_decimal (shortest_decimal y) \<noteq> []" if "is_double y" "0 < y" for y
    using write_decimal_chars [of "shortest_decimal y"] shortest_decimal_correct(1) [OF that] by auto
  consider "x = 0" | "0 < x" | "is_double (- x)" "0 < - x"
    using assms by (metis is_double_minus linorder_neqE neg_0_less_iff_less)
  then show "\<forall>c\<in>set (rat_to_string x). is_digit c \<or> c \<in> {43, 45, 46, 101}" "rat_to_string x \<noteq> []"
    using pos [of x] pos [of "- x"] assms by (cases; auto simp: rat_to_string_def)+
qed

lemma not_ws_num_chars: "is_digit c \<or> c \<in> {43, 45, 46, 101} \<Longrightarrow> \<not> is_ws c"
  by (auto simp: is_ws_def is_digit_def)

lemma trim_rat_to_string:
  assumes "is_double x"
  shows "trim (rat_to_string x) = rat_to_string x" "trim_start (rat_to_string x) = rat_to_string x"
proof -
  have "hd (rat_to_string x) \<in> set (rat_to_string x)" "last (rat_to_string x) \<in> set (rat_to_string x)"
    using rat_to_string_chars(2) [OF assms] by simp_all
  then have "\<not> is_ws (hd (rat_to_string x))" "\<not> is_ws (last (rat_to_string x))"
    using rat_to_string_chars(1) [OF assms] not_ws_num_chars by blast+
  then show "trim (rat_to_string x) = rat_to_string x"
    "trim_start (rat_to_string x) = rat_to_string x"
    by (simp_all add: trim_fixed trim_start_fixed)
qed

lemma radix_of_write_decimal: "0 < fst d \<Longrightarrow> radix_of (write_decimal d) = None"
proof (elim write_decimal_shape)
  fix ip q
  assume w: "write_decimal d = ip @ q" "ip \<noteq> []" "hd ip = 48 \<longrightarrow> ip = [48]"
    and q: "q = [] \<or> hd q = 101 \<or> hd q = 46 \<and> tl q \<noteq> [] \<and> is_digit (hd (tl q))"
  show ?thesis
  proof (cases "hd ip = 48 \<and> q \<noteq> []")
    case True
    then have "write_decimal d ! 1 = hd q"
      using w by (auto simp: hd_conv_nth)
    then show ?thesis
      using q True by (auto simp: radix_of_def Let_def to_lower_unit_def)
  next
    case False
    then show ?thesis
      using w by (auto simp: radix_of_def)
  qed
qed

lemma radix_of_rat_to_string: "is_double x \<Longrightarrow> radix_of (rat_to_string x) = None"
proof -
  assume d: "is_double x"
  consider "x = 0" | "0 < x" | "x < 0"
    by linarith
  then show ?thesis
  proof cases
    case 2
    then show ?thesis
      using shortest_decimal_correct(1) [OF d 2] by (simp add: rat_to_string_def radix_of_write_decimal)
  qed (simp_all add: rat_to_string_def radix_of_def)
qed

lemma ends_literal_Nil [simp]: "ends_literal []"
  by (simp add: ends_literal_def)

theorem string_to_num_of_string:
  assumes "wf_num n"
  shows "string_to_num (num_to_string n) = n"
proof (cases n)
  case (Fin x)
  with assms have d: "is_double x"
    by simp
  show ?thesis
    using read_signed_rat [OF d, of "[]"] rat_to_string_chars(2) [OF d]
    by (simp add: Fin string_to_num_def trim_rat_to_string d radix_of_rat_to_string)
next
  case NaN
  have "string_to_num (str ''NaN'') = NaN"
    by code_simp
  with NaN show ?thesis
    by simp
next
  case PosInf
  have "string_to_num infinity_text = PosInf"
    by code_simp
  with PosInf show ?thesis
    by simp
next
  case NegInf
  have "string_to_num (45 # infinity_text) = NegInf"
    by code_simp
  with NegInf show ?thesis
    by simp
qed

lemma parse_float_of_string:
  "is_double x \<Longrightarrow> parse_float (rat_to_string x) = Fin x"
  using read_signed_rat [of x "[]"] by (simp add: parse_float_def trim_rat_to_string)

lemma wf_read_signed: "read_signed s = Some (n, r) \<Longrightarrow> wf_num n"
  by (auto simp: read_signed_def Let_def split: if_splits)

lemma wf_string_to_num [simp]: "wf_num (string_to_num s)"
  by (auto simp: string_to_num_def Let_def wf_read_signed split: option.split list.split)

lemma wf_parse_float [simp]: "wf_num (parse_float s)"
  by (auto simp: parse_float_def wf_read_signed split: option.split)

lemma wf_parse_int [simp]: "wf_num (parse_int s)"
  by (simp add: parse_int_def Let_def)

end
