(* ===== verification/JS_ToFixed.thy ===== *)
theory JS_ToFixed
  imports JS_NumText
begin

text \<open>
  \<open>parseFloat(x.toFixed(d))\<close>, the rounding to \<open>d\<close> decimals the pricing code uses with
  \<open>d = 12\<close>. A number that is the rounding of some decimal with 12 places is a fixed point
  of it, although at larger magnitudes the decimals are finer than the numbers.
\<close>

definition fixed_value :: "nat \<Rightarrow> rat \<Rightarrow> rat" where
  "fixed_value d x =
     (let v = of_int \<lfloor>\<bar>x\<bar> * 10 ^ d + 1/2\<rfloor> / 10 ^ d in if x < 0 then - v else v)"

lemma read_fixed_digits:
  assumes "0 \<le> n"
  shows "read_decimal (fixed_digits d n) = Some (of_int n / 10 ^ d, [])
    \<and> (\<exists>c r. fixed_digits d n = c # r \<and> is_digit c)"
proof -
  define ds where "ds = dec_digits n"
  define ps where "ps = replicate (Suc d - length ds) 48 @ ds"
  define i where "i = length ps - d"
  have ds: "\<forall>c\<in>set ds. is_digit c" "ds \<noteq> []" "digits_val ds = n"
    using assms by (auto dest: dec_digits_digit [rotated] simp: dec_digits_not_Nil ds_def)
  then have ps: "\<forall>c\<in>set ps. is_digit c" "digits_val ps = n" "0 < i" "i \<le> length ps"
    by (auto simp: digits_val_append digits_val_zeros ps_def i_def)
  have none: "read_exp [] = (0, [])"
    by (simp add: read_exp_def)
  show ?thesis
  proof (cases "d = 0")
    case True
    have "read_decimal (ds @ []) = Some (of_int (digits_val ds) * 10 powi 0, [])"
      using ds none by (intro read_decimal_int) auto
    moreover obtain c r where "ds = c # r"
      using ds(2) by (cases ds) auto
    ultimately show ?thesis
      using True ds by (auto simp: fixed_digits_def ds_def)
  next
    case False
    have eq: "fixed_digits d n = take i ps @ 46 # drop i ps"
      using False by (simp only: fixed_digits_def Let_def if_False ps_def i_def ds_def)
    have len: "length (drop i ps) = d"
      using ps(3,4) by (simp add: i_def)
    have "read_decimal (take i ps @ 46 # drop i ps @ []) =
        Some (of_int (digits_val (take i ps @ drop i ps)) * 10 powi (0 - int (length (drop i ps))), [])"
      using ps none by (intro read_decimal_parts) (auto dest: in_set_takeD in_set_dropD)
    then have read: "read_decimal (fixed_digits d n) = Some (of_int n / 10 ^ d, [])"
      unfolding eq len append_take_drop_id ps(2) by (simp add: power_int_minus field_simps)
    have "take i ps \<noteq> []"
      using ps(3,4) by auto
    then obtain c r where cr: "take i ps = c # r"
      by (cases "take i ps") auto
    then have "c \<in> set ps"
      by (metis in_set_takeD list.set_intros(1))
    with read cr show ?thesis
      using ps(1) by (simp add: eq)
  qed
qed

lemma parse_to_fixed:
  assumes "\<bar>x\<bar> < 10 ^ 21"
  shows "parse_float (to_fixed d (Fin x)) = to_num (fixed_value d x)"
proof -
  let ?n = "\<lfloor>\<bar>x\<bar> * 10 ^ d + 1/2\<rfloor>"
  have n: "0 \<le> ?n"
    by simp
  obtain c r where cr: "fixed_digits d ?n = c # r" "is_digit c"
    using read_fixed_digits [OF n] by blast
  then have c: "\<not> is_ws c" "c \<noteq> 43" "c \<noteq> 45" "c \<noteq> 73"
    by (auto simp: is_digit_def is_ws_def)
  have inf: "\<not> starts_with (c # r) infinity_text"
    using c by (intro starts_infinity) auto
  have read: "read_decimal (c # r) = Some (of_int ?n / 10 ^ d, [])"
    using read_fixed_digits [OF n, of d] cr by simp
  have ws45: "\<not> is_ws 45"
    by (simp add: is_ws_def)
  show ?thesis
    using assms cr c inf read ws45
    by (simp add: parse_float_def trim_start_def read_signed_def fixed_value_def Let_def)
qed


subsection \<open>Twelve decimals\<close>

abbreviation tick :: rat where
  "tick \<equiv> 1 / 10 ^ 12"

lemma tick_bounds: "(2::rat) powi (- 40) < tick" "tick < 2 powi (- 39)"
  by simp_all

lemma round_even_near: "of_int m - 1/2 < z \<Longrightarrow> z < of_int m + 1/2 \<Longrightarrow> round_even z = m"
proof -
  assume "of_int m - 1/2 < z" "z < of_int m + 1/2"
  then have "(of_int (round_even z) :: rat) < of_int m + 1" "(of_int m :: rat) < of_int (round_even z) + 1"
    using round_even_bounds [of z] by linarith+
  then show ?thesis
    by linarith
qed

lemma round_even_dist: "\<bar>of_int (round_even z) - z\<bar> \<le> 1/2"
  using round_even_bounds [of z] by linarith

lemma floor_log2_eq: "2 powi k \<le> x \<Longrightarrow> x < 2 powi (k + 1) \<Longrightarrow> floor_log2 x = k"
proof -
  assume x: "2 powi k \<le> x" "x < 2 powi (k + 1)"
  moreover have "(0::rat) < 2 powi k"
    by simp
  ultimately have "0 < x"
    by linarith
  then show ?thesis
    using floor_log2_le [of x "k + 1"] floor_log2_ge [of x k] x by linarith
qed

text \<open>Rounding a value that is close to a representable one, in each of the three binades it can lie in.\<close>

lemma abs_diff_scale: "0 < p \<Longrightarrow> \<bar>z * p - m * p\<bar> < p / 2 \<longleftrightarrow> \<bar>z - m\<bar> < 1/2" for p :: rat
proof -
  assume "0 < p"
  moreover have "z * p - m * p = (z - m) * p"
    by (simp add: algebra_simps)
  ultimately have "\<bar>z * p - m * p\<bar> = \<bar>z - m\<bar> * p"
    by (simp add: abs_mult)
  with \<open>0 < p\<close> show ?thesis
    by (simp add: field_simps)
qed

lemma round_double_grid:
  assumes "0 < x" "quantum x = q" "\<bar>x - of_int m * 2 powi q\<bar> < 2 powi q / 2"
  shows "round_double x = of_int m * 2 powi q"
proof -
  let ?p = "(2::rat) powi q" and ?z = "x / 2 powi q"
  have "\<bar>?z * ?p - of_int m * ?p\<bar> < ?p / 2"
    using assms(3) by simp
  then have "\<bar>?z - of_int m\<bar> < 1/2"
    by (subst (asm) abs_diff_scale) simp_all
  then have "round_even ?z = m"
    by (intro round_even_near) linarith+
  then show ?thesis
    using assms(1,2) by (simp add: round_double_def)
qed

lemma round_double_near:
  assumes q: "- 1074 \<le> q" and m: "m \<le> 2 ^ 53"
    and near: "\<bar>x - of_int m * 2 powi q\<bar> < 2 powi q / 2"
    and low: "2 powi (q + 52) \<le> x"
  shows "round_double x = of_int m * 2 powi q"
proof -
  let ?p = "(2::rat) powi q"
  have pos: "0 < ?p"
    by simp
  have x0: "0 < x"
    using low by (rule less_le_trans [rotated]) simp
  show ?thesis
  proof (cases "x < 2 powi (q + 53)")
    case True
    then have "floor_log2 x = q + 52"
      using low by (intro floor_log2_eq) (auto simp: algebra_simps)
    then have "quantum x = q"
      using q x0 by (simp add: quantum_def)
    with x0 show ?thesis
      using near by (rule round_double_grid)
  next
    case False
    define z where "z = x / ?p"
    have x: "x = z * ?p"
      by (simp add: z_def)
    have z: "\<bar>z - of_int m\<bar> < 1/2"
      using near unfolding x by (subst (asm) abs_diff_scale) simp_all
    have "2 ^ 53 * ?p \<le> z * ?p"
      using False by (simp add: x power_int_add)
    then have z53: "2 ^ 53 \<le> z"
      by (simp only: mult_le_cancel_right_pos pos)
    have "of_int m \<le> (of_int (2 ^ 53) :: rat)"
      using m by (simp only: of_int_le_iff)
    then have zm: "z < 2 ^ 54" "(of_int (2 ^ 53) :: rat) \<le> of_int m + 1/2"
      using z z53 by simp_all
    then have "2 ^ 53 \<le> m"
      by (intro of_int_le_half) simp
    with m have m: "m = 2 ^ 53"
      by simp
    then have val: "of_int m * ?p = of_int (2 ^ 52) * 2 powi (q + 1)"
      by (simp add: power_int_add)
    have "z * ?p < 2 ^ 54 * ?p"
      using zm(1) pos by (rule mult_strict_right_mono)
    then have "x < 2 powi (q + 53 + 1)"
      by (simp add: x power_int_add)
    then have "floor_log2 x = q + 53"
      using False by (intro floor_log2_eq) auto
    then have "quantum x = q + 1"
      using q x0 by (simp add: quantum_def)
    moreover have "\<bar>x - of_int (2 ^ 52) * 2 powi (q + 1)\<bar> < 2 powi (q + 1) / 2"
      using near unfolding val by (rule less_le_trans) (simp add: power_int_add)
    ultimately show ?thesis
      unfolding val using x0 by (intro round_double_grid) auto
  qed
qed

text \<open>The nearest decimal with 12 places.\<close>

definition nearest_tick :: "rat \<Rightarrow> int" where
  "nearest_tick y = \<lfloor>y * 10 ^ 12 + 1/2\<rfloor>"

lemma nearest_tick_dist: "\<bar>of_int (nearest_tick y) * tick - y\<bar> \<le> tick / 2"
proof -
  have "of_int (nearest_tick y) \<le> y * 10 ^ 12 + 1/2" "y * 10 ^ 12 + 1/2 < of_int (nearest_tick y) + 1"
    unfolding nearest_tick_def by linarith+
  then have "of_int (nearest_tick y) * tick \<le> y + tick / 2" "y \<le> of_int (nearest_tick y) * tick + tick / 2"
    by (simp_all add: field_simps)
  then show ?thesis
    by linarith
qed

lemma nearest_tick_of_int: "nearest_tick (of_int n) = n * 10 ^ 12"
proof -
  have "(of_int n :: rat) * 10 ^ 12 = of_int (n * 10 ^ 12)"
    by simp
  then show ?thesis
    unfolding nearest_tick_def by linarith
qed

lemma half_dist: "t \<le> \<bar>a - b\<bar> \<Longrightarrow> \<bar>b - y\<bar> \<le> t / 2 \<Longrightarrow> t / 2 \<le> \<bar>a - y\<bar>" for t :: rat
  by linarith

lemma half_dist_less: "\<bar>d - y\<bar> \<le> t / 2 \<Longrightarrow> t < p \<Longrightarrow> \<bar>d - y\<bar> < p / 2" for t :: rat
  by linarith

lemma other_tick_dist:
  assumes "nearest_tick y \<noteq> k"
  shows "tick / 2 \<le> \<bar>of_int k * tick - y\<bar>"
proof -
  have "1 \<le> \<bar>k - nearest_tick y\<bar>"
    using assms by linarith
  then have "(1 :: rat) \<le> \<bar>of_int k - of_int (nearest_tick y)\<bar>"
    by (metis of_int_1_le_iff of_int_abs of_int_diff)
  then have "tick \<le> \<bar>of_int k - of_int (nearest_tick y)\<bar> * tick"
    by simp
  also have "\<dots> = \<bar>(of_int k - of_int (nearest_tick y)) * tick\<bar>"
    by (simp add: abs_mult)
  finally have "tick \<le> \<bar>of_int k * tick - of_int (nearest_tick y) * tick\<bar>"
    by (simp only: left_diff_distrib)
  then show ?thesis
    using nearest_tick_dist by (rule half_dist)
qed

lemma round_double_dist:
  "x \<noteq> 0 \<Longrightarrow> \<bar>round_double x - x\<bar> \<le> 2 powi quantum x / 2"
proof -
  assume "x \<noteq> 0"
  define p where "p = (2::rat) powi quantum x"
  define z where "z = x / p"
  have p: "0 < p"
    by (simp add: p_def)
  have x: "x = z * p"
    using p by (simp add: z_def)
  have "round_double x = of_int (round_even z) * p"
    using \<open>x \<noteq> 0\<close> by (simp add: round_double_def p_def z_def)
  then have "\<bar>round_double x - x\<bar> = \<bar>of_int (round_even z) - z\<bar> * p"
    using p by (simp add: x abs_mult flip: left_diff_distrib)
  also have "\<dots> \<le> 1/2 * p"
    using round_even_dist p by (intro mult_right_mono) auto
  finally show ?thesis
    by (simp add: p_def)
qed

theorem nearest_tick_fixed:
  assumes "0 \<le> k" and y: "y = round_double (of_int k * tick)"
  shows "round_double (of_int (nearest_tick y) * tick) = y"
proof (cases "nearest_tick y = k")
  case True
  then show ?thesis
    using y by simp
next
  case False
  define E where "E = of_int k * tick"
  define D where "D = of_int (nearest_tick y) * tick"
  have y: "y = round_double E"
    using y by (simp only: E_def)
  have "k \<noteq> 0"
    using False y nearest_tick_of_int [of 0] by (auto simp: E_def)
  then have E: "0 < E"
    using assms(1) by (simp add: E_def)
  define q where "q = quantum E"
  define m where "m = round_even (E / 2 powi q)"
  have ym: "y = of_int m * 2 powi q"
    using E by (simp add: y round_double_def q_def m_def)
  have "tick / 2 \<le> 2 powi q / 2"
    using other_tick_dist [OF False, folded E_def] round_double_dist [of E, folded y q_def] E
    by (simp only: abs_minus_commute [of E]) (metis less_irrefl order_trans)
  then have "tick \<le> 2 powi q"
    by simp
  with tick_bounds(1) have "2 powi (- 40) < (2::rat) powi q"
    by (rule less_le_trans)
  then have q: "- 39 \<le> q"
    by (simp only: powi_less_iff)
  then have log: "floor_log2 E = q + 52"
    using E by (auto simp: q_def quantum_def max_def split: if_splits)
  have bounds: "2 powi (q + 52) \<le> E" "E < 2 powi (q + 53)"
    using floor_log2_bounds [OF E] by (simp_all add: log add.commute)
  have "2 ^ 52 \<le> m" "m \<le> 2 ^ 53"
    unfolding m_def using bounds
    by (auto intro!: round_even_ge round_even_le simp: power_int_add field_simps)
  have "tick < 2 powi q"
    using tick_bounds(2) q powi_le_iff [of "- 39" q] by (metis less_le_trans)
  then have near: "\<bar>D - of_int m * 2 powi q\<bar> < 2 powi q / 2"
    using nearest_tick_dist [of y, folded D_def] unfolding ym [symmetric] by (rule half_dist_less [rotated])
  have "2 powi (q + 52) \<le> D"
  proof (rule ccontr)
    assume D: "\<not> 2 powi (q + 52) \<le> D"
    have P: "(0::rat) < 2 powi q" "2 powi (q + 52) = 2 ^ 52 * (2::rat) powi q"
      by (simp_all add: power_int_add)
    have "of_int m * 2 powi q < (2 ^ 52 + 1/2) * (2::rat) powi q"
      using D near P(2) by (simp only: distrib_right)
    then have "(of_int m :: rat) < 2 ^ 52 + 1/2"
      using P(1) by (simp only: mult_less_cancel_right_pos)
    then have "m \<le> 2 ^ 52"
      by (intro of_int_le_half) simp
    with \<open>2 ^ 52 \<le> m\<close> have "y = 2 powi (q + 52)"
      by (simp add: ym P(2))
    then have "y = of_int (2 ^ nat (q + 52))"
      using q by (simp add: power_int_def)
    then have "D = y"
      using nearest_tick_of_int [of "2 ^ nat (q + 52)"] by (simp add: D_def)
    with D \<open>y = 2 powi (q + 52)\<close> show False
      by simp
  qed
  then have "round_double D = of_int m * 2 powi q"
    using q \<open>m \<le> 2 ^ 53\<close> near by (intro round_double_near) auto
  then show ?thesis
    by (simp only: D_def ym)
qed


subsection \<open>Rounding to 12 decimals as an operation on numbers\<close>

text \<open>\<open>parseFloat(x.toFixed(12))\<close> for a number \<open>x\<close>.\<close>

definition round12 :: "jsnum \<Rightarrow> jsnum" where
  "round12 n = parse_float (to_fixed 12 n)"

text \<open>The numbers that are the rounding of a decimal with 12 places, or too large for one.\<close>

definition normalized :: "rat \<Rightarrow> bool" where
  "normalized y \<longleftrightarrow> is_double y \<and>
     (10 ^ 21 \<le> \<bar>y\<bar> \<or> (\<exists>k. 0 \<le> k \<and> \<bar>y\<bar> = round_double (of_int k * tick)))"

lemma fixed_value_nearest: "fixed_value 12 x = (if x < 0 then - 1 else 1) * (of_int (nearest_tick \<bar>x\<bar>) * tick)"
  by (simp add: fixed_value_def nearest_tick_def Let_def)

lemma round12_fixed:
  assumes "normalized y"
  shows "round12 (Fin y) = Fin y"
proof (cases "10 ^ 21 \<le> \<bar>y\<bar>")
  case True
  then show ?thesis
    using assms by (simp add: round12_def parse_float_of_string normalized_def)
next
  case False
  then obtain k where k: "0 \<le> k" "\<bar>y\<bar> = round_double (of_int k * tick)"
    using assms by (auto simp: normalized_def)
  have "round_double (fixed_value 12 y) = y"
    using nearest_tick_fixed [OF k] by (auto simp: fixed_value_nearest round_double_minus)
  moreover have "\<bar>y\<bar> < double_limit"
    using assms by (simp add: normalized_def is_double_iff)
  ultimately show ?thesis
    using False parse_to_fixed [of y 12] unfolding round12_def by (simp only: to_num_Fin_iff not_le)
qed

lemma round12_normalized:
  assumes "is_double x" "round12 (Fin x) = Fin y"
  shows "normalized y"
proof (cases "10 ^ 21 \<le> \<bar>x\<bar>")
  case True
  then show ?thesis
    using assms by (auto simp: round12_def parse_float_of_string normalized_def)
next
  case False
  then have to: "to_num (fixed_value 12 x) = Fin y"
    using assms parse_to_fixed [of x 12] by (simp only: round12_def not_le)
  have "0 \<le> nearest_tick \<bar>x\<bar>"
    by (simp add: nearest_tick_def)
  then have "0 \<le> round_double (of_int (nearest_tick \<bar>x\<bar>) * tick)"
    unfolding round_double_def by (auto intro!: mult_nonneg_nonneg round_even_ge)
  moreover have "y = (if x < 0 then - 1 else 1) * round_double (of_int (nearest_tick \<bar>x\<bar>) * tick)"
    using to by (simp add: to_num_Fin_iff fixed_value_nearest round_double_minus split: if_splits)
  ultimately have "\<bar>y\<bar> = round_double (of_int (nearest_tick \<bar>x\<bar>) * tick)"
    by (simp split: if_splits)
  then show ?thesis
    using to_num_is_double [OF to] \<open>0 \<le> nearest_tick \<bar>x\<bar>\<close> by (auto simp: normalized_def)
qed

text \<open>Twice a normalized number is normalized: doubling is exact and keeps the decimals.\<close>

lemma floor_log2_double: "0 < x \<Longrightarrow> floor_log2 (2 * x) = floor_log2 x + 1"
  using floor_log2_bounds [of x] by (intro floor_log2_eq) (simp_all add: power_int_add)

lemma round_double_double:
  assumes "x = 0 \<or> - 1022 \<le> floor_log2 \<bar>x\<bar>"
  shows "round_double (2 * x) = 2 * round_double x"
proof (cases "x = 0")
  case False
  then have "quantum (2 * x) = quantum x + 1"
    using assms floor_log2_double [of "\<bar>x\<bar>"] by (simp add: quantum_def abs_mult)
  then show ?thesis
    using False by (simp add: round_double_def power_int_add)
qed simp

lemma tick_exponent: "0 < k \<Longrightarrow> - 1022 \<le> floor_log2 (of_int k * tick)"
proof (rule floor_log2_ge)
  assume "0 < k"
  then show "0 < of_int k * tick"
    by simp
  have "(2::rat) powi (- 1022) \<le> 2 powi (- 40)"
    by (simp only: powi_le_iff)
  also have "\<dots> \<le> tick"
    using tick_bounds(1) by (rule less_imp_le)
  also have "\<dots> \<le> of_int k * tick"
    using \<open>0 < k\<close> by simp
  finally show "2 powi (- 1022) \<le> of_int k * tick" .
qed

lemma normalized_double:
  assumes "normalized y" "is_double (2 * y)"
  shows "normalized (2 * y)"
proof (cases "10 ^ 21 \<le> \<bar>y\<bar>")
  case True
  then show ?thesis
    using assms(2) by (simp add: normalized_def abs_mult)
next
  case False
  then obtain k where k: "0 \<le> k" "\<bar>y\<bar> = round_double (of_int k * tick)"
    using assms by (auto simp: normalized_def)
  have "k = 0 \<or> 0 < k"
    using k(1) by linarith
  then have "round_double (2 * (of_int k * tick)) = 2 * round_double (of_int k * tick)"
    using tick_exponent [of k] by (intro round_double_double) auto
  then have "\<bar>2 * y\<bar> = round_double (of_int (2 * k) * tick)"
    using k(2) by (simp add: abs_mult mult.assoc)
  moreover have "0 \<le> 2 * k"
    using k(1) by simp
  ultimately show ?thesis
    using assms(2) unfolding normalized_def by blast
qed

lemma wf_round12 [simp]: "wf_num (round12 n)"
  by (simp add: round12_def)

text \<open>Rounding a finite number gives a finite number.\<close>

lemma round_double_bound: "\<bar>round_double x\<bar> \<le> 2 * \<bar>x\<bar> + 1"
proof (cases "x = 0")
  case False
  have "2 powi quantum x \<le> max \<bar>x\<bar> 1"
  proof (cases "- 1074 \<le> floor_log2 \<bar>x\<bar> - 52")
    case True
    have "(2::rat) powi (floor_log2 \<bar>x\<bar> - 52) \<le> 2 powi floor_log2 \<bar>x\<bar>"
      by (simp only: powi_le_iff)
    also have "\<dots> \<le> \<bar>x\<bar>"
      using False by (intro floor_log2_bounds) simp
    finally show ?thesis
      using True by (simp add: quantum_def)
  next
    case False
    then have "2 powi quantum x = (2::rat) powi (- 1074)"
      by (simp add: quantum_def)
    also have "\<dots> \<le> 2 powi 0"
      by (simp only: powi_le_iff)
    finally show ?thesis
      by simp
  qed
  then show ?thesis
    using round_double_dist [OF False] by linarith
qed simp

lemma to_num_finite:
  assumes "\<bar>x\<bar> < 10 ^ 22"
  obtains y where "to_num x = Fin y"
proof -
  have "\<bar>round_double x\<bar> < 2 ^ 80"
    using round_double_bound [of x] assms by simp
  also have "(2::rat) ^ 80 < double_limit"
    unfolding double_limit_def by (rule power_strict_increasing) simp_all
  finally show thesis
    using that by (simp only: to_num_Fin_iff)
qed

lemma dist_upper: "\<bar>a - b\<bar> \<le> c / 2 \<Longrightarrow> 0 \<le> c \<Longrightarrow> a \<le> b + c" for a b c :: rat
  by linarith

lemma round12_finite:
  assumes "is_double x"
  obtains y where "round12 (Fin x) = Fin y" "normalized y"
proof -
  have "\<exists>y. round12 (Fin x) = Fin y"
  proof (cases "10 ^ 21 \<le> \<bar>x\<bar>")
    case True
    then show ?thesis
      using assms by (simp add: round12_def parse_float_of_string)
  next
    case False
    have "\<bar>fixed_value 12 x\<bar> = of_int (nearest_tick \<bar>x\<bar>) * tick"
      using tick_bounds by (simp add: fixed_value_nearest nearest_tick_def abs_mult)
    also have "\<dots> \<le> \<bar>x\<bar> + tick"
      by (rule dist_upper [OF nearest_tick_dist]) simp
    also have "\<dots> < 10 ^ 22"
      using False by simp
    finally obtain y where "to_num (fixed_value 12 x) = Fin y"
      by (rule to_num_finite)
    then show ?thesis
      using False parse_to_fixed [of x 12] by (simp only: round12_def not_le) blast
  qed
  then show thesis
    using that round12_normalized [OF assms] by blast
qed

end
