(* ===== verification/JS_IntText.thy ===== *)
theory JS_IntText
  imports JS_NumText
begin

text \<open>
  Integers below \<open>10 ^ 15\<close> print as their decimal digits: the search for the shortest decimal ends
  at an exact one, and \<open>Number.parseInt\<close> reads it back.
\<close>

lemma dec_digits_length:
  assumes "0 < n"
  shows "10 ^ (length (dec_digits n) - 1) \<le> n \<and> n < 10 ^ length (dec_digits n)"
  using assms
proof (induction n rule: dec_digits.induct)
  case (1 n)
  show ?case
  proof (cases "n < 10")
    case True
    then show ?thesis
      using 1 by (simp add: dec_digits.simps [of n])
  next
    case False
    let ?l = "length (dec_digits (n div 10))"
    have ih: "10 ^ (?l - 1) \<le> n div 10" "n div 10 < 10 ^ ?l"
      using 1 False by simp_all
    have "0 < ?l"
      using dec_digits_not_Nil [of "n div 10"] 1 by simp
    then have "(10::int) ^ ?l = 10 * 10 ^ (?l - 1)"
      by (simp flip: power_Suc)
    then have "10 ^ ?l \<le> n" "n < 10 * 10 ^ ?l"
      using ih by linarith+
    then show ?thesis
      using False by (simp add: dec_digits.simps [of n])
  qed
qed

lemma dec_digits_ten: "0 < n \<Longrightarrow> dec_digits (n * 10) = dec_digits n @ [48]"
  by (subst dec_digits.simps) simp

lemma dec_digits_power: "0 < n \<Longrightarrow> dec_digits (n * 10 ^ k) = dec_digits n @ replicate k 48"
proof (induction k)
  case (Suc k)
  have "dec_digits (n * 10 ^ Suc k) = dec_digits (n * 10 ^ k * 10)"
    by (simp add: mult_ac)
  also have "\<dots> = dec_digits (n * 10 ^ k) @ [48]"
    using Suc.prems by (intro dec_digits_ten) simp
  finally show ?case
    using Suc by (simp add: replicate_append_same)
qed simp

lemma floor_log10_int:
  assumes "0 < n"
  shows "floor_log10 (of_int n) = int (length (dec_digits n)) - 1"
proof -
  have one: "length (dec_digits 1) = 1"
    by (simp add: dec_digits.simps)
  have "0 < length (dec_digits n)"
    using dec_digits_not_Nil [of n] assms by simp
  then have "(10::rat) powi (int (length (dec_digits n)) - 1) = of_int (10 ^ (length (dec_digits n) - 1))"
    by (simp add: power_int_def nat_diff_distrib)
  also have "\<dots> \<le> of_int n"
    using dec_digits_length [OF assms] by (simp only: of_int_le_iff)
  finally show ?thesis
    by (simp add: floor_log10_def one quotient_of_int)
qed

lemma strip_zeros_mono: "strip_zeros (s, e) = (s', e') \<Longrightarrow> e \<le> e'"
proof (induction "(s, e)" arbitrary: s e rule: strip_zeros.induct)
  case (1 s e)
  then show ?case
    using 1(1) by (cases "s \<noteq> 0 \<and> s mod 10 = 0") (auto simp: strip_zeros.simps [of s e])
qed

lemma write_decimal_int:
  assumes "0 < s" "0 \<le> e" "s * 10 ^ nat e < 10 ^ 21"
  shows "write_decimal (s, e) = dec_digits (s * 10 ^ nat e)"
proof -
  obtain s' e' where z: "strip_zeros (s, e) = (s', e')"
    by fastforce
  have e': "0 \<le> e'" "0 < s'"
    using strip_zeros_mono [OF z] strip_zeros_value [OF z] assms by simp_all
  have "(of_int (s' * 10 ^ nat e') :: rat) = of_int (s * 10 ^ nat e)"
    using strip_zeros_value [OF z] e' assms by (simp add: power_int_def)
  then have v: "s' * 10 ^ nat e' = s * 10 ^ nat e"
    by (simp only: of_int_eq_iff)
  then have d: "dec_digits (s * 10 ^ nat e) = dec_digits s' @ replicate (nat e') 48"
    using dec_digits_power [OF e'(2), of "nat e'"] by simp
  have "0 < s * 10 ^ nat e"
    using assms(1) by simp
  then have "(10::int) ^ (length (dec_digits (s * 10 ^ nat e)) - 1) < 10 ^ 21"
    using dec_digits_length assms(3) by (meson le_less_trans)
  then have "length (dec_digits (s * 10 ^ nat e)) - 1 < 21"
    by (rule power_less_imp_less_exp [rotated]) simp
  then have "int (length (dec_digits s')) + e' \<le> 21"
    using e'(1) by (simp add: d)
  then show ?thesis
    using e' by (simp add: write_decimal_def z d Let_def)
qed

lemma round_even_upper: "round_even y \<le> \<lfloor>y\<rfloor> + 1"
  by (simp add: round_even_def Let_def)

lemma decimal_candidate_int:
  assumes "0 < n" "n < 10 ^ 15" "1 \<le> k" "k \<le> length (dec_digits n)" "decimal_candidate k (of_int n) = Some (s, e)"
  shows "0 < s \<and> 0 \<le> e \<and> s * 10 ^ nat e = n"
proof -
  have e: "e = int (length (dec_digits n)) - int k" "0 \<le> e"
    using assms by (auto simp: decimal_candidate_def Let_def floor_log10_int split: if_splits)
  let ?p = "10 ^ nat e :: int"
  have p: "(10 :: rat) powi e = of_int ?p"
    using e(2) by (simp add: power_int_def)
  have s: "0 < s" "to_num (of_int s * 10 powi e) = Fin (of_int n)"
    using decimal_candidate_correct [OF assms(5)] by simp_all
  have "s \<le> \<lfloor>of_int n / of_int ?p :: rat\<rfloor> + 1"
    using assms(5) round_even_upper unfolding decimal_candidate_def Let_def p [symmetric]
    by (auto simp: floor_log10_int [OF assms(1)] e(1) split: if_splits)
  then have "s \<le> n div ?p + 1"
    by (simp only: floor_divide_of_int_eq)
  then have "s * ?p \<le> (n div ?p + 1) * ?p"
    by (intro mult_right_mono) simp_all
  also have "\<dots> = n div ?p * ?p + ?p"
    by (simp add: distrib_right)
  also have "\<dots> \<le> n + ?p"
  proof -
    have "0 \<le> n mod ?p"
      by simp
    then show ?thesis
      using div_mult_mod_eq [of n ?p] by linarith
  qed
  finally have le: "s * ?p \<le> n + ?p" .
  have "?p \<le> 10 ^ (length (dec_digits n) - 1)"
    using e assms(3) by (intro power_increasing) auto
  then have "s * ?p \<le> 2 * n"
    using le dec_digits_length [OF assms(1)] by linarith
  then have "\<bar>s * ?p\<bar> \<le> 2 ^ 53"
    using assms(2) s(1) by simp
  then have "to_num (of_int (s * ?p)) = Fin (of_int (s * ?p))"
    by (intro is_double_to_num is_double_int)
  then have "of_int (s * ?p) = (of_int n :: rat)"
    using s(2) by (simp add: p)
  then show ?thesis
    using s(1) e(2) by (simp only: of_int_eq_iff)
qed

lemma decimal_candidate_exact:
  assumes "0 < n" "n < 10 ^ 15"
  shows "decimal_candidate (length (dec_digits n)) (of_int n) = Some (n, 0)"
proof -
  have "is_double (of_int n)"
    using assms by (intro is_double_int) simp
  then show ?thesis
    using assms(1) by (simp add: decimal_candidate_def Let_def floor_log10_int round_even_def is_double_to_num)
qed

lemma shortest_from_int:
  assumes "0 < n" "n < 10 ^ 15"
  shows "1 \<le> k \<Longrightarrow> k \<le> length (dec_digits n) \<Longrightarrow> length (dec_digits n) < k + fuel
    \<Longrightarrow> \<exists>s e. shortest_from fuel k (of_int n) = (s, e) \<and> 0 < s \<and> 0 \<le> e \<and> s * 10 ^ nat e = n"
proof (induction fuel arbitrary: k)
  case (Suc fuel)
  show ?case
  proof (cases "decimal_candidate k (of_int n)")
    case None
    then have "k \<noteq> length (dec_digits n)"
      using decimal_candidate_exact [OF assms] by auto
    then show ?thesis
      using Suc None by simp
  next
    case (Some d)
    then show ?thesis
      using decimal_candidate_int [OF assms Suc.prems(1,2), of "fst d" "snd d"] by (cases d) simp
  qed
qed simp

text \<open>Integers print as their decimal digits.\<close>

lemma rat_to_string_int:
  assumes "0 \<le> n" "n < 10 ^ 15"
  shows "rat_to_string (of_int n) = dec_digits n"
proof (cases "n = 0")
  case False
  then have n: "0 < n"
    using assms by simp
  have "(10::int) ^ (length (dec_digits n) - 1) < 10 ^ 15"
    using dec_digits_length [OF n] assms(2) by linarith
  then have "length (dec_digits n) - 1 < 15"
    by (rule power_less_imp_less_exp [rotated]) simp
  moreover have "0 < length (dec_digits n)"
    using dec_digits_not_Nil [OF assms(1)] by simp
  ultimately have "1 \<le> length (dec_digits n)" "length (dec_digits n) < 1 + 17"
    by linarith+
  then obtain s e where d: "shortest_decimal (of_int n) = (s, e)" "0 < s" "0 \<le> e" "s * 10 ^ nat e = n"
    using shortest_from_int [OF n assms(2) order_refl, of 17] unfolding shortest_decimal_def by blast
  have "write_decimal (s, e) = dec_digits n"
    using write_decimal_int [OF d(2,3)] d(4) assms(2) by simp
  then show ?thesis
    using n d(1) by (simp add: rat_to_string_def)
qed (simp add: rat_to_string_def dec_digits.simps)

lemma num_to_string_int: "0 \<le> n \<Longrightarrow> n < 10 ^ 15 \<Longrightarrow> num_to_string (Fin (of_int n)) = dec_digits n"
  by (simp add: rat_to_string_int)

lemma parse_int_digits:
  assumes "s \<noteq> []" "\<forall>c\<in>set s. is_digit c"
  shows "parse_int s = to_num (of_int (digits_val s))"
proof -
  have h: "is_digit (hd s)"
    using assms by (cases s) auto
  then have "trim_start s = s"
    by (intro trim_start_fixed) simp
  moreover have "hd s \<noteq> 43" "hd s \<noteq> 45"
    using h by (auto simp: is_digit_def)
  ultimately show ?thesis
    using assms by (simp add: parse_int_def Let_def takeWhile_eq_all_conv [THEN iffD2])
qed

lemma parse_int_dec_digits:
  assumes "0 \<le> n" "n < 10 ^ 15"
  shows "parse_int (dec_digits n) = Fin (of_int n)"
proof -
  have "is_double (of_int n)"
    using assms by (intro is_double_int) simp
  then show ?thesis
    using assms dec_digits_digit [of n] dec_digits_not_Nil [of n]
    by (simp add: parse_int_digits is_double_to_num)
qed

text \<open>Evaluation takes the short way on integers.\<close>

lemma quotient_of_1: "quotient_of x = (a, 1) \<Longrightarrow> x = of_int a"
  using quotient_of_div by fastforce

lemma to_num_int_code [code]:
  "to_num x =
     (let (a, b) = quotient_of x
      in if b = 1 \<and> \<bar>a\<bar> \<le> 9007199254740992 then Fin x
         else let r = round_double x
           in if r \<noteq> 0 \<and> 1024 \<le> floor_log2 \<bar>r\<bar> then (if 0 < r then PosInf else NegInf) else Fin r)"
proof (cases "quotient_of x")
  case (Pair a b)
  show ?thesis
  proof (cases "b = 1 \<and> \<bar>a\<bar> \<le> 9007199254740992")
    case True
    then have "is_double x"
      using quotient_of_1 [of x a] is_double_int [of a] Pair by simp
    then show ?thesis
      using True Pair by (simp add: is_double_to_num)
  next
    case False
    show ?thesis
      unfolding Pair prod.case Let_def [of "(a, b)"] if_not_P [OF False] by (rule to_num_code)
  qed
qed

lemma rat_to_string_int_code [code]:
  "rat_to_string x =
     (let (a, b) = quotient_of x
      in if b = 1 \<and> 0 \<le> a \<and> a < 1000000000000000 then dec_digits a
         else if x < 0 then 45 # write_decimal (shortest_decimal (- x))
         else write_decimal (shortest_decimal x))"
proof (cases "quotient_of x")
  case (Pair a b)
  show ?thesis
  proof (cases "b = 1 \<and> 0 \<le> a \<and> a < 1000000000000000")
    case True
    then have "rat_to_string x = dec_digits a"
      using quotient_of_1 [of x a] rat_to_string_int [of a] Pair by simp
    then show ?thesis
      using True Pair by simp
  next
    case False
    then have "x \<noteq> 0"
      using Pair by auto
    then show ?thesis
      using False Pair by (auto simp: rat_to_string_def)
  qed
qed

definition int_to_string :: "int \<Rightarrow> jstr" where
  "int_to_string n = num_to_string (Fin (of_int n))"

lemma int_to_string_digits: "0 \<le> n \<Longrightarrow> n < 10 ^ 15 \<Longrightarrow> int_to_string n = dec_digits n"
  unfolding int_to_string_def by (rule num_to_string_int)

end
