(* ===== verification/JS_Value.thy ===== *)
theory JS_Value
  imports JS_ToFixed JS_IntText
begin

text \<open>
  JavaScript values and the conversions the sources apply to values of unknown type.

  An object is the list of its own properties in the order \<open>Object.entries\<close> gives them:
  array-index keys in ascending order, then the other keys in the order of insertion.
  \<open>obj_put\<close> is assignment to a property and keeps that order. Properties inherited from
  \<open>Object.prototype\<close> are left out, and so are object identity and getters.
\<close>

named_theorems js_val_simps \<open>evaluation of the conversions on values\<close>

datatype jsval =
    Undefined
  | Null
  | Bool bool
  | Num jsnum
  | Str jstr
  | Arr "jsval list"
  | Obj "(jstr \<times> jsval) list"

fun truthy :: "jsval \<Rightarrow> bool" where
  "truthy Undefined = False"
| "truthy Null = False"
| "truthy (Bool b) = b"
| "truthy (Num n) = (n \<noteq> NaN \<and> n \<noteq> Fin 0)"
| "truthy (Str s) = (s \<noteq> [])"
| "truthy (Arr _) = True"
| "truthy (Obj _) = True"

text \<open>\<open>a || b\<close> and \<open>a ?? b\<close>.\<close>

definition js_or :: "jsval \<Rightarrow> jsval \<Rightarrow> jsval" where
  "js_or a b = (if truthy a then a else b)"

definition nullish :: "jsval \<Rightarrow> bool" where
  "nullish v \<longleftrightarrow> v = Undefined \<or> v = Null"

definition js_coalesce :: "jsval \<Rightarrow> jsval \<Rightarrow> jsval" where
  "js_coalesce a b = (if nullish a then b else a)"

text \<open>Property reads: \<open>undefined\<close> where the property is missing.\<close>

fun get_prop :: "jstr \<Rightarrow> jsval \<Rightarrow> jsval" where
  "get_prop k (Obj ps) = (case map_of ps k of Some v \<Rightarrow> v | None \<Rightarrow> Undefined)"
| "get_prop k _ = Undefined"

text \<open>\<open>v && typeof v === 'object' && !Array.isArray(v)\<close> and \<open>Array.isArray(v)\<close>.\<close>

fun is_plain_object :: "jsval \<Rightarrow> bool" where
  "is_plain_object (Obj _) = True"
| "is_plain_object _ = False"

fun is_array :: "jsval \<Rightarrow> bool" where
  "is_array (Arr _) = True"
| "is_array _ = False"

text \<open>\<open>v && typeof v === 'object'\<close>.\<close>

definition is_object :: "jsval \<Rightarrow> bool" where
  "is_object v \<longleftrightarrow> is_plain_object v \<or> is_array v"

fun elements :: "jsval \<Rightarrow> jsval list" where
  "elements (Arr xs) = xs"
| "elements _ = []"

fun entries :: "jsval \<Rightarrow> (jstr \<times> jsval) list" where
  "entries (Obj ps) = ps"
| "entries _ = []"

text \<open>\<open>String(v)\<close> and \<open>Number(v)\<close>.\<close>

fun js_string :: "jsval \<Rightarrow> jstr" where
  "js_string Undefined = str ''undefined''"
| "js_string Null = str ''null''"
| "js_string (Bool b) = (if b then str ''true'' else str ''false'')"
| "js_string (Num n) = num_to_string n"
| "js_string (Str s) = s"
| "js_string (Arr xs) = join [44] (map (\<lambda>x. if x = Undefined \<or> x = Null then [] else js_string x) xs)"
| "js_string (Obj _) = str ''[object Object]''"

fun js_number :: "jsval \<Rightarrow> jsnum" where
  "js_number Undefined = NaN"
| "js_number Null = Fin 0"
| "js_number (Bool b) = Fin (if b then 1 else 0)"
| "js_number (Num n) = n"
| "js_number (Str s) = string_to_num s"
| "js_number (Arr xs) = string_to_num (js_string (Arr xs))"
| "js_number (Obj _) = NaN"

lemma js_or_simps [js_val_simps]:
  "truthy a \<Longrightarrow> js_or a b = a" "\<not> truthy a \<Longrightarrow> js_or a b = b"
  by (simp_all add: js_or_def)

lemma js_string_or_empty: "js_string (js_or (Str s) (Str [])) = s"
  by (simp add: js_or_def)


subsection \<open>The order of properties\<close>

definition index_key :: "jstr \<Rightarrow> bool" where
  "index_key k \<longleftrightarrow> k \<noteq> [] \<and> (\<forall>c\<in>set k. is_digit c) \<and> (hd k = 48 \<longrightarrow> k = [48])
     \<and> digits_val k < 4294967295"

definition key_before :: "jstr \<Rightarrow> jstr \<Rightarrow> bool" where
  "key_before a b \<longleftrightarrow> (if index_key a then \<not> index_key b \<or> digits_val a < digits_val b else \<not> index_key b)"

definition obj_put :: "jstr \<Rightarrow> 'v \<Rightarrow> (jstr \<times> 'v) list \<Rightarrow> (jstr \<times> 'v) list" where
  "obj_put k v ps =
     (if k \<in> fst ` set ps then map (\<lambda>p. if fst p = k then (k, v) else p) ps
      else if index_key k then
        (let before = (\<lambda>p. index_key (fst p) \<and> digits_val (fst p) < digits_val k)
         in takeWhile before ps @ (k, v) # dropWhile before ps)
      else ps @ [(k, v)])"

definition obj_delete :: "jstr \<Rightarrow> (jstr \<times> 'v) list \<Rightarrow> (jstr \<times> 'v) list" where
  "obj_delete k ps = filter (\<lambda>p. fst p \<noteq> k) ps"

text \<open>\<open>{...a, ...b}\<close>, and an object literal or a parsed object from its pairs.\<close>

definition obj_spread :: "(jstr \<times> 'v) list \<Rightarrow> (jstr \<times> 'v) list \<Rightarrow> (jstr \<times> 'v) list" where
  "obj_spread a b = foldl (\<lambda>o' p. obj_put (fst p) (snd p) o') a b"

definition obj_of_list :: "(jstr \<times> 'v) list \<Rightarrow> (jstr \<times> 'v) list" where
  "obj_of_list ps = obj_spread [] ps"

definition canonical :: "(jstr \<times> 'v) list \<Rightarrow> bool" where
  "canonical ps \<longleftrightarrow> distinct (map fst ps) \<and> sorted_wrt (\<lambda>p q. key_before (fst p) (fst q)) ps"

lemma map_of_notin: "k \<notin> fst ` set ps \<Longrightarrow> map_of ps k = None"
  by (simp add: map_of_eq_None_iff)

lemma map_of_update_in_place:
  "k \<in> fst ` set ps \<Longrightarrow> map_of (map (\<lambda>p. if fst p = k then (k, v) else p) ps) = (map_of ps)(k \<mapsto> v)"
proof (induction ps)
  case (Cons p ps)
  show ?case
  proof (cases "k \<in> fst ` set ps")
    case True
    with Cons.IH show ?thesis
      by (cases p) (auto simp: fun_eq_iff)
  next
    case False
    then have "map (\<lambda>p. if fst p = k then (k, v) else p) ps = ps"
      by (intro map_idI) auto
    with Cons.prems False show ?thesis
      by (cases p) (auto simp: fun_eq_iff)
  qed
qed simp

lemma map_of_insert:
  "k \<notin> fst ` set (xs @ ys) \<Longrightarrow> map_of (xs @ (k, v) # ys) = (map_of (xs @ ys))(k \<mapsto> v)"
  by (induction xs) (auto simp: fun_eq_iff)

lemma map_of_obj_put [simp]: "map_of (obj_put k v ps) = (map_of ps)(k \<mapsto> v)"
proof (cases "k \<in> fst ` set ps")
  case True
  then show ?thesis
    by (simp add: obj_put_def map_of_update_in_place)
next
  case False
  let ?b = "\<lambda>p. index_key (fst p) \<and> digits_val (fst p) < digits_val k"
  have "k \<notin> fst ` set (takeWhile ?b ps @ dropWhile ?b ps)"
    using False by simp
  from map_of_insert [OF this] map_of_insert [of k ps "[]" v] False show ?thesis
    by (simp add: obj_put_def Let_def)
qed

lemma map_of_obj_delete [simp]: "map_of (obj_delete k ps) = (map_of ps)(k := None)"
  by (induction ps) (auto simp: obj_delete_def fun_eq_iff)

lemma set_obj_put: "set (obj_put k v ps) \<subseteq> insert (k, v) (set ps)"
  by (auto simp: obj_put_def Let_def dest: set_takeWhileD set_dropWhileD split: if_splits)

lemma canonical_append_put:
  assumes "canonical (ps @ [(k, v)])"
  shows "obj_put k v ps = ps @ [(k, v)]"
proof -
  have new: "k \<notin> fst ` set ps" and before: "\<forall>p\<in>set ps. key_before (fst p) k"
    using assms by (auto simp: canonical_def sorted_wrt_append)
  show ?thesis
  proof (cases "index_key k")
    case True
    then have "\<forall>p\<in>set ps. index_key (fst p) \<and> digits_val (fst p) < digits_val k"
      using before by (auto simp: key_before_def split: if_splits)
    then show ?thesis
      using new True by (simp add: obj_put_def Let_def)
  qed (use new in \<open>simp add: obj_put_def\<close>)
qed

lemma canonical_prefix: "canonical (ps @ qs) \<Longrightarrow> canonical ps"
  by (simp add: canonical_def sorted_wrt_append)

lemma obj_of_list_canonical: "canonical ps \<Longrightarrow> obj_of_list ps = ps"
proof (induction ps rule: rev_induct)
  case (snoc p ps)
  then show ?case
    using canonical_append_put [of ps "fst p" "snd p"] canonical_prefix [of ps "[p]"]
    by (simp add: obj_of_list_def obj_spread_def)
qed (simp add: obj_of_list_def obj_spread_def)

lemma map_of_obj_spread: "map_of (obj_spread a b) k = (case map_of (rev b) k of Some v \<Rightarrow> Some v | None \<Rightarrow> map_of a k)"
proof (induction b rule: rev_induct)
  case (snoc p b)
  then show ?case
    by (cases p) (simp add: obj_spread_def)
qed (simp add: obj_spread_def)

text \<open>Assignment keeps the order: the number of an array-index key determines the key.\<close>

lemma digits_val_bounds:
  "\<forall>c\<in>set ds. is_digit c \<Longrightarrow> 0 \<le> digits_val ds \<and> digits_val ds < 10 ^ length ds"
  by (induction ds rule: rev_induct) (auto simp: digits_val_snoc is_digit_def)

lemma digits_val_inject:
  "length a = length b \<Longrightarrow> \<forall>c\<in>set a \<union> set b. is_digit c \<Longrightarrow> digits_val a = digits_val b \<Longrightarrow> a = b"
proof (induction a b rule: rev_induct2)
  case (4 x xs y ys)
  have x: "0 \<le> x - 48" "x - 48 < 10" "0 \<le> y - 48" "y - 48 < 10"
    using 4 by (auto simp: is_digit_def)
  have "digits_val xs * 10 + (x - 48) = digits_val ys * 10 + (y - 48)"
    using 4 by (simp add: digits_val_snoc)
  then have "x = y" "digits_val xs = digits_val ys"
    using x by presburger+
  with 4 show ?case
    by simp
qed auto

lemma index_key_length:
  assumes "index_key k" "k \<noteq> [48]"
  shows "10 ^ (length k - 1) \<le> digits_val k"
proof -
  obtain c ds where k: "k = c # ds"
    using assms(1) by (cases k) (auto simp: index_key_def)
  have "1 \<le> c - 48"
    using assms by (auto simp: k index_key_def is_digit_def)
  then have "10 ^ length ds \<le> (c - 48) * 10 ^ length ds"
    by simp
  moreover have "0 \<le> digits_val ds"
    using assms(1) by (intro digits_val_nonneg) (auto simp: k index_key_def)
  ultimately have "10 ^ length ds \<le> (c - 48) * 10 ^ length ds + digits_val ds"
    by linarith
  then show ?thesis
    unfolding k digits_val_cons by (simp only: list.size add_Suc_right add_0_right diff_Suc_1)
qed

lemma index_key_inject:
  assumes "index_key a" "index_key b" "digits_val a = digits_val b"
  shows "a = b"
proof -
  have zero: "digits_val [48] = 0"
    by (simp add: digits_val_def)
  have pos: "0 < digits_val k" if "index_key k" "k \<noteq> [48]" for k
    using index_key_length [OF that] by (rule less_le_trans [rotated]) simp
  have len: "length x \<le> length y"
    if "index_key x" "index_key y" "x \<noteq> [48]" "digits_val x = digits_val y" for x y
  proof (rule ccontr)
    assume "\<not> length x \<le> length y"
    then have "(10::int) ^ length y \<le> 10 ^ (length x - 1)"
      by (intro power_increasing) auto
    moreover have "digits_val y < 10 ^ length y"
      using that(2) digits_val_bounds [of y] by (auto simp: index_key_def)
    ultimately show False
      using index_key_length [OF that(1,3)] that(4) by linarith
  qed
  show ?thesis
  proof (cases "a = [48] \<or> b = [48]")
    case True
    then show ?thesis
      using zero pos [of a] pos [of b] assms by (metis less_irrefl)
  next
    case False
    then have "length a = length b"
      using len [of a b] len [of b a] assms by simp
    then show ?thesis
      using assms by (intro digits_val_inject) (auto simp: index_key_def)
  qed
qed

lemma canonical_keys:
  "canonical ps \<longleftrightarrow> distinct (map fst ps) \<and> sorted_wrt key_before (map fst ps)"
  by (simp add: canonical_def sorted_wrt_map)

lemma canonical_update_in_place:
  assumes "canonical ps"
  shows "canonical (map (\<lambda>p. if fst p = k then (k, v) else p) ps)"
proof -
  have "map fst (map (\<lambda>p. if fst p = k then (k, v) else p) ps) = map fst ps"
    by simp
  then show ?thesis
    using assms by (simp only: canonical_keys)
qed

lemma key_before_trans: "key_before a b \<Longrightarrow> key_before b c \<Longrightarrow> key_before a c"
  by (auto simp: key_before_def split: if_splits)

lemma canonical_insert:
  assumes "canonical (xs @ ys)" "k \<notin> fst ` set (xs @ ys)"
    and "\<forall>p\<in>set xs. key_before (fst p) k" "ys = [] \<or> key_before k (fst (hd ys))"
  shows "canonical (xs @ (k, v) # ys)"
proof -
  have "key_before k (fst q)" if "q \<in> set ys" for q
  proof (cases ys)
    case (Cons y zs)
    then have "q = y \<or> key_before (fst y) (fst q)"
      using that assms(1) by (auto simp: canonical_def sorted_wrt_append)
    then show ?thesis
      using assms(4) Cons by (auto intro: key_before_trans)
  qed (use that in simp)
  then show ?thesis
    using assms(1-3) by (auto simp: canonical_def sorted_wrt_append)
qed

lemma canonical_obj_put:
  assumes "canonical ps"
  shows "canonical (obj_put k v ps)"
proof (cases "k \<in> fst ` set ps")
  case True
  then show ?thesis
    using assms by (simp add: obj_put_def canonical_update_in_place)
next
  case False
  show ?thesis
  proof (cases "index_key k")
    case True
    let ?b = "\<lambda>p. index_key (fst p) \<and> digits_val (fst p) < digits_val k"
    let ?xs = "takeWhile ?b ps" and ?ys = "dropWhile ?b ps"
    have "key_before k (fst (hd ?ys))" if ne: "?ys \<noteq> []"
    proof -
      obtain y zs where ys: "?ys = y # zs"
        using ne by (meson neq_Nil_conv)
      have "y \<in> set ?ys"
        by (simp add: ys)
      then have "y \<in> set ps"
        by (rule set_dropWhileD)
      moreover have "\<not> ?b y"
        using ys by (simp add: dropWhile_eq_Cons_conv)
      ultimately have "y \<in> set ps" "fst y \<noteq> k"
        using False by auto
      then show ?thesis
        using True \<open>\<not> ?b y\<close> index_key_inject [OF True, of "fst y"]
        by (auto simp: key_before_def ys not_less order_le_less)
    qed
    then have "?ys = [] \<or> key_before k (fst (hd ?ys))"
      by blast
    moreover have "\<forall>p\<in>set ?xs. key_before (fst p) k"
      using True by (auto simp: key_before_def dest: set_takeWhileD)
    ultimately have "canonical (?xs @ (k, v) # ?ys)"
      using assms False by (intro canonical_insert) simp_all
    then show ?thesis
      using False True by (simp add: obj_put_def Let_def)
  next
    case False': False
    have "canonical (ps @ (k, v) # [])"
      using assms False False' by (intro canonical_insert) (auto simp: key_before_def)
    then show ?thesis
      using False False' by (simp add: obj_put_def)
  qed
qed

lemma canonical_obj_spread: "canonical a \<Longrightarrow> canonical (obj_spread a b)"
  by (induction b rule: rev_induct) (simp_all add: obj_spread_def canonical_obj_put)

lemma canonical_Nil [simp]: "canonical []"
  by (simp add: canonical_def)

lemma canonical_obj_of_list [simp]: "canonical (obj_of_list ps)"
  by (simp add: obj_of_list_def canonical_obj_spread)

lemma canonical_obj_delete: "canonical ps \<Longrightarrow> canonical (obj_delete k ps)"
  unfolding canonical_def obj_delete_def
  by (auto simp: sorted_wrt_filter distinct_map inj_on_def)


subsection \<open>Values that can occur\<close>

text \<open>Numbers are IEEE numbers, code units have 16 bits and properties are in their order.\<close>

definition wf_str :: "jstr \<Rightarrow> bool" where
  "wf_str s \<longleftrightarrow> (\<forall>c\<in>set s. 0 \<le> c \<and> c < 65536)"

fun wf_val :: "jsval \<Rightarrow> bool" where
  "wf_val (Num n) = wf_num n"
| "wf_val (Str s) = wf_str s"
| "wf_val (Arr xs) = (\<forall>x\<in>set xs. wf_val x)"
| "wf_val (Obj ps) = (canonical ps \<and> (\<forall>p\<in>set ps. wf_str (fst p) \<and> wf_val (snd p)))"
| "wf_val _ = True"

lemma is_double_01: "is_double 0" "is_double 1"
  using is_double_int [of 0] is_double_int [of 1] by simp_all

lemma wf_js_number: "wf_val v \<Longrightarrow> wf_num (js_number v)"
  by (cases v) (simp_all add: is_double_01)

lemma wf_obj_put:
  "wf_val (Obj ps) \<Longrightarrow> wf_str k \<Longrightarrow> wf_val v \<Longrightarrow> wf_val (Obj (obj_put k v ps))"
  using set_obj_put [of k v ps] by (auto simp: canonical_obj_put)

lemma wf_obj_spread:
  "wf_val (Obj a) \<Longrightarrow> \<forall>p\<in>set b. wf_str (fst p) \<and> wf_val (snd p) \<Longrightarrow> wf_val (Obj (obj_spread a b))"
  by (induction b rule: rev_induct) (auto simp: obj_spread_def simp del: wf_val.simps intro!: wf_obj_put)

lemma wf_obj_of_list:
  "\<forall>p\<in>set b. wf_str (fst p) \<and> wf_val (snd p) \<Longrightarrow> wf_val (Obj (obj_of_list b))"
  unfolding obj_of_list_def by (rule wf_obj_spread) simp_all


subsection \<open>Indexing and addition\<close>

text \<open>\<open>v?.[i]\<close>.\<close>

definition js_index :: "nat \<Rightarrow> jsval \<Rightarrow> jsval" where
  "js_index i v =
     (case v of
        Arr xs \<Rightarrow> if i < length xs then xs ! i else Undefined
      | Str s \<Rightarrow> if i < length s then Str [s ! i] else Undefined
      | Obj ps \<Rightarrow> get_prop (int_to_string (int i)) v
      | _ \<Rightarrow> Undefined)"

fun is_string :: "jsval \<Rightarrow> bool" where
  "is_string (Str s) = True"
| "is_string _ = False"

fun is_number :: "jsval \<Rightarrow> bool" where
  "is_number (Num n) = True"
| "is_number _ = False"

text \<open>\<open>a + b\<close> joins texts when one side is a text or an object, and adds numbers otherwise.\<close>

definition js_add :: "jsval \<Rightarrow> jsval \<Rightarrow> jsval" where
  "js_add a b =
     (if is_string a \<or> is_object a \<or> is_string b \<or> is_object b then Str (js_string a @ js_string b)
      else Num (num_add (js_number a) (js_number b)))"

end
