(* ===== verification/JS_JSON.thy ===== *)
theory JS_JSON
  imports JS_Value
begin

text \<open>
  \<open>JSON.parse\<close> and \<open>JSON.stringify\<close>, as the language defines them.

  The parser works on the rest of the text; a syntax error is \<open>None\<close>. Its recursion is not
  structural, since an array is read element by element, so it carries fuel, and
  \<open>parse_value_enough\<close> shows that twice the length of the text is enough: more fuel never
  changes the result. The printer takes the indentation unit \<open>gap\<close>, which is empty for
  \<open>JSON.stringify(v)\<close> and two spaces for \<open>JSON.stringify(v, null, 2)\<close>.
\<close>

subsection \<open>Reading\<close>

definition json_ws :: "int \<Rightarrow> bool" where
  "json_ws c \<longleftrightarrow> c = 32 \<or> c = 9 \<or> c = 10 \<or> c = 13"

definition skip_ws :: "jstr \<Rightarrow> jstr" where
  "skip_ws s = dropWhile json_ws s"

definition hex_val :: "int \<Rightarrow> int option" where
  "hex_val c =
     (if is_digit c then Some (c - 48)
      else if 97 \<le> c \<and> c \<le> 102 then Some (c - 87)
      else if 65 \<le> c \<and> c \<le> 70 then Some (c - 55) else None)"

definition hex4_val :: "int \<Rightarrow> int \<Rightarrow> int \<Rightarrow> int \<Rightarrow> int option" where
  "hex4_val a b c d =
     (case (hex_val a, hex_val b, hex_val c, hex_val d) of
        (Some w, Some x, Some y, Some z) \<Rightarrow> Some (((w * 16 + x) * 16 + y) * 16 + z)
      | _ \<Rightarrow> None)"

definition unescape :: "int \<Rightarrow> int option" where
  "unescape c =
     (if c = 34 \<or> c = 92 \<or> c = 47 then Some c
      else if c = 98 then Some 8
      else if c = 102 then Some 12
      else if c = 110 then Some 10
      else if c = 114 then Some 13
      else if c = 116 then Some 9 else None)"

text \<open>The characters of a string after its opening quote.\<close>

fun parse_chars :: "jstr \<Rightarrow> (jstr \<times> jstr) option" where
  "parse_chars [] = None"
| "parse_chars (c # s) =
     (if c = 34 then Some ([], s)
      else if c < 32 then None
      else if c = 92 then
        (case s of
           [] \<Rightarrow> None
         | e # r \<Rightarrow>
             if e = 117 then
               (case r of
                  h1 # h2 # h3 # h4 # r' \<Rightarrow>
                    (case hex4_val h1 h2 h3 h4 of
                       None \<Rightarrow> None
                     | Some u \<Rightarrow> map_option (apfst (Cons u)) (parse_chars r'))
                | _ \<Rightarrow> None)
             else (case unescape e of
                     None \<Rightarrow> None
                   | Some u \<Rightarrow> map_option (apfst (Cons u)) (parse_chars r)))
      else map_option (apfst (Cons c)) (parse_chars s))"

text \<open>A number has no leading zero and a digit after its point.\<close>

definition strict_literal :: "jstr \<Rightarrow> bool" where
  "strict_literal s \<longleftrightarrow> s \<noteq> [] \<and> is_digit (hd s)
     \<and> \<not> (hd s = 48 \<and> tl s \<noteq> [] \<and> is_digit (hd (tl s)))
     \<and> (let r = dropWhile is_digit s in r \<noteq> [] \<and> hd r = 46 \<longrightarrow> tl r \<noteq> [] \<and> is_digit (hd (tl r)))"

definition json_number :: "jstr \<Rightarrow> (jsnum \<times> jstr) option" where
  "json_number s =
     (let neg = (s \<noteq> [] \<and> hd s = 45); r = (if neg then tl s else s)
      in if strict_literal r
         then map_option (\<lambda>(x, r'). (to_num (if neg then - x else x), r')) (read_decimal r) else None)"

definition parse_word :: "jstr \<Rightarrow> (jsval \<times> jstr) option" where
  "parse_word s =
     (if starts_with s (str ''true'') then Some (Bool True, drop 4 s)
      else if starts_with s (str ''false'') then Some (Bool False, drop 5 s)
      else if starts_with s (str ''null'') then Some (Null, drop 4 s)
      else None)"

text \<open>
  One step of each of the three mutually recursive readers: a value, the elements of an array
  after its bracket or a comma, the members of an object. The readers they call are arguments.
\<close>

definition value_step ::
    "(jstr \<Rightarrow> (jsval list \<times> jstr) option) \<Rightarrow> (jstr \<Rightarrow> ((jstr \<times> jsval) list \<times> jstr) option)
      \<Rightarrow> jstr \<Rightarrow> (jsval \<times> jstr) option" where
  "value_step elems members s =
     (case skip_ws s of
        [] \<Rightarrow> None
      | c # r \<Rightarrow>
          if c = 34 then map_option (apfst Str) (parse_chars r)
          else if c = 91 then
            (if skip_ws r \<noteq> [] \<and> hd (skip_ws r) = 93 then Some (Arr [], tl (skip_ws r))
             else map_option (apfst Arr) (elems r))
          else if c = 123 then
            (if skip_ws r \<noteq> [] \<and> hd (skip_ws r) = 125 then Some (Obj [], tl (skip_ws r))
             else map_option (apfst (\<lambda>ps. Obj (obj_of_list ps))) (members r))
          else if c = 45 \<or> is_digit c then map_option (apfst Num) (json_number (c # r))
          else parse_word (c # r))"

text \<open>After an item: a comma and more of them, or the closing bracket.\<close>

definition next_item ::
    "int \<Rightarrow> (jstr \<Rightarrow> ('a list \<times> jstr) option) \<Rightarrow> 'a \<Rightarrow> jstr \<Rightarrow> ('a list \<times> jstr) option" where
  "next_item close' more x s =
     (case skip_ws s of
        [] \<Rightarrow> None
      | c # r \<Rightarrow>
          if c = 44 then map_option (apfst (Cons x)) (more r)
          else if c = close' then Some ([x], r) else None)"

definition elems_step ::
    "(jstr \<Rightarrow> (jsval \<times> jstr) option) \<Rightarrow> (jstr \<Rightarrow> (jsval list \<times> jstr) option)
      \<Rightarrow> jstr \<Rightarrow> (jsval list \<times> jstr) option" where
  "elems_step val elems s = (case val s of None \<Rightarrow> None | Some (v, r) \<Rightarrow> next_item 93 elems v r)"

text \<open>A property name with its colon.\<close>

definition parse_key :: "jstr \<Rightarrow> (jstr \<times> jstr) option" where
  "parse_key s =
     (case skip_ws s of
        [] \<Rightarrow> None
      | q # r \<Rightarrow>
          if q \<noteq> 34 then None
          else case parse_chars r of
            None \<Rightarrow> None
          | Some (k, r1) \<Rightarrow>
              if skip_ws r1 \<noteq> [] \<and> hd (skip_ws r1) = 58 then Some (k, tl (skip_ws r1)) else None)"

definition members_step ::
    "(jstr \<Rightarrow> (jsval \<times> jstr) option) \<Rightarrow> (jstr \<Rightarrow> ((jstr \<times> jsval) list \<times> jstr) option)
      \<Rightarrow> jstr \<Rightarrow> ((jstr \<times> jsval) list \<times> jstr) option" where
  "members_step val members s =
     (case parse_key s of
        None \<Rightarrow> None
      | Some (k, r) \<Rightarrow>
          (case val r of None \<Rightarrow> None | Some (v, r') \<Rightarrow> next_item 125 members (k, v) r'))"

fun parse_value :: "nat \<Rightarrow> jstr \<Rightarrow> (jsval \<times> jstr) option"
  and parse_elems :: "nat \<Rightarrow> jstr \<Rightarrow> (jsval list \<times> jstr) option"
  and parse_members :: "nat \<Rightarrow> jstr \<Rightarrow> ((jstr \<times> jsval) list \<times> jstr) option" where
  "parse_value 0 s = None"
| "parse_value (Suc n) s = value_step (parse_elems n) (parse_members n) s"
| "parse_elems 0 s = None"
| "parse_elems (Suc n) s = elems_step (parse_value n) (parse_elems n) s"
| "parse_members 0 s = None"
| "parse_members (Suc n) s = members_step (parse_value n) (parse_members n) s"

definition json_parse :: "jstr \<Rightarrow> jsval option" where
  "json_parse s =
     (case parse_value (2 * length s + 1) s of
        Some (v, r) \<Rightarrow> if skip_ws r = [] then Some v else None
      | None \<Rightarrow> None)"


subsection \<open>Writing\<close>

definition hex_digit :: "int \<Rightarrow> int" where
  "hex_digit n = (if n < 10 then 48 + n else 87 + n)"

definition unicode_escape :: "int \<Rightarrow> jstr" where
  "unicode_escape c =
     [92, 117, hex_digit (c div 4096), hex_digit (c div 256 mod 16), hex_digit (c div 16 mod 16), hex_digit (c mod 16)]"

definition quote_unit :: "int \<Rightarrow> jstr" where
  "quote_unit c =
     (if c = 34 \<or> c = 92 then [92, c]
      else if c = 8 then [92, 98]
      else if c = 12 then [92, 102]
      else if c = 10 then [92, 110]
      else if c = 13 then [92, 114]
      else if c = 9 then [92, 116]
      else if c < 32 \<or> 55296 \<le> c \<and> c \<le> 57343 then unicode_escape c
      else [c])"

text \<open>A surrogate is written as itself only within a pair.\<close>

fun quote_chars :: "jstr \<Rightarrow> jstr" where
  "quote_chars [] = []"
| "quote_chars [c] = quote_unit c"
| "quote_chars (c # d # s) =
     (if 55296 \<le> c \<and> c \<le> 56319 \<and> 56320 \<le> d \<and> d \<le> 57343 then c # d # quote_chars s
      else quote_unit c @ quote_chars (d # s))"

definition quote :: "jstr \<Rightarrow> jstr" where
  "quote s = 34 # quote_chars s @ [34]"

text \<open>The items of an array or object between their brackets.\<close>

definition json_block :: "jstr \<Rightarrow> jstr \<Rightarrow> int \<Rightarrow> int \<Rightarrow> jstr list \<Rightarrow> jstr" where
  "json_block gap ind open' close' ms =
     (if ms = [] then [open', close']
      else let nl = (if gap = [] then [] else 10 # ind @ gap); nl0 = (if gap = [] then [] else 10 # ind)
        in open' # nl @ join (44 # nl) ms @ nl0 @ [close'])"

fun json_ser :: "jstr \<Rightarrow> jstr \<Rightarrow> jsval \<Rightarrow> jstr" where
  "json_ser gap ind Undefined = str ''null''"
| "json_ser gap ind Null = str ''null''"
| "json_ser gap ind (Bool b) = (if b then str ''true'' else str ''false'')"
| "json_ser gap ind (Num n) = (case n of Fin x \<Rightarrow> rat_to_string x | _ \<Rightarrow> str ''null'')"
| "json_ser gap ind (Str s) = quote s"
| "json_ser gap ind (Arr xs) = json_block gap ind 91 93 (map (json_ser gap (ind @ gap)) xs)"
| "json_ser gap ind (Obj ps) =
     json_block gap ind 123 125
       (concat (map (\<lambda>p. if snd p = Undefined then []
                         else [quote (fst p) @ 58 # (if gap = [] then [] else [32]) @ json_ser gap (ind @ gap) (snd p)]) ps))"

text \<open>\<open>JSON.stringify(v)\<close> and \<open>JSON.stringify(v, null, 2)\<close> of a defined value.\<close>

definition json_stringify :: "jsval \<Rightarrow> jstr" where
  "json_stringify v = json_ser [] [] v"

definition json_stringify2 :: "jsval \<Rightarrow> jstr" where
  "json_stringify2 v = json_ser [32, 32] [] v"

text \<open>What is left of a value in its text.\<close>

fun json_norm :: "jsval \<Rightarrow> jsval" where
  "json_norm Undefined = Null"
| "json_norm (Num n) = (if is_finite n then Num n else Null)"
| "json_norm (Arr xs) = Arr (map json_norm xs)"
| "json_norm (Obj ps) = Obj (concat (map (\<lambda>p. if snd p = Undefined then [] else [(fst p, json_norm (snd p))]) ps))"
| "json_norm v = v"


subsection \<open>Fuel\<close>

lemma length_skip_ws: "length (skip_ws s) \<le> length s"
  by (simp add: skip_ws_def length_dropWhile_le)

lemma skip_ws_Cons: "skip_ws s = c # r \<Longrightarrow> length r < length s"
  using length_skip_ws [of s] by simp

lemma parse_chars_length: "parse_chars s = Some (t, r) \<Longrightarrow> length r < length s"
proof (induction s arbitrary: t r rule: parse_chars.induct)
  case (2 c s)
  consider "c = 34" | "c < 32" "c \<noteq> 34" | "c = 92" | "32 \<le> c" "c \<noteq> 34" "c \<noteq> 92"
    by linarith
  then show ?case
  proof cases
    case 3
    then obtain e q where s: "s = e # q"
      using "2.prems" by (cases s) auto
    show ?thesis
    proof (cases "e = 117")
      case True
      then obtain h1 h2 h3 h4 r' where q: "q = h1 # h2 # h3 # h4 # r'"
        using "2.prems" 3 s by (auto split: list.splits)
      then show ?thesis
        using "2.prems" 3 s True "2.IH"(1) [OF _ _ _ s _ q] by (fastforce split: option.splits)
    next
      case False
      then show ?thesis
        using "2.prems" 3 s "2.IH"(2) [OF _ _ _ s] by (fastforce split: option.splits)
    qed
  next
    case 4
    then show ?thesis
      using "2.prems" "2.IH"(3) by fastforce
  qed (use "2.prems" in auto)
qed simp

lemma parse_key_length: "parse_key s = Some (k, r) \<Longrightarrow> length r < length s"
  by (auto simp: parse_key_def split: list.splits if_splits option.splits dest!: parse_chars_length skip_ws_Cons)
    (metis length_skip_ws length_tl diff_le_self le_trans less_trans not_less)

definition extends :: "('a \<Rightarrow> 'b option) \<Rightarrow> ('a \<Rightarrow> 'b option) \<Rightarrow> bool" where
  "extends f g \<longleftrightarrow> (\<forall>s x. f s = Some x \<longrightarrow> g s = Some x)"

lemma extendsD: "extends f g \<Longrightarrow> f s = Some x \<Longrightarrow> g s = Some x"
  by (simp add: extends_def)

lemma next_item_mono: "extends f g \<Longrightarrow> extends (next_item c f x) (next_item c g x)"
  by (auto simp: extends_def next_item_def split: list.splits)

lemma step_mono:
  assumes "extends v v'" "extends e e'" "extends m m'"
  shows "extends (value_step e m) (value_step e' m')" "extends (elems_step v e) (elems_step v' e')"
    "extends (members_step v m) (members_step v' m')"
proof -
  show "extends (value_step e m) (value_step e' m')"
    using assms(2,3) by (auto simp: extends_def value_step_def split: list.splits)
  have n: "next_item 93 e x s = Some z \<Longrightarrow> next_item 93 e' x s = Some z"
    "next_item 125 m y s = Some w \<Longrightarrow> next_item 125 m' y s = Some w" for x y s z w
    by (rule extendsD [OF next_item_mono [OF assms(2)]], assumption)
      (rule extendsD [OF next_item_mono [OF assms(3)]])
  show "extends (elems_step v e) (elems_step v' e')" "extends (members_step v m) (members_step v' m')"
    using assms(1) n by (auto simp: extends_def elems_step_def members_step_def split: option.splits)
qed

lemma parse_mono:
  "extends (parse_value n) (parse_value (Suc n)) \<and> extends (parse_elems n) (parse_elems (Suc n))
     \<and> extends (parse_members n) (parse_members (Suc n))"
proof (induction n)
  case 0
  then show ?case
    by (simp add: extends_def)
next
  case (Suc n)
  have eta: "parse_value (Suc k) = value_step (parse_elems k) (parse_members k)"
    "parse_elems (Suc k) = elems_step (parse_value k) (parse_elems k)"
    "parse_members (Suc k) = members_step (parse_value k) (parse_members k)" for k
    by (auto simp: fun_eq_iff)
  show ?case
    unfolding eta [of "Suc n"] eta [of n] using Suc by (metis step_mono eta)
qed

lemma next_item_length:
  assumes "next_item c f x s = Some (ys, r)" "\<And>s ys r. f s = Some (ys, r) \<Longrightarrow> length r < length s"
  shows "length r < length s"
  using assms(1)
  by (auto simp: next_item_def split: list.splits if_splits dest!: assms(2) skip_ws_Cons)

lemma length_dropWhile_less: "s \<noteq> [] \<Longrightarrow> P (hd s) \<Longrightarrow> length (dropWhile P s) < length s"
  by (cases s) (simp_all add: less_Suc_eq_le length_dropWhile_le)

lemma length_dropWhile_tl: "length (dropWhile P (tl s)) \<le> length s"
  using length_dropWhile_le [of P "tl s"] by simp

lemma length_read_exp: "length (snd (read_exp s)) \<le> length s"
  by (auto simp: read_exp_def Let_def length_dropWhile_le length_dropWhile_tl le_SucI split: list.splits if_splits)

lemma length_read_decimal:
  assumes "read_decimal s = Some (x, r)" "s \<noteq> []" "is_digit (hd s)"
  shows "length r < length s"
proof -
  let ?d = "dropWhile is_digit s"
  have "length r \<le> length ?d"
    using assms(1) length_read_exp [of "dropWhile is_digit (tl ?d)"] length_read_exp [of ?d]
      length_dropWhile_tl [of is_digit ?d]
    by (auto simp: read_decimal_def Let_def split: if_splits prod.splits)
  then show ?thesis
    using length_dropWhile_less [OF assms(2), of is_digit] assms(3) by simp
qed

lemma json_number_length: "json_number s = Some (n, r) \<Longrightarrow> length r < length s"
  by (cases s) (auto simp: json_number_def strict_literal_def Let_def less_SucI split: if_splits dest!: length_read_decimal)

lemma parse_word_length: "parse_word s = Some (v, r) \<Longrightarrow> length r < length s"
  by (auto simp: parse_word_def starts_with_iff split: if_splits)

lemma value_step_length:
  assumes "value_step e m s = Some (v, r)"
    and e: "\<And>s ys r. e s = Some (ys, r) \<Longrightarrow> length r < length s"
    and m: "\<And>s ys r. m s = Some (ys, r) \<Longrightarrow> length r < length s"
  shows "length r < length s"
proof -
  obtain c t where t: "skip_ws s = c # t"
    using assms(1) by (cases "skip_ws s") (auto simp: value_step_def)
  have l: "Suc (length t) \<le> length s" "length (tl (skip_ws t)) \<le> length t"
    using length_skip_ws [of s] length_skip_ws [of t] by (simp_all add: t)
  have "length r < Suc (length t)"
    using assms(1) l(2)
    by (auto simp: value_step_def t split: if_splits
        dest!: parse_chars_length e m json_number_length parse_word_length)
  with l(1) show ?thesis
    by simp
qed

lemma parse_length:
  "(\<forall>s v r. parse_value n s = Some (v, r) \<longrightarrow> length r < length s)
     \<and> (\<forall>s v r. parse_elems n s = Some (v, r) \<longrightarrow> length r < length s)
     \<and> (\<forall>s v r. parse_members n s = Some (v, r) \<longrightarrow> length r < length s)"
proof (induction n)
  case (Suc n)
  then have v: "\<And>s v r. parse_value n s = Some (v, r) \<Longrightarrow> length r < length s"
    and e: "\<And>s v r. parse_elems n s = Some (v, r) \<Longrightarrow> length r < length s"
    and m: "\<And>s v r. parse_members n s = Some (v, r) \<Longrightarrow> length r < length s"
    by blast+
  have "length r < length s" if "elems_step (parse_value n) (parse_elems n) s = Some (xs, r)" for s xs r
    using that by (auto simp: elems_step_def split: option.splits dest!: v next_item_length [OF _ e])
  moreover have "length r < length s" if "members_step (parse_value n) (parse_members n) s = Some (xs, r)" for s xs r
    using that by (auto simp: members_step_def split: option.splits
        dest!: v parse_key_length next_item_length [OF _ m])
  ultimately show ?case
    using value_step_length [of "parse_elems n" "parse_members n", OF _ e m] by auto
qed simp

lemma next_item_cong:
  "(\<And>r. length r < length s \<Longrightarrow> f r = g r) \<Longrightarrow> next_item c f x s = next_item c g x s"
  by (auto simp: next_item_def split: list.split dest: skip_ws_Cons)

lemma value_step_cong:
  assumes "\<And>r. length r < length s \<Longrightarrow> e r = e' r \<and> m r = m' r"
  shows "value_step e m s = value_step e' m' s"
  using assms by (auto simp: value_step_def split: list.split dest!: skip_ws_Cons)

lemma elems_step_cong:
  assumes "v s = v' s" "\<And>x r. v s = Some (x, r) \<Longrightarrow> length r < length s"
    and "\<And>r. length r < length s \<Longrightarrow> e r = e' r"
  shows "elems_step v e s = elems_step v' e' s"
proof (cases "v s")
  case (Some p)
  then have "length (snd p) < length s"
    using assms(2) [of "fst p" "snd p"] by simp
  then have "next_item 93 e (fst p) (snd p) = next_item 93 e' (fst p) (snd p)"
    using assms(3) by (intro next_item_cong) simp
  then show ?thesis
    using assms(1) [symmetric] Some by (simp add: elems_step_def split_beta)
qed (use assms(1) in \<open>simp add: elems_step_def\<close>)

lemma members_step_cong:
  assumes "\<And>r. length r < length s \<Longrightarrow> v r = v' r \<and> m r = m' r"
    and "\<And>t x r. v t = Some (x, r) \<Longrightarrow> length r < length t"
  shows "members_step v m s = members_step v' m' s"
proof (cases "parse_key s")
  case (Some p)
  then have l: "length (snd p) < length s"
    using parse_key_length [of s "fst p" "snd p"] by simp
  have "next_item 125 m y r = next_item 125 m' y r" if "v (snd p) = Some (x, r)" for x y r
    using assms(1) assms(2) [OF that] l by (intro next_item_cong) simp
  then show ?thesis
    using assms(1) [of "snd p"] l Some by (simp add: members_step_def split_beta split: option.split)
qed (simp add: members_step_def)

text \<open>More fuel than twice the length of the text gives the same result.\<close>

lemma parse_enough:
  "(\<forall>s. 2 * length s < n \<longrightarrow> parse_value n s = parse_value (Suc n) s)
     \<and> (\<forall>s. 2 * length s + 1 < n \<longrightarrow> parse_elems n s = parse_elems (Suc n) s)
     \<and> (\<forall>s. 2 * length s + 1 < n \<longrightarrow> parse_members n s = parse_members (Suc n) s)"
proof (induction n)
  case (Suc n)
  have "value_step (parse_elems n) (parse_members n) s = value_step (parse_elems (Suc n)) (parse_members (Suc n)) s"
    if "2 * length s < Suc n" for s
    using that Suc.IH by (intro value_step_cong) simp
  moreover have "elems_step (parse_value n) (parse_elems n) s = elems_step (parse_value (Suc n)) (parse_elems (Suc n)) s"
    if "2 * length s + 1 < Suc n" for s
    using that Suc.IH parse_length [of n] by (intro elems_step_cong) simp_all
  moreover have "members_step (parse_value n) (parse_members n) s = members_step (parse_value (Suc n)) (parse_members (Suc n)) s"
    if "2 * length s + 1 < Suc n" for s
    using that Suc.IH parse_length [of n] by (intro members_step_cong) simp_all
  ultimately show ?case
    by (simp only: parse_value.simps(2) parse_elems.simps(2) parse_members.simps(2)) blast
qed simp

lemma parse_value_enough:
  assumes "2 * length s < n" "n \<le> k"
  shows "parse_value k s = parse_value n s"
  using assms(2)
proof (induction k rule: dec_induct)
  case (step k)
  then show ?case
    using parse_enough [of k] assms(1) by simp
qed simp

lemma extends_chain:
  assumes "\<And>k. extends (f k) (f (Suc k))" "f n s = Some x" "n \<le> k"
  shows "f k s = Some x"
  using assms(3) by (induction k rule: dec_induct) (use assms(1,2) in \<open>auto intro: extendsD\<close>)

lemma parse_value_more: "parse_value n s = Some x \<Longrightarrow> n \<le> k \<Longrightarrow> parse_value k s = Some x"
  and parse_elems_more: "parse_elems n s = Some y \<Longrightarrow> n \<le> k \<Longrightarrow> parse_elems k s = Some y"
  and parse_members_more: "parse_members n s = Some z \<Longrightarrow> n \<le> k \<Longrightarrow> parse_members k s = Some z"
  using parse_mono by (auto intro: extends_chain simp del: parse_value.simps parse_elems.simps parse_members.simps)

lemma json_parse_fuel:
  assumes "parse_value n s = Some (v, r)"
  shows "json_parse s = (if skip_ws r = [] then Some v else None)"
proof -
  have "parse_value (2 * length s + 1) s = Some (v, r)"
    using assms parse_value_more [of n s _ "max n (2 * length s + 1)"]
      parse_value_enough [of s "2 * length s + 1" "max n (2 * length s + 1)"] by simp
  then show ?thesis
    by (simp add: json_parse_def)
qed


subsection \<open>Reading back what was written\<close>

lemma hex_val_digit: "0 \<le> n \<Longrightarrow> n < 16 \<Longrightarrow> hex_val (hex_digit n) = Some n"
  by (auto simp: hex_val_def hex_digit_def is_digit_def)

lemma hex4_escape:
  assumes "0 \<le> c" "c < 65536"
  shows "hex4_val (hex_digit (c div 4096)) (hex_digit (c div 256 mod 16)) (hex_digit (c div 16 mod 16))
    (hex_digit (c mod 16)) = Some c"
proof -
  have "c div 4096 = c div 16 div 16 div 16" "c div 256 = c div 16 div 16"
    by (simp_all flip: zdiv_zmult2_eq)
  then have "((c div 4096 * 16 + c div 256 mod 16) * 16 + c div 16 mod 16) * 16 + c mod 16 = c"
    by (simp only: div_mult_mod_eq)
  moreover have "hex_val (hex_digit (c div 4096)) = Some (c div 4096)"
    using assms by (intro hex_val_digit) simp_all
  moreover have "hex_val (hex_digit (x mod 16)) = Some (x mod 16)" for x
    by (simp add: hex_val_digit)
  ultimately show ?thesis
    unfolding hex4_val_def by (simp only: option.case prod.case)
qed

lemma parse_chars_unit:
  assumes "0 \<le> c" "c < 65536"
  shows "parse_chars (quote_unit c @ s) = map_option (apfst (Cons c)) (parse_chars s)"
  using hex4_escape [OF assms] by (auto simp: quote_unit_def unicode_escape_def unescape_def)

lemma parse_chars_quote: "wf_str s \<Longrightarrow> parse_chars (quote_chars s @ 34 # r) = Some (s, r)"
proof (induction s rule: quote_chars.induct)
  case (2 c)
  then show ?case
    by (simp add: wf_str_def parse_chars_unit)
next
  case (3 c d s)
  show ?case
  proof (cases "55296 \<le> c \<and> c \<le> 56319 \<and> 56320 \<le> d \<and> d \<le> 57343")
    case True
    then show ?thesis
      using 3 by (simp add: wf_str_def)
  next
    case False
    then show ?thesis
      using 3 by (auto simp: wf_str_def parse_chars_unit)
  qed
qed simp

lemma skip_ws_append: "\<forall>c\<in>set w. json_ws c \<Longrightarrow> skip_ws (w @ s) = skip_ws s"
  by (induction w) (auto simp: skip_ws_def)

lemma skip_ws_stop: "\<not> json_ws c \<Longrightarrow> skip_ws (c # s) = c # s"
  by (simp add: skip_ws_def)

lemma parse_value_ws: "\<forall>c\<in>set w. json_ws c \<Longrightarrow> parse_value n (w @ s) = parse_value n s"
  by (cases n) (simp_all add: value_step_def skip_ws_append)

lemma parse_key_quote:
  assumes "wf_str k" "\<forall>c\<in>set w. json_ws c"
  shows "parse_key (w @ quote k @ 58 # s) = Some (k, s)"
  using assms by (simp add: parse_key_def skip_ws_append quote_def skip_ws_stop parse_chars_quote json_ws_def)

lemma ends_literal_ws: "\<forall>c\<in>set w. json_ws c \<Longrightarrow> ends_literal s \<Longrightarrow> ends_literal (w @ s)"
  by (cases w) (auto simp: ends_literal_def json_ws_def is_digit_def)

lemma next_item_more:
  "\<forall>c\<in>set w. json_ws c \<Longrightarrow> next_item cl f x (w @ 44 # s) = map_option (apfst (Cons x)) (f s)"
  by (simp add: next_item_def skip_ws_append skip_ws_stop json_ws_def)

lemma next_item_close:
  "\<forall>c\<in>set w. json_ws c \<Longrightarrow> cl = 93 \<or> cl = 125 \<Longrightarrow> next_item cl f x (w @ cl # s) = Some ([x], s)"
  by (auto simp: next_item_def skip_ws_append skip_ws_stop json_ws_def)

text \<open>
  The items of a block are read back when each of them is; \<open>item\<close> reads one item and \<open>more\<close> the
  items up to the closing bracket.
\<close>

lemma items_read_back:
  fixes item :: "nat \<Rightarrow> jstr \<Rightarrow> ('a \<times> jstr) option" and more :: "nat \<Rightarrow> jstr \<Rightarrow> ('a list \<times> jstr) option"
  assumes step: "\<And>n s. more (Suc n) s = (case item n s of None \<Rightarrow> None | Some (x, r) \<Rightarrow> next_item cl (more n) x r)"
    and item_more: "\<And>n s x k. item n s = Some x \<Longrightarrow> n \<le> k \<Longrightarrow> item k s = Some x"
    and more_more: "\<And>n s x k. more n s = Some x \<Longrightarrow> n \<le> k \<Longrightarrow> more k s = Some x"
    and ws: "\<And>n s. item n (nl @ s) = item n s" "\<forall>c\<in>set nl. json_ws c" "\<forall>c\<in>set nl0. json_ws c"
    and cl: "cl = 93 \<or> cl = 125"
    and "ts \<noteq> []" "\<forall>p\<in>set ts. \<forall>r. ends_literal r \<longrightarrow> (\<exists>n. item n (fst p @ r) = Some (snd p, r))"
  shows "\<exists>n. more n (nl @ join (44 # nl) (map fst ts) @ nl0 @ cl # r) = Some (map snd ts, r)"
  using assms(8,9)
proof (induction ts rule: list_nonempty_induct)
  case (single p)
  have "ends_literal (nl0 @ cl # r)"
    using ws(3) cl by (intro ends_literal_ws) (auto simp: ends_literal_def is_digit_def)
  then obtain n where "item n (fst p @ nl0 @ cl # r) = Some (snd p, nl0 @ cl # r)"
    using single by auto
  then have "more (Suc n) (nl @ fst p @ nl0 @ cl # r) = Some ([snd p], r)"
    by (simp add: step ws(1) next_item_close [OF ws(3) cl])
  then show ?case
    by (auto simp del: append_assoc)
next
  case (cons p ts)
  let ?t = "nl @ join (44 # nl) (map fst ts) @ nl0 @ cl # r"
  have j: "join (44 # nl) (map fst (p # ts)) = fst p @ 44 # nl @ join (44 # nl) (map fst ts)"
    using cons.hyps by (cases ts) simp_all
  obtain k where k: "more k ?t = Some (map snd ts, r)"
    using cons by auto
  have "ends_literal (44 # ?t)"
    by (simp add: ends_literal_def is_digit_def)
  then obtain n where n: "item n (fst p @ 44 # ?t) = Some (snd p, 44 # ?t)"
    using cons.prems by (metis list.set_intros(1))
  have "more (Suc (max n k)) (nl @ fst p @ 44 # ?t) = Some (map snd (p # ts), r)"
    using item_more [OF n, of "max n k"] more_more [OF k, of "max n k"]
    by (simp add: step ws(1) next_item_more [of "[]", simplified])
  then show ?case
    unfolding j by (intro exI [of _ "Suc (max n k)"]) simp
qed

lemma concat_map_if: "concat (map (\<lambda>p. if P p then [] else [f p]) ps) = map f (filter (\<lambda>p. \<not> P p) ps)"
  by (induction ps) auto


definition reads_back :: "jstr \<Rightarrow> jsval \<Rightarrow> bool" where
  "reads_back t v \<longleftrightarrow> (\<forall>r. ends_literal r \<longrightarrow> (\<exists>n. parse_value n (t @ r) = Some (v, r)))"

lemma parse_value_start: "parse_value n s = Some x \<Longrightarrow> skip_ws s \<noteq> [] \<and> hd (skip_ws s) \<noteq> 93"
  by (cases n) (auto simp: value_step_def parse_word_def is_digit_def starts_with_iff js_str_simps
      split: list.splits if_splits)

lemma parse_elems_start: "parse_elems n s = Some x \<Longrightarrow> skip_ws s \<noteq> [] \<and> hd (skip_ws s) \<noteq> 93"
  by (cases n) (auto simp: elems_step_def split: option.splits dest: parse_value_start)

lemma parse_members_start: "parse_members n s = Some x \<Longrightarrow> skip_ws s \<noteq> [] \<and> hd (skip_ws s) = 34"
  by (cases n) (auto simp: members_step_def parse_key_def split: option.splits list.splits if_splits)

lemma json_block_eq:
  assumes "ms \<noteq> []" "\<forall>c\<in>set gap. json_ws c" "\<forall>c\<in>set ind. json_ws c"
  shows "\<exists>nl nl0. (\<forall>c\<in>set nl. json_ws c) \<and> (\<forall>c\<in>set nl0. json_ws c)
    \<and> json_block gap ind a b ms = a # nl @ join (44 # nl) ms @ nl0 @ [b]"
proof (cases "gap = []")
  case True
  then show ?thesis
    using assms(1) by (intro exI [of _ "[]"]) (simp add: json_block_def)
next
  case False
  then show ?thesis
    using assms by (intro exI [of _ "10 # ind @ gap"] exI [of _ "10 # ind"]) (auto simp: json_block_def json_ws_def)
qed

lemma reads_back_array:
  assumes "\<forall>c\<in>set gap. json_ws c" "\<forall>c\<in>set ind. json_ws c"
    and ts: "\<forall>p\<in>set ts. reads_back (fst p) (snd p)"
  shows "reads_back (json_block gap ind 91 93 (map fst ts)) (Arr (map snd ts))"
proof (cases "ts = []")
  case True
  then show ?thesis
    by (auto simp: reads_back_def json_block_def value_step_def skip_ws_def json_ws_def intro!: exI [of _ "Suc 0"])
next
  case False
  then obtain nl nl0 where nl: "\<forall>c\<in>set nl. json_ws c" "\<forall>c\<in>set nl0. json_ws c"
    and b: "json_block gap ind 91 93 (map fst ts) = 91 # nl @ join (44 # nl) (map fst ts) @ nl0 @ [93]"
    using json_block_eq [OF _ assms(1,2), of "map fst ts"] by (metis map_is_Nil_conv)
  have "\<exists>n. parse_value n (json_block gap ind 91 93 (map fst ts) @ r) = Some (Arr (map snd ts), r)" for r
  proof -
    let ?t = "nl @ join (44 # nl) (map fst ts) @ nl0 @ 93 # r"
    have "\<exists>n. parse_elems n ?t = Some (map snd ts, r)"
      using nl ts False
      by (intro items_read_back [where item = parse_value])
        (auto simp: elems_step_def parse_value_ws reads_back_def intro: parse_value_more parse_elems_more)
    then obtain n where n: "parse_elems n ?t = Some (map snd ts, r)" ..
    have "parse_value (Suc n) (91 # ?t) = Some (Arr (map snd ts), r)"
      using n parse_elems_start [OF n] by (simp add: value_step_def skip_ws_stop json_ws_def)
    then show ?thesis
      unfolding b by (intro exI [of _ "Suc n"]) simp
  qed
  then show ?thesis
    by (simp add: reads_back_def)
qed

definition parse_member :: "nat \<Rightarrow> jstr \<Rightarrow> ((jstr \<times> jsval) \<times> jstr) option" where
  "parse_member n s =
     (case parse_key s of None \<Rightarrow> None | Some (k, r) \<Rightarrow> map_option (apfst (Pair k)) (parse_value n r))"

lemma members_step_member:
  "parse_members (Suc n) s =
     (case parse_member n s of None \<Rightarrow> None | Some (x, r) \<Rightarrow> next_item 125 (parse_members n) x r)"
  by (auto simp: members_step_def parse_member_def split: option.splits)

lemma parse_member_more: "parse_member n s = Some x \<Longrightarrow> n \<le> k \<Longrightarrow> parse_member k s = Some x"
  by (auto simp: parse_member_def split: option.splits dest: parse_value_more)

lemma parse_member_ws: "\<forall>c\<in>set w. json_ws c \<Longrightarrow> parse_member n (w @ s) = parse_member n s"
  by (simp add: parse_member_def parse_key_def skip_ws_append)

lemma reads_back_object:
  assumes "\<forall>c\<in>set gap. json_ws c" "\<forall>c\<in>set ind. json_ws c" "\<forall>c\<in>set w. json_ws c"
    and items: "\<forall>p\<in>set ps. wf_str (fst p) \<and> reads_back (f p) (g p)"
    and "canonical (map (\<lambda>p. (fst p, g p)) ps)"
  shows "reads_back (json_block gap ind 123 125 (map (\<lambda>p. quote (fst p) @ 58 # w @ f p) ps))
    (Obj (map (\<lambda>p. (fst p, g p)) ps))"
proof (cases "ps = []")
  case True
  then show ?thesis
    by (auto simp: reads_back_def json_block_def value_step_def skip_ws_def json_ws_def is_digit_def intro!: exI [of _ "Suc 0"])
next
  case False
  define ts where "ts = map (\<lambda>p. (quote (fst p) @ 58 # w @ f p, (fst p, g p))) ps"
  have ms: "map fst ts = map (\<lambda>p. quote (fst p) @ 58 # w @ f p) ps" "map snd ts = map (\<lambda>p. (fst p, g p)) ps" "ts \<noteq> []"
    using False by (simp_all add: ts_def comp_def)
  obtain nl nl0 where nl: "\<forall>c\<in>set nl. json_ws c" "\<forall>c\<in>set nl0. json_ws c"
    and b: "json_block gap ind 123 125 (map fst ts) = 123 # nl @ join (44 # nl) (map fst ts) @ nl0 @ [125]"
    using json_block_eq [OF _ assms(1,2), of "map fst ts"] ms(3) by (metis map_is_Nil_conv)
  have item: "\<exists>n. parse_member n (fst p @ r) = Some (snd p, r)" if "p \<in> set ts" "ends_literal r" for p r
    using that assms(3) items parse_key_quote [of _ "[]"]
    by (fastforce simp: ts_def parse_member_def parse_value_ws reads_back_def)
  have "\<exists>n. parse_value n (json_block gap ind 123 125 (map fst ts) @ r) = Some (Obj (map snd ts), r)" for r
  proof -
    let ?t = "nl @ join (44 # nl) (map fst ts) @ nl0 @ 125 # r"
    have "\<exists>n. parse_members n ?t = Some (map snd ts, r)"
      using nl item ms(3)
      by (intro items_read_back [where item = parse_member])
        (auto simp: members_step_member parse_member_ws intro: parse_member_more parse_members_more simp del: parse_members.simps)
    then obtain n where n: "parse_members n ?t = Some (map snd ts, r)" ..
    have "obj_of_list (map snd ts) = map snd ts"
      unfolding ms(2) by (rule obj_of_list_canonical [OF assms(5)])
    then have "parse_value (Suc n) (123 # ?t) = Some (Obj (map snd ts), r)"
      using n parse_members_start [OF n]
      by (simp add: value_step_def skip_ws_stop json_ws_def is_digit_def)
    then show ?thesis
      unfolding b by (intro exI [of _ "Suc n"]) simp
  qed
  then show ?thesis
    unfolding reads_back_def ms by blast
qed

lemma reads_back_word:
  "reads_back (str ''null'') Null" "reads_back (str ''true'') (Bool True)" "reads_back (str ''false'') (Bool False)"
  by (auto simp: reads_back_def value_step_def parse_word_def skip_ws_def json_ws_def js_str_simps is_digit_def
      intro!: exI [of _ "Suc 0"])

lemma reads_back_string: "wf_str s \<Longrightarrow> reads_back (quote s) (Str s)"
  by (auto simp: reads_back_def value_step_def skip_ws_def json_ws_def quote_def parse_chars_quote intro!: exI [of _ "Suc 0"])

lemma strict_literal_write:
  assumes "0 < fst d" "ends_literal r"
  shows "strict_literal (write_decimal d @ r)"
proof -
  obtain ip q where w: "write_decimal d = ip @ q" "ip \<noteq> []" "\<forall>c\<in>set ip. is_digit c"
    "hd ip = 48 \<longrightarrow> ip = [48]" "q = [] \<or> hd q = 101 \<or> hd q = 46 \<and> tl q \<noteq> [] \<and> is_digit (hd (tl q))"
    using assms(1) by (elim write_decimal_shape)
  have q: "q @ r = [] \<or> \<not> is_digit (hd (q @ r))"
    using w(5) assms(2) by (cases q) (auto simp: ends_literal_def)
  have d: "dropWhile is_digit (ip @ q @ r) = q @ r"
    using w(3) q by (rule takeWhile_digits)
  have "\<not> (hd (ip @ q @ r) = 48 \<and> tl (ip @ q @ r) \<noteq> [] \<and> is_digit (hd (tl (ip @ q @ r))))"
    using w(2,4) q by auto
  moreover have "q @ r \<noteq> [] \<and> hd (q @ r) = 46 \<longrightarrow> tl (q @ r) \<noteq> [] \<and> is_digit (hd (tl (q @ r)))"
    using w(5) assms(2) by (cases q) (auto simp: ends_literal_def)
  moreover have "is_digit (hd (ip @ q @ r))" "ip @ q @ r \<noteq> []"
    using w(2,3) by auto
  ultimately show ?thesis
    unfolding strict_literal_def w(1) append_assoc d Let_def by blast
qed

lemma strict_literal_zero: "ends_literal r \<Longrightarrow> strict_literal (48 # r)"
  by (auto simp: strict_literal_def ends_literal_def dropWhile_fixed Let_def)

lemma strict_literal_rat:
  assumes "is_double x" "ends_literal r"
  shows "strict_literal (if x < 0 then tl (rat_to_string x @ r) else rat_to_string x @ r)"
proof -
  have "0 < fst (shortest_decimal y)" if "is_double y" "0 < y" for y
    using shortest_decimal_correct [OF that] by simp
  then show ?thesis
    using assms by (auto simp: rat_to_string_def strict_literal_zero intro!: strict_literal_write)
qed

lemma strict_literal_start: "strict_literal s \<Longrightarrow> s \<noteq> [] \<and> is_digit (hd s)"
  by (simp add: strict_literal_def)

lemma json_number_read_signed:
  assumes "strict_literal (if s \<noteq> [] \<and> hd s = 45 then tl s else s)"
  shows "json_number s = read_signed s"
proof -
  let ?r = "if s \<noteq> [] \<and> hd s = 45 then tl s else s"
  have r: "?r \<noteq> []" "is_digit (hd ?r)"
    using strict_literal_start [OF assms] by simp_all
  then have "(if s \<noteq> [] \<and> (hd s = 43 \<or> hd s = 45) then tl s else s) = ?r"
    by (auto simp: is_digit_def)
  moreover have "\<not> starts_with ?r infinity_text"
    using r by (intro starts_infinity) (auto simp: is_digit_def)
  ultimately show ?thesis
    unfolding json_number_def read_signed_def Let_def using assms by simp
qed

lemma reads_back_number:
  assumes "is_double x"
  shows "reads_back (rat_to_string x) (Num (Fin x))"
  unfolding reads_back_def
proof (intro allI impI exI [of _ "Suc 0"])
  fix r :: jstr
  assume r: "ends_literal r"
  note lit = strict_literal_rat [OF assms r]
  let ?s = "rat_to_string x @ r"
  have neg: "?s \<noteq> [] \<and> hd ?s = 45 \<longleftrightarrow> x < 0"
    using strict_literal_start [OF lit] by (auto simp: rat_to_string_def is_digit_def split: if_splits)
  have "strict_literal (if ?s \<noteq> [] \<and> hd ?s = 45 then tl ?s else ?s)"
    unfolding neg by (rule lit)
  then have x: "json_number ?s = Some (Fin x, r)"
    using read_signed_rat [OF assms r] by (simp only: json_number_read_signed)
  obtain c t where s: "?s = c # t" "c = 45 \<or> is_digit c"
    using neg strict_literal_start [OF lit] by (cases ?s) (auto split: if_splits)
  then have "\<not> json_ws c" "c \<noteq> 34" "c \<noteq> 91" "c \<noteq> 123"
    by (auto simp: json_ws_def is_digit_def)
  then show "parse_value (Suc 0) ?s = Some (Num (Fin x), r)"
    using x s(2) unfolding s(1) by (simp add: value_step_def skip_ws_stop)
qed

lemma canonical_sub:
  assumes "canonical ps"
  shows "canonical (map (\<lambda>p. (fst p, f p)) (filter P ps))"
proof -
  have "map fst (map (\<lambda>p. (fst p, f p)) (filter P ps)) = map fst (filter P ps)"
    by simp
  moreover have "canonical (filter P ps)"
    using assms by (auto simp: canonical_def sorted_wrt_filter distinct_map inj_on_def)
  ultimately show ?thesis
    unfolding canonical_keys by (simp only:)
qed

lemma reads_back_ser:
  assumes gap: "\<forall>c\<in>set gap. json_ws c"
  shows "wf_val v \<Longrightarrow> \<forall>c\<in>set ind. json_ws c \<Longrightarrow> reads_back (json_ser gap ind v) (json_norm v)"
proof (induction v arbitrary: ind)
  case (Num n)
  then show ?case
    by (cases n) (simp_all add: reads_back_word reads_back_number)
next
  case (Arr xs)
  let ?ts = "map (\<lambda>x. (json_ser gap (ind @ gap) x, json_norm x)) xs"
  have "\<forall>c\<in>set (ind @ gap). json_ws c"
    using Arr.prems gap by auto
  then have "reads_back (json_block gap ind 91 93 (map fst ?ts)) (Arr (map snd ?ts))"
    using Arr gap by (intro reads_back_array) auto
  then show ?case
    by (simp add: comp_def)
next
  case (Obj ps)
  let ?w = "if gap = [] then [] else [32]"
  have ind: "\<forall>c\<in>set (ind @ gap). json_ws c"
    using Obj.prems gap by auto
  have "reads_back (json_ser gap (ind @ gap) (snd p)) (json_norm (snd p))" if "p \<in> set ps" for p
    using Obj.prems(1) that by (intro Obj.IH [OF _ _ _ ind, of p]) (auto simp: prod_set_defs)
  then have "reads_back
      (json_block gap ind 123 125
        (map (\<lambda>p. quote (fst p) @ 58 # ?w @ json_ser gap (ind @ gap) (snd p)) (filter (\<lambda>p. snd p \<noteq> Undefined) ps)))
      (Obj (map (\<lambda>p. (fst p, json_norm (snd p))) (filter (\<lambda>p. snd p \<noteq> Undefined) ps)))"
    using Obj.prems gap by (intro reads_back_object canonical_sub ballI conjI) (auto simp: json_ws_def split: if_splits)
  then show ?case
    by (simp only: json_ser.simps json_norm.simps concat_map_if)
qed (simp_all add: reads_back_word reads_back_string)

text \<open>\<open>JSON.parse(JSON.stringify(v))\<close>.\<close>

theorem json_parse_ser:
  assumes "wf_val v" "\<forall>c\<in>set gap. json_ws c"
  shows "json_parse (json_ser gap [] v) = Some (json_norm v)"
proof -
  have "reads_back (json_ser gap [] v) (json_norm v)"
    using assms by (intro reads_back_ser) auto
  then obtain n where "parse_value n (json_ser gap [] v @ []) = Some (json_norm v, [])"
    unfolding reads_back_def using ends_literal_Nil by blast
  from json_parse_fuel [OF this] show ?thesis
    by (simp add: skip_ws_def)
qed

lemma json_parse_stringify: "wf_val v \<Longrightarrow> json_parse (json_stringify v) = Some (json_norm v)"
  and json_parse_stringify2: "wf_val v \<Longrightarrow> json_parse (json_stringify2 v) = Some (json_norm v)"
  by (simp_all add: json_stringify_def json_stringify2_def json_parse_ser json_ws_def)


subsection \<open>Values read from a text are well formed\<close>

lemma wf_str_Cons [simp]: "wf_str (c # s) \<longleftrightarrow> 0 \<le> c \<and> c < 65536 \<and> wf_str s"
  and wf_str_Nil [simp]: "wf_str []"
  and wf_str_append [simp]: "wf_str (s @ t) \<longleftrightarrow> wf_str s \<and> wf_str t"
  by (auto simp: wf_str_def)

lemma wf_str_subset: "set t \<subseteq> set s \<Longrightarrow> wf_str s \<Longrightarrow> wf_str t"
  by (auto simp: wf_str_def)

lemma wf_skip_ws: "wf_str s \<Longrightarrow> skip_ws s = r \<Longrightarrow> wf_str r"
  by (auto simp: skip_ws_def wf_str_def dest: set_dropWhileD)

lemma hex_val_range: "hex_val c = Some n \<Longrightarrow> 0 \<le> n \<and> n < 16"
  by (auto simp: hex_val_def is_digit_def split: if_splits)

lemma hex4_val_range: "hex4_val a b c d = Some n \<Longrightarrow> 0 \<le> n \<and> n < 65536"
  by (fastforce simp: hex4_val_def split: option.splits dest: hex_val_range)

lemma unescape_range: "unescape c = Some n \<Longrightarrow> 0 \<le> n \<and> n < 65536"
  by (auto simp: unescape_def split: if_splits)

lemma wf_parse_chars: "wf_str s \<Longrightarrow> parse_chars s = Some (t, r) \<Longrightarrow> wf_str t \<and> wf_str r"
proof (induction s arbitrary: t r rule: parse_chars.induct)
  case (2 c s)
  consider "c = 34" | "c < 32" "c \<noteq> 34" | "c = 92" | "32 \<le> c" "c \<noteq> 34" "c \<noteq> 92"
    by linarith
  then show ?case
  proof cases
    case 3
    then obtain e q where s: "s = e # q"
      using "2.prems" by (cases s) auto
    show ?thesis
    proof (cases "e = 117")
      case True
      then obtain h1 h2 h3 h4 r' where q: "q = h1 # h2 # h3 # h4 # r'"
        using "2.prems" 3 s by (auto split: list.splits)
      then show ?thesis
        using "2.prems" 3 s True "2.IH"(1) [OF _ _ _ s _ q]
        by (auto split: option.splits dest: hex4_val_range)
    next
      case False
      then show ?thesis
        using "2.prems" 3 s "2.IH"(2) [OF _ _ _ s] by (auto split: option.splits dest: unescape_range)
    qed
  next
    case 4
    then obtain t' where "parse_chars s = Some (t', r)" "t = c # t'"
      using "2.prems" by auto
    then show ?thesis
      using "2.prems" "2.IH"(3) [of t' r] 4 by simp
  qed (use "2.prems" in auto)
qed simp

lemma wf_parse_key: "wf_str s \<Longrightarrow> parse_key s = Some (k, r) \<Longrightarrow> wf_str k \<and> wf_str r"
proof -
  assume s: "wf_str s" "parse_key s = Some (k, r)"
  then obtain q t r1 where q: "skip_ws s = q # t" "parse_chars t = Some (k, r1)" "skip_ws r1 \<noteq> []" "r = tl (skip_ws r1)"
    by (auto simp: parse_key_def split: list.splits if_splits option.splits)
  have "wf_str (q # t)"
    using wf_skip_ws [OF s(1) q(1)] .
  then have "wf_str k \<and> wf_str r1"
    using wf_parse_chars [OF _ q(2)] by simp
  then show ?thesis
    using wf_skip_ws [of r1] q(3,4) by (cases "skip_ws r1") auto
qed

lemma set_read_exp: "set (snd (read_exp s)) \<subseteq> set s"
  by (auto simp: read_exp_def Let_def dest!: set_dropWhileD split: list.splits if_splits)
    (metis list.set_sel(2))+

lemma set_read_decimal:
  assumes "read_decimal s = Some (x, r)"
  shows "set r \<subseteq> set s"
proof -
  let ?d = "dropWhile is_digit s"
  have "set r \<subseteq> set (snd (read_exp (dropWhile is_digit (tl ?d)))) \<or> set r \<subseteq> set (snd (read_exp ?d))"
    using assms by (auto simp: read_decimal_def Let_def split: if_splits prod.splits)
  moreover have "set (dropWhile is_digit (tl ?d)) \<subseteq> set s" "set ?d \<subseteq> set s"
    by (auto dest!: set_dropWhileD) (metis list.sel(2) list.set_sel(2) set_dropWhileD)
  ultimately show ?thesis
    using set_read_exp by blast
qed

lemma wf_json_number: "wf_str s \<Longrightarrow> json_number s = Some (n, r) \<Longrightarrow> wf_num n \<and> wf_str r"
  by (cases s) (auto simp: json_number_def Let_def split: if_splits dest!: set_read_decimal intro: wf_str_subset)

lemma wf_parse_word: "wf_str s \<Longrightarrow> parse_word s = Some (v, r) \<Longrightarrow> wf_val v \<and> wf_str r"
  by (auto simp: parse_word_def starts_with_iff split: if_splits)


lemma wf_empty_object: "wf_val (Obj [])"
  by simp

lemma wf_next_item:
  assumes "next_item c f x s = Some (ys, r)" "wf_str s"
    and "\<And>s ys r. f s = Some (ys, r) \<Longrightarrow> wf_str s \<Longrightarrow> (\<forall>y\<in>set ys. Q y) \<and> wf_str r" "Q x"
  shows "(\<forall>y\<in>set ys. Q y) \<and> wf_str r"
proof -
  obtain d t where t: "skip_ws s = d # t"
    using assms(1) by (cases "skip_ws s") (auto simp: next_item_def)
  then have "wf_str t"
    using wf_skip_ws [OF assms(2) t] by simp
  then show ?thesis
    using assms(1,4) t assms(3) [of t] by (auto simp: next_item_def split: if_splits)
qed

lemma wf_parse:
  "(\<forall>s v r. parse_value n s = Some (v, r) \<longrightarrow> wf_str s \<longrightarrow> wf_val v \<and> wf_str r)
     \<and> (\<forall>s vs r. parse_elems n s = Some (vs, r) \<longrightarrow> wf_str s \<longrightarrow> (\<forall>v\<in>set vs. wf_val v) \<and> wf_str r)
     \<and> (\<forall>s ps r. parse_members n s = Some (ps, r) \<longrightarrow> wf_str s
           \<longrightarrow> (\<forall>p\<in>set ps. wf_str (fst p) \<and> wf_val (snd p)) \<and> wf_str r)"
proof (induction n)
  case (Suc n)
  then have v: "\<And>s v r. parse_value n s = Some (v, r) \<Longrightarrow> wf_str s \<Longrightarrow> wf_val v \<and> wf_str r"
    and e: "\<And>s vs r. parse_elems n s = Some (vs, r) \<Longrightarrow> wf_str s \<Longrightarrow> (\<forall>v\<in>set vs. wf_val v) \<and> wf_str r"
    and m: "\<And>s ps r. parse_members n s = Some (ps, r) \<Longrightarrow> wf_str s
        \<Longrightarrow> (\<forall>p\<in>set ps. wf_str (fst p) \<and> wf_val (snd p)) \<and> wf_str r"
    by blast+
  have "wf_val x \<and> wf_str r" if step: "value_step (parse_elems n) (parse_members n) s = Some (x, r)" and "wf_str s" for s x r
  proof -
    obtain c t where t: "skip_ws s = c # t"
      using step by (cases "skip_ws s") (auto simp: value_step_def)
    then have w: "wf_str (c # t)" "wf_str t" "wf_str (tl (skip_ws t))"
      using wf_skip_ws [OF that(2) t] wf_skip_ws [of t] by (cases "skip_ws t"; auto)+
    show ?thesis
      using step w unfolding value_step_def t list.case
      by (auto split: if_splits dest!: wf_parse_chars [rotated] e m wf_json_number [rotated] wf_parse_word [rotated]
          simp del: wf_str_Cons wf_val.simps(4) intro: wf_obj_of_list wf_empty_object)
  qed
  moreover have "(\<forall>v\<in>set vs. wf_val v) \<and> wf_str r"
    if "elems_step (parse_value n) (parse_elems n) s = Some (vs, r)" "wf_str s" for s vs r
    using that by (auto simp: elems_step_def split: option.splits dest!: v wf_next_item [OF _ _ e])
  moreover have "(\<forall>p\<in>set ps. wf_str (fst p) \<and> wf_val (snd p)) \<and> wf_str r"
    if "members_step (parse_value n) (parse_members n) s = Some (ps, r)" "wf_str s" for s ps r
    using that by (fastforce simp: members_step_def split: option.splits dest!: wf_parse_key [rotated] v wf_next_item [OF _ _ m])
  ultimately show ?case
    by simp
qed simp

lemma wf_json_parse: "json_parse s = Some v \<Longrightarrow> wf_str s \<Longrightarrow> wf_val v"
  using wf_parse [of "2 * length s + 1"] unfolding json_parse_def by (fastforce split: option.splits if_splits)


subsection \<open>Formatting twice\<close>

lemma json_norm_not_Undefined [simp]: "json_norm v \<noteq> Undefined"
  by (cases v) auto

lemma json_ser_norm: "json_ser gap ind (json_norm v) = json_ser gap ind v"
proof (induction v arbitrary: ind)
  case (Num n)
  then show ?case
    by (cases n) simp_all
next
  case (Arr xs)
  then show ?case
    by (simp add: comp_def cong: map_cong)
next
  case (Obj ps)
  have "json_ser gap ind' (json_norm (snd p)) = json_ser gap ind' (snd p)" if "p \<in> set ps" for p ind'
    using that by (intro Obj [of p]) (auto simp: prod_set_defs)
  then show ?case
    by (simp add: concat_map_if filter_map comp_def) (auto intro!: arg_cong [where f = "json_block _ ind 123 125"])
qed simp_all

lemma json_norm_idem [simp]: "json_norm (json_norm v) = json_norm v"
proof (induction v)
  case (Obj ps)
  have "json_norm (json_norm (snd p)) = json_norm (snd p)" if "p \<in> set ps" for p
    using that by (intro Obj [of p]) (auto simp: prod_set_defs)
  then show ?case
    by (simp add: concat_map_if filter_map comp_def cong: map_cong)
qed simp_all

lemma wf_json_norm: "wf_val v \<Longrightarrow> wf_val (json_norm v)"
proof (induction v)
  case (Obj ps)
  have "wf_val (json_norm (snd p))" if "p \<in> set ps" for p
    using that Obj.prems by (intro Obj.IH [of p]) (auto simp: prod_set_defs)
  then show ?case
    using Obj.prems by (auto simp: concat_map_if canonical_sub)
qed simp_all

text \<open>Numbers of the IEEE range and no missing values: nothing is lost in the text.\<close>

fun json_ok :: "jsval \<Rightarrow> bool" where
  "json_ok Undefined = False"
| "json_ok (Num n) = is_finite n"
| "json_ok (Arr xs) = (\<forall>x\<in>set xs. json_ok x)"
| "json_ok (Obj ps) = (\<forall>p\<in>set ps. json_ok (snd p))"
| "json_ok v = True"

lemma json_norm_ok: "json_ok v \<Longrightarrow> json_norm v = v"
proof (induction v)
  case (Arr xs)
  then show ?case
    by (simp add: map_idI)
next
  case (Obj ps)
  have "json_norm (snd p) = snd p \<and> snd p \<noteq> Undefined" if "p \<in> set ps" for p
    using that Obj.prems Obj.IH [of p "snd p"] by (auto simp: prod_set_defs)
  then show ?case
    by (simp add: concat_map_if map_idI cong: filter_cong)
qed simp_all


subsection \<open>Objects as text\<close>

lemma of_char_range: "0 \<le> (of_char c :: int) \<and> (of_char c :: int) < 256"
proof -
  have "(of_char c :: int) = int (of_char c)"
    by (rule of_nat_of_char [symmetric])
  then show ?thesis
    using nat_of_char_less_256 [of c] by linarith
qed

lemma wf_str_str [simp]: "wf_str (str s)"
  unfolding wf_str_def str_def using of_char_range by (auto intro: less_trans [of _ 256])

lemma wf_str_trim [simp]: "wf_str s \<Longrightarrow> wf_str (trim s)"
  using set_trim by (rule wf_str_subset)

lemma json_parse_defined: "json_parse s = Some v \<Longrightarrow> v \<noteq> Undefined"
  by (auto simp: json_parse_def value_step_def parse_word_def split: option.splits if_splits list.splits)

lemma get_prop_json_norm:
  assumes "\<forall>p\<in>set ps. snd p \<noteq> Undefined"
  shows "get_prop k (json_norm (Obj ps)) = (case map_of ps k of Some v \<Rightarrow> json_norm v | None \<Rightarrow> Undefined)"
proof -
  have "filter (\<lambda>p. snd p \<noteq> Undefined) ps = ps"
    using assms by simp
  then have "json_norm (Obj ps) = Obj (map (\<lambda>(k, v). (k, json_norm v)) ps)"
    by (simp add: concat_map_if case_prod_beta)
  then show ?thesis
    by (simp add: map_of_map split: option.split del: json_norm.simps)
qed

lemma canonical_single: "canonical [(k, v)]"
  by (simp add: canonical_def)

lemma json_parse_blank: "trim s = [] \<Longrightarrow> json_parse s = None"
proof -
  assume "trim s = []"
  then have ws: "\<forall>c\<in>set s. is_ws c"
    by (simp add: trim_eq_Nil_iff)
  have "parse_value (Suc n) s = None" for n
  proof (cases "skip_ws s")
    case (Cons c r)
    have "set (skip_ws s) \<subseteq> set s"
      by (auto simp: skip_ws_def dest: set_dropWhileD)
    then have c: "is_ws c"
      using ws Cons by auto
    then have "c \<notin> {34, 91, 123, 45, 116, 102, 110}" "\<not> is_digit c"
      by (auto simp: is_ws_def is_digit_def)
    then show ?thesis
      by (simp add: value_step_def Cons parse_word_def js_str_simps)
  qed (simp add: value_step_def)
  then show ?thesis
    by (simp add: json_parse_def)
qed

lemma json_ser_obj_ends: "\<exists>t. json_ser gap ind (Obj ps) = 123 # t @ [125]"
  by (simp add: json_block_def Let_def)

lemma trim_json_ser_obj: "trim (json_ser gap ind (Obj ps)) = json_ser gap ind (Obj ps)" "json_ser gap ind (Obj ps) \<noteq> []"
proof -
  obtain t where t: "json_ser gap ind (Obj ps) = 123 # t @ [125]"
    using json_ser_obj_ends by blast
  show "trim (json_ser gap ind (Obj ps)) = json_ser gap ind (Obj ps)" "json_ser gap ind (Obj ps) \<noteq> []"
    unfolding t by (auto intro!: trim_fixed simp: is_ws_def)
qed

lemma trim_json_obj [simp]:
  "trim (json_stringify (Obj ps)) = json_stringify (Obj ps)" "json_stringify (Obj ps) \<noteq> []"
  "trim (json_stringify2 (Obj ps)) = json_stringify2 (Obj ps)" "json_stringify2 (Obj ps) \<noteq> []"
  unfolding json_stringify_def json_stringify2_def by (rule trim_json_ser_obj)+

lemma trim_json_ser:
  assumes "wf_val v"
  shows "trim (json_ser gap ind v) = json_ser gap ind v"
proof -
  have ends: "trim (a # t @ [b]) = a # t @ [b]" if "\<not> is_ws a" "\<not> is_ws b" for a t b
    using that by (intro trim_fixed) auto
  have lits: "trim (str ''null'') = str ''null''" "trim (str ''true'') = str ''true''" "trim (str ''false'') = str ''false''"
    by code_simp+
  have blk: "trim (json_block gap ind a b ms) = json_block gap ind a b ms" if "\<not> is_ws a" "\<not> is_ws b" for a b ms
    using that by (intro trim_fixed) (auto simp: json_block_def Let_def)
  show ?thesis
  proof (cases v)
    case (Num n)
    then show ?thesis
      using assms trim_rat_to_string lits by (cases n) simp_all
  next
    case (Str s)
    then show ?thesis
      using ends [of 34 34 "quote_chars s"] by (simp add: quote_def is_ws_def)
  next
    case (Arr xs)
    then show ?thesis
      using blk by (simp add: is_ws_def)
  next
    case (Obj ps)
    show ?thesis
      unfolding Obj json_ser.simps(7) by (rule blk) (simp_all add: is_ws_def)
  qed (use lits in simp_all)
qed

lemma trim_json_stringify: "wf_val v \<Longrightarrow> trim (json_stringify v) = json_stringify v"
  unfolding json_stringify_def by (rule trim_json_ser)

lemma json_ser_not_Nil: "wf_val v \<Longrightarrow> \<forall>c\<in>set gap. json_ws c \<Longrightarrow> json_ser gap [] v \<noteq> []"
  using json_parse_ser [of v gap] json_parse_blank [of "[]"] by auto

lemma stringify2_normal:
  assumes "wf_val v"
  shows "json_parse (json_stringify2 v) = Some (json_norm v)" "json_stringify2 (json_norm v) = json_stringify2 v"
    "trim (json_stringify2 v) = json_stringify2 v" "json_stringify2 v \<noteq> []"
  using json_parse_stringify2 [OF assms] trim_json_ser [OF assms] json_ser_norm json_ser_not_Nil [OF assms, of "[32, 32]"]
  by (simp_all only: json_stringify2_def) (simp add: json_ws_def)

end
