(* ===== verification/StatusCodeRules.thy ===== *)
theory StatusCodeRules
  imports JS_JSON "HOL-Library.Product_Lexorder"
begin

text \<open>
  \<open>helpers/statusCodeRules.js\<close>: the rules a user types to select HTTP status codes, as in
  \<open>401, 500-503\<close>. A range holds the integers the parser has checked. The merge updates
  \<open>last.end\<close> in place; the ranges are local to the call, so the model returns new ones.

  The parsed ranges are a normal form: they are disjoint and not adjacent, cover the codes of
  the tokens, and are determined by them; the normalized text parses to them again.
\<close>

record range =
  r_start :: int
  r_end :: int

record rules_result =
  ok :: bool
  ranges :: "range list"
  tokens :: "jstr list"
  normalized :: jstr
  invalidTokens :: "jstr list"

definition isNumber :: "jstr \<Rightarrow> bool" where
  "isNumber s \<longleftrightarrow> s \<noteq> [] \<and> (\<forall>c\<in>set s. is_digit c)"

definition parseToken :: "jstr \<Rightarrow> range option" where
  "parseToken token =
     (let cleaned = replace_unit 32 [] (trim token)
      in if cleaned = [] then None
         else if includes_str cleaned (str ''-'') then
           (case split_on 45 cleaned of
              [a, b] \<Rightarrow>
                if \<not> isNumber a \<or> \<not> isNumber b then None
                else (case (parse_int a, parse_int b) of
                        (Fin start, Fin end') \<Rightarrow>
                          if end' < start then None
                          else if start < 100 \<or> 599 < end' then None
                          else Some \<lparr>r_start = \<lfloor>start\<rfloor>, r_end = \<lfloor>end'\<rfloor>\<rparr>
                      | _ \<Rightarrow> None)
            | _ \<Rightarrow> None)
         else if \<not> isNumber cleaned then None
         else (case parse_int cleaned of
                 Fin code \<Rightarrow>
                   if code < 100 \<or> 599 < code then None
                   else Some \<lparr>r_start = \<lfloor>code\<rfloor>, r_end = \<lfloor>code\<rfloor>\<rparr>
               | _ \<Rightarrow> None))"

text \<open>The loop of \<open>mergeRanges\<close> from the last merged range on.\<close>

fun mergeRanges_loop :: "range \<Rightarrow> range list \<Rightarrow> range list" where
  "mergeRanges_loop last' [] = [last']"
| "mergeRanges_loop last' (current # rest) =
     (if r_start current \<le> r_end last' + 1
      then mergeRanges_loop (last'\<lparr>r_end := max (r_end last') (r_end current)\<rparr>) rest
      else last' # mergeRanges_loop current rest)"

definition mergeRanges :: "range list \<Rightarrow> range list" where
  "mergeRanges rs =
     (case sort_key (\<lambda>r. (r_start r, r_end r)) rs of
        [] \<Rightarrow> []
      | first # rest \<Rightarrow> mergeRanges_loop first rest)"

definition range_text :: "range \<Rightarrow> jstr" where
  "range_text r =
     (if r_start r = r_end r then int_to_string (r_start r)
      else int_to_string (r_start r) @ 45 # int_to_string (r_end r))"

text \<open>The loop over the segments: the ranges and the invalid tokens, in order.\<close>

fun parse_segments :: "jstr list \<Rightarrow> range list \<times> jstr list" where
  "parse_segments [] = ([], [])"
| "parse_segments (segment # rest) =
     (let trimmed = trim segment; (rs, bad) = parse_segments rest
      in if trimmed = [] then (rs, bad)
         else case parseToken trimmed of
                None \<Rightarrow> (rs, trimmed # bad)
              | Some r \<Rightarrow> (r # rs, bad))"

definition parseHttpStatusCodeRules :: "jsval \<Rightarrow> rules_result" where
  "parseHttpStatusCodeRules input =
     (let raw = trim (js_string (js_coalesce input (Str [])))
      in if raw = [] then \<lparr>ok = True, ranges = [], tokens = [], normalized = [], invalidTokens = []\<rparr>
         else let sanitized = replace_unit 65292 [44] raw;
                  (rs, bad) = parse_segments (split_on 44 sanitized)
           in if bad \<noteq> [] then \<lparr>ok = False, ranges = [], tokens = [], normalized = raw, invalidTokens = bad\<rparr>
              else let merged = mergeRanges rs; ts = map range_text merged
                in \<lparr>ok = True, ranges = merged, tokens = ts, normalized = join [44] ts, invalidTokens = []\<rparr>)"


subsection \<open>Merging\<close>

text \<open>The codes of a list of ranges, and the normal form of such a list.\<close>

definition codes :: "range list \<Rightarrow> int set" where
  "codes rs = (\<Union>r\<in>set rs. {r_start r..r_end r})"

definition valid_range :: "range \<Rightarrow> bool" where
  "valid_range r \<longleftrightarrow> 100 \<le> r_start r \<and> r_start r \<le> r_end r \<and> r_end r \<le> 599"

definition separated :: "range list \<Rightarrow> bool" where
  "separated rs \<longleftrightarrow> (\<forall>r\<in>set rs. r_start r \<le> r_end r) \<and> sorted_wrt (\<lambda>a b. r_end a + 1 < r_start b) rs"

lemma codes_simps [simp]:
  "codes [] = {}" "codes (r # rs) = {r_start r..r_end r} \<union> codes rs"
  by (auto simp: codes_def)

lemma codes_set: "set rs = set qs \<Longrightarrow> codes rs = codes qs"
  by (simp add: codes_def)

lemma merge_loop_codes:
  "sorted (map r_start (l # rs)) \<Longrightarrow> codes (mergeRanges_loop l rs) = codes (l # rs)"
  by (induction l rs rule: mergeRanges_loop.induct) (auto simp: max_def)

lemma merge_loop_start:
  "sorted (map r_start (l # rs)) \<Longrightarrow> r \<in> set (mergeRanges_loop l rs) \<Longrightarrow> r_start l \<le> r_start r"
  by (induction l rs rule: mergeRanges_loop.induct) (fastforce split: if_splits)+

lemma merge_loop_separated:
  "sorted (map r_start (l # rs)) \<Longrightarrow> \<forall>r\<in>set (l # rs). r_start r \<le> r_end r
     \<Longrightarrow> separated (mergeRanges_loop l rs)"
proof (induction l rs rule: mergeRanges_loop.induct)
  case (2 l c rs)
  then show ?case
    using merge_loop_start [of c rs] by (fastforce simp: separated_def)
qed (simp add: separated_def)

lemma merge_loop_valid:
  "\<forall>r\<in>set (l # rs). valid_range r \<Longrightarrow> \<forall>r\<in>set (mergeRanges_loop l rs). valid_range r"
  by (induction l rs rule: mergeRanges_loop.induct) (auto simp: valid_range_def)

lemma sorted_starts: "sorted (map r_start (sort_key (\<lambda>r. (r_start r, r_end r)) rs))"
proof -
  have "sorted (map (\<lambda>r. (r_start r, r_end r)) (sort_key (\<lambda>r. (r_start r, r_end r)) rs))"
    by (rule sorted_sort_key)
  then show ?thesis
    unfolding sorted_map by (rule sorted_wrt_mono_rel [rotated]) (auto simp: less_eq_prod_def)
qed

lemma mergeRanges_codes: "codes (mergeRanges rs) = codes rs"
proof (cases "sort_key (\<lambda>r. (r_start r, r_end r)) rs")
  case Nil
  then have "set rs = {}"
    by (metis set_empty set_sort)
  then show ?thesis
    by (simp add: mergeRanges_def Nil)
next
  case (Cons f ss)
  then show ?thesis
    using merge_loop_codes [of f ss] sorted_starts [of rs]
    by (simp only: mergeRanges_def list.case) (metis codes_set set_sort)
qed

lemma mergeRanges_normal:
  assumes "\<forall>r\<in>set rs. valid_range r"
  shows "separated (mergeRanges rs) \<and> (\<forall>r\<in>set (mergeRanges rs). valid_range r)"
proof (cases "sort_key (\<lambda>r. (r_start r, r_end r)) rs")
  case (Cons f ss)
  have "\<forall>r\<in>set (f # ss). valid_range r"
    using assms Cons by (metis set_sort)
  then show ?thesis
    using merge_loop_separated [of f ss] merge_loop_valid [of f ss] sorted_starts [of rs]
    by (simp add: mergeRanges_def Cons valid_range_def)
qed (simp add: mergeRanges_def separated_def)

text \<open>The codes determine the normal form.\<close>

lemma separated_Cons:
  "separated (r # rs) \<longleftrightarrow> r_start r \<le> r_end r \<and> separated rs \<and> (\<forall>c\<in>codes rs. r_end r + 1 < c)"
  by (fastforce simp: separated_def codes_def)

lemma separated_head_le:
  assumes "separated (a # as)" "separated (b # bs)" "codes (a # as) \<subseteq> codes (b # bs)"
  shows "r_start b \<le> r_start a"
  using assms by (fastforce simp: separated_Cons)

lemma separated_head_end:
  assumes "separated (a # as)" "separated (b # bs)" "codes (a # as) \<subseteq> codes (b # bs)" "r_start a = r_start b"
  shows "r_end a \<le> r_end b"
proof (rule ccontr)
  assume "\<not> r_end a \<le> r_end b"
  then have "r_end b + 1 \<in> codes (a # as)"
    using assms by (auto simp: separated_Cons)
  then have "r_end b + 1 \<in> codes bs"
    using assms(3) by auto
  then show False
    using assms(2) by (auto simp: separated_Cons)
qed

lemma separated_unique: "separated rs \<Longrightarrow> separated qs \<Longrightarrow> codes rs = codes qs \<Longrightarrow> rs = qs"
proof (induction rs arbitrary: qs)
  case Nil
  then show ?case
    by (cases qs) (auto simp: separated_Cons)
next
  case (Cons a as)
  then obtain b bs where qs: "qs = b # bs"
    by (cases qs) (auto simp: separated_Cons)
  have c: "codes (a # as) = codes (b # bs)" and sep: "separated (a # as)" "separated (b # bs)"
    using Cons.prems qs by simp_all
  have st: "r_start a = r_start b"
    by (intro antisym separated_head_le [OF sep] separated_head_le [OF sep(2,1)]) (simp_all only: c order_refl)
  moreover have "r_end a = r_end b"
    by (intro antisym separated_head_end [OF sep] separated_head_end [OF sep(2,1)]) (simp_all only: c order_refl st)
  ultimately have ab: "a = b"
    by simp
  have tail: "codes xs = {c \<in> codes (x # xs). r_end x < c}" if "separated (x # xs)" for x xs
    using that by (fastforce simp: separated_Cons)
  have "codes as = codes bs"
    unfolding tail [OF sep(1)] tail [OF sep(2)] c by (simp only: ab)
  then have "as = bs"
    using Cons qs by (simp add: separated_Cons)
  then show ?case
    by (simp add: qs ab)
qed


subsection \<open>Parsing\<close>

lemma parseToken_valid: "parseToken t = Some r \<Longrightarrow> valid_range r"
  unfolding parseToken_def Let_def valid_range_def
  by (auto split: if_splits list.splits jsnum.splits simp: not_less intro: floor_mono)

lemma parse_segments_valid:
  "\<forall>r\<in>set (fst (parse_segments ss)). valid_range r"
  by (induction ss) (auto simp: Let_def split: prod.splits option.splits dest: parseToken_valid)

lemma isNumber_dec_digits: "0 \<le> n \<Longrightarrow> isNumber (dec_digits n)"
  by (simp add: isNumber_def dec_digits_not_Nil dec_digits_digit)

lemma valid_range_texts:
  assumes "valid_range r"
  shows "int_to_string (r_start r) = dec_digits (r_start r)" "int_to_string (r_end r) = dec_digits (r_end r)"
    "parse_int (dec_digits (r_start r)) = Fin (of_int (r_start r))"
    "parse_int (dec_digits (r_end r)) = Fin (of_int (r_end r))"
    "isNumber (dec_digits (r_start r))" "isNumber (dec_digits (r_end r))"
  using assms by (simp_all add: valid_range_def int_to_string_digits parse_int_dec_digits isNumber_dec_digits)

lemma range_text_chars:
  assumes "valid_range r"
  shows "\<forall>c\<in>set (range_text r). is_digit c \<or> c = 45" "range_text r \<noteq> []"
    "is_digit (hd (range_text r))" "is_digit (last (range_text r))"
proof -
  have "\<forall>c\<in>set s. is_digit c" "s \<noteq> []" "is_digit (hd s)" "is_digit (last s)" if "isNumber s" for s
    using that by (auto simp: isNumber_def)
  note n = this [OF valid_range_texts(5) [OF assms]] this [OF valid_range_texts(6) [OF assms]]
  show "\<forall>c\<in>set (range_text r). is_digit c \<or> c = 45" "range_text r \<noteq> []"
    "is_digit (hd (range_text r))" "is_digit (last (range_text r))"
    using n by (auto simp: range_text_def valid_range_texts [OF assms])
qed

lemma trim_range_text: "valid_range r \<Longrightarrow> trim (range_text r) = range_text r"
  by (intro trim_fixed) (simp add: range_text_chars)

lemma replace_unit_id: "c \<notin> set s \<Longrightarrow> replace_unit c r s = s"
  by (induction s) (auto simp: replace_unit_def)

lemma parseToken_range_text:
  assumes "valid_range r"
  shows "parseToken (range_text r) = Some r"
proof -
  note n = valid_range_texts [OF assms]
  have c: "replace_unit 32 [] (trim (range_text r)) = range_text r"
    using range_text_chars(1) [OF assms]
    by (auto simp: trim_range_text assms is_digit_def intro!: replace_unit_id)
  have d: "45 \<notin> set (dec_digits (r_start r))" "45 \<notin> set (dec_digits (r_end r))"
    using n(5,6) by (auto simp: isNumber_def)
  have dash: "includes_str t (str ''-'') \<longleftrightarrow> 45 \<in> set t" for t
    by (auto simp: includes_str_iff js_str_simps in_set_conv_decomp)
  have v: "100 \<le> r_start r" "r_start r \<le> r_end r" "r_end r \<le> 599"
    using assms by (simp_all add: valid_range_def)
  have b: "\<not> (rat_of_int (r_end r) < rat_of_int (r_start r))" "\<not> (rat_of_int (r_start r) < 100 \<or> 599 < rat_of_int (r_end r))"
    "\<not> (599 < rat_of_int (r_start r))"
    using v by simp_all
  show ?thesis
  proof (cases "r_start r = r_end r")
    case True
    then have "range_text r = dec_digits (r_start r)"
      by (simp add: range_text_def n)
    then show ?thesis
      unfolding parseToken_def c Let_def using True d n(3,5) b range_text_chars(2) [OF assms]
      by (simp add: dash)
  next
    case False
    then have "range_text r = dec_digits (r_start r) @ 45 # dec_digits (r_end r)"
      by (simp add: range_text_def n)
    then show ?thesis
      unfolding parseToken_def c Let_def using d n(3-6) b
      by (simp add: dash split_on_append split_on_Nil_in)
  qed
qed

lemma parse_segments_texts:
  "\<forall>r\<in>set rs. valid_range r \<Longrightarrow> parse_segments (map range_text rs) = (rs, [])"
  by (induction rs) (simp_all add: trim_range_text parseToken_range_text range_text_chars)

lemma join_texts:
  assumes "rs \<noteq> []" "\<forall>r\<in>set rs. valid_range r"
  shows "join [44] (map range_text rs) \<noteq> []" "trim (join [44] (map range_text rs)) = join [44] (map range_text rs)"
    "65292 \<notin> set (join [44] (map range_text rs))" "split_on 44 (join [44] (map range_text rs)) = map range_text rs"
proof -
  let ?j = "join [44] (map range_text rs)"
  have ends: "?j \<noteq> [] \<and> hd ?j = hd (range_text (hd rs)) \<and> last ?j = last (range_text (last rs))"
    using assms
  proof (induction rs rule: list_nonempty_induct)
    case (cons r rs)
    have "join [44] (map range_text (r # rs)) = range_text r @ 44 # join [44] (map range_text rs)"
      using cons.hyps by (cases rs) simp_all
    then show ?case
      using cons by (simp add: range_text_chars(2))
  qed (simp add: range_text_chars(2))
  then show "?j \<noteq> []" ..
  show "trim ?j = ?j"
    using ends assms by (intro trim_fixed) (simp add: range_text_chars)
  have chars: "c \<in> set (range_text r) \<Longrightarrow> is_digit c \<or> c = 45" if "r \<in> set rs" for r c
    using range_text_chars(1) assms(2) that by blast
  show "65292 \<notin> set ?j"
    using set_join [of "[44]" "map range_text rs"] chars by (fastforce simp: is_digit_def)
  show "split_on 44 ?j = map range_text rs"
    using assms(1) chars by (intro split_on_join) (fastforce simp: is_digit_def)+
qed

lemma mergeRanges_separated:
  assumes "separated rs" "\<forall>r\<in>set rs. valid_range r"
  shows "mergeRanges rs = rs"
  using mergeRanges_normal [OF assms(2)] assms(1) mergeRanges_codes by (intro separated_unique) simp_all



subsection \<open>The rules of a text\<close>

lemmas parse_simps = parseHttpStatusCodeRules_def Let_def split_beta

lemma parse_ok_ranges:
  assumes "ok (parseHttpStatusCodeRules v)"
  shows "separated (ranges (parseHttpStatusCodeRules v))"
    "\<forall>r\<in>set (ranges (parseHttpStatusCodeRules v)). valid_range r"
    "normalized (parseHttpStatusCodeRules v) = join [44] (map range_text (ranges (parseHttpStatusCodeRules v)))"
    "tokens (parseHttpStatusCodeRules v) = map range_text (ranges (parseHttpStatusCodeRules v))"
    "invalidTokens (parseHttpStatusCodeRules v) = []"
  using assms mergeRanges_normal [OF parse_segments_valid] unfolding parse_simps
  by (auto simp: separated_def split: if_splits)

lemma parse_normal_text:
  assumes "separated rs" "\<forall>r\<in>set rs. valid_range r"
  shows "parseHttpStatusCodeRules (Str (join [44] (map range_text rs))) =
    \<lparr>ok = True, ranges = rs, tokens = map range_text rs, normalized = join [44] (map range_text rs), invalidTokens = []\<rparr>"
proof (cases "rs = []")
  case False
  note j = join_texts [OF False assms(2)]
  show ?thesis
    unfolding parse_simps by (simp add: js_coalesce_def nullish_def j replace_unit_id parse_segments_texts assms mergeRanges_separated)
qed (simp add: parse_simps js_coalesce_def nullish_def)


lemma parse_segments_codes:
  "codes (fst (parse_segments ss)) =
     (\<Union>t\<in>set ss. case parseToken (trim t) of None \<Rightarrow> {} | Some r \<Rightarrow> {r_start r..r_end r})"
proof (induction ss)
  case (Cons t ss)
  have "parseToken [] = None"
    by (simp add: parseToken_def replace_unit_def)
  then show ?case
    using Cons by (auto simp: Let_def split: prod.splits option.splits)
qed simp

lemma parse_codes:
  assumes "ok (parseHttpStatusCodeRules v)"
  shows "codes (ranges (parseHttpStatusCodeRules v)) =
    codes (fst (parse_segments (split_on 44 (replace_unit 65292 [44] (trim (js_string (js_coalesce v (Str []))))))))"
proof -
  have "codes (fst (parse_segments (split_on 44 (replace_unit 65292 [44] [])))) = {}"
    by (simp add: replace_unit_def)
  then show ?thesis
    using assms unfolding parse_simps by (auto simp: mergeRanges_codes split: if_splits)
qed

lemma parse_normalized_same:
  assumes "ok (parseHttpStatusCodeRules v)"
  shows "parseHttpStatusCodeRules (Str (normalized (parseHttpStatusCodeRules v))) = parseHttpStatusCodeRules v"
  using parse_ok_ranges [OF assms] assms by (simp add: parse_normal_text)


subsection \<open>Properties\<close>

text \<open>
  C13: the rules of every text that parses are in normal form: each range lies within 100..599,
  the ranges are in ascending order with a gap of at least one code between neighbours, and
  together they contain exactly the codes of the tokens of the text.
\<close>

theorem parsed_ranges_normal_form:
  assumes "ok (parseHttpStatusCodeRules v)"
  shows "(\<forall>r\<in>set (ranges (parseHttpStatusCodeRules v)). 100 \<le> r_start r \<and> r_start r \<le> r_end r \<and> r_end r \<le> 599)
    \<and> sorted_wrt (\<lambda>a b. r_end a + 1 < r_start b) (ranges (parseHttpStatusCodeRules v))
    \<and> codes (ranges (parseHttpStatusCodeRules v)) =
        (\<Union>t\<in>set (split_on 44 (replace_unit 65292 [44] (trim (js_string (js_coalesce v (Str [])))))).
           case parseToken (trim t) of None \<Rightarrow> {} | Some r \<Rightarrow> {r_start r..r_end r})"
  using parse_ok_ranges(1,2) [OF assms] unfolding parse_codes [OF assms] parse_segments_codes
  by (simp add: separated_def valid_range_def)

theorem parsed_ranges_normal_form_witness:
  "codes (ranges (parseHttpStatusCodeRules (Str (str ''500-502, 503,401'')))) = {401} \<union> {500..503}"
proof -
  have ok: "ok (parseHttpStatusCodeRules (Str (str ''500-502, 503,401'')))"
    by code_simp
  have "set (split_on 44 (replace_unit 65292 [44] (trim (js_string (js_coalesce (Str (str ''500-502, 503,401'')) (Str [])))))) =
      {str ''500-502'', str '' 503'', str ''401''}"
    by code_simp
  moreover have "parseToken (trim (str ''500-502'')) = Some \<lparr>r_start = 500, r_end = 502\<rparr>"
    "parseToken (trim (str '' 503'')) = Some \<lparr>r_start = 503, r_end = 503\<rparr>"
    "parseToken (trim (str ''401'')) = Some \<lparr>r_start = 401, r_end = 401\<rparr>"
    by code_simp+
  ultimately show ?thesis
    using parsed_ranges_normal_form [OF ok] by auto
qed

text \<open>
  C14: two texts that select the same codes have the same normalized text and the same ranges,
  however they are written.
\<close>

theorem normalized_determined_by_codes:
  assumes "ok (parseHttpStatusCodeRules v)" "ok (parseHttpStatusCodeRules w)"
  shows "normalized (parseHttpStatusCodeRules v) = normalized (parseHttpStatusCodeRules w)
    \<longleftrightarrow> codes (ranges (parseHttpStatusCodeRules v)) = codes (ranges (parseHttpStatusCodeRules w))"
proof
  assume "normalized (parseHttpStatusCodeRules v) = normalized (parseHttpStatusCodeRules w)"
  then show "codes (ranges (parseHttpStatusCodeRules v)) = codes (ranges (parseHttpStatusCodeRules w))"
    using parse_normalized_same [OF assms(1)] parse_normalized_same [OF assms(2)] by metis
next
  assume "codes (ranges (parseHttpStatusCodeRules v)) = codes (ranges (parseHttpStatusCodeRules w))"
  then have "ranges (parseHttpStatusCodeRules v) = ranges (parseHttpStatusCodeRules w)"
    using parse_ok_ranges(1) assms separated_unique by blast
  then show "normalized (parseHttpStatusCodeRules v) = normalized (parseHttpStatusCodeRules w)"
    by (simp add: parse_ok_ranges(3) assms)
qed

theorem normalized_determined_by_codes_witness:
  "normalized (parseHttpStatusCodeRules (Str (str ''500-502, 503,401''))) =
   normalized (parseHttpStatusCodeRules (Str (str ''401,500,501-503'')))"
proof -
  have ok: "ok (parseHttpStatusCodeRules (Str (str ''500-502, 503,401'')))"
    "ok (parseHttpStatusCodeRules (Str (str ''401,500,501-503'')))"
    by code_simp+
  have "ranges (parseHttpStatusCodeRules (Str (str ''500-502, 503,401''))) =
      [\<lparr>r_start = 401, r_end = 401\<rparr>, \<lparr>r_start = 500, r_end = 503\<rparr>]"
    by code_simp
  moreover have "ranges (parseHttpStatusCodeRules (Str (str ''401,500,501-503''))) =
      [\<lparr>r_start = 401, r_end = 401\<rparr>, \<lparr>r_start = 500, r_end = 503\<rparr>]"
    by code_simp
  ultimately show ?thesis
    by (simp only: normalized_determined_by_codes [OF ok])
qed

text \<open>
  C15: the normalized text of a result parses to that result again, so normalizing the stored
  setting a second time changes nothing.
\<close>

theorem parse_normalized:
  assumes "ok (parseHttpStatusCodeRules v)"
  shows "parseHttpStatusCodeRules (Str (normalized (parseHttpStatusCodeRules v))) = parseHttpStatusCodeRules v"
  using assms by (rule parse_normalized_same)

theorem parse_normalized_witness:
  "normalized (parseHttpStatusCodeRules (Str (str ''500-502, 503,401''))) = str ''401,500-503''
   \<and> parseHttpStatusCodeRules (Str (str ''401,500-503'')) = parseHttpStatusCodeRules (Str (str ''500-502, 503,401''))"
proof -
  have "ok (parseHttpStatusCodeRules (Str (str ''500-502, 503,401'')))"
    by code_simp
  moreover have "normalized (parseHttpStatusCodeRules (Str (str ''500-502, 503,401''))) = str ''401,500-503''"
    by code_simp
  ultimately show ?thesis
    using parse_normalized by metis
qed

end
