(* ===== verification/StatusCodeRiskGuard.thy ===== *)
theory StatusCodeRiskGuard
  imports JS_JSON
begin

text \<open>
  \<open>components/table/channels/modals/statusCodeRiskGuard.js\<close>: which redirects of a channel's
  status code mapping are invalid, and which need the user's confirmation because they hide a
  504 or 524. The constants with the keys of the dialog's texts are left out. A mapping is the
  JSON text of an object from status codes to status codes, or any other value a form holds.
\<close>

definition NON_REDIRECTABLE_STATUS_CODES :: "int list" where
  "NON_REDIRECTABLE_STATUS_CODES = [504, 524]"

text \<open>\<open>/^[1-5]\d{2}$/.test(s)\<close>.\<close>

definition three_digit_code :: "jstr \<Rightarrow> bool" where
  "three_digit_code s \<longleftrightarrow>
     (case s of [a, b, c] \<Rightarrow> 49 \<le> a \<and> a \<le> 53 \<and> is_digit b \<and> is_digit c | _ \<Rightarrow> False)"

definition code_of :: "jsnum \<Rightarrow> int option" where
  "code_of n = (case n of Fin x \<Rightarrow> Some \<lfloor>x\<rfloor> | _ \<Rightarrow> None)"

definition parseStatusCodeKey :: "jsval \<Rightarrow> int option" where
  "parseStatusCodeKey rawKey =
     (case rawKey of
        Str k \<Rightarrow> (let key = trim k in if \<not> three_digit_code key then None else code_of (parse_int key))
      | _ \<Rightarrow> None)"

definition parseStatusCodeMappingTarget :: "jsval \<Rightarrow> int option" where
  "parseStatusCodeMappingTarget rawValue =
     (case rawValue of
        Num n \<Rightarrow>
          if is_integer n then (if num_le (Fin 100) n \<and> num_le n (Fin 599) then code_of n else None)
          else None
      | Str s \<Rightarrow>
          (let t = trim s
           in if \<not> three_digit_code t then None
              else let code = parse_int t
                in if num_le (Fin 100) code \<and> num_le code (Fin 599) then code_of code else None)
      | _ \<Rightarrow> None)"

text \<open>
  The common start of both collectors: the entries of the parsed mapping, none when the text is
  blank, is not JSON or is not a JSON object.
\<close>

definition mapping_entries :: "jsval \<Rightarrow> (jstr \<times> jsval) list" where
  "mapping_entries mapping =
     (case mapping of
        Str s \<Rightarrow>
          if trim s = [] then []
          else (case json_parse s of
                  Some parsed \<Rightarrow> if is_plain_object parsed then entries parsed else []
                | None \<Rightarrow> [])
      | _ \<Rightarrow> [])"

definition collectInvalidStatusCodeEntries :: "jsval \<Rightarrow> jstr list" where
  "collectInvalidStatusCodeEntries mapping =
     concat (map (\<lambda>(rawKey, rawValue).
        if parseStatusCodeKey (Str rawKey) = None \<or> parseStatusCodeMappingTarget rawValue = None
        then [rawKey @ [32, 8594, 32] @ js_string rawValue] else []) (mapping_entries mapping))"

definition redirect_text :: "int \<Rightarrow> int \<Rightarrow> jstr" where
  "redirect_text fromCode toCode = int_to_string fromCode @ str '' -> '' @ int_to_string toCode"

text \<open>What the loop over the entries pushes for one of them.\<close>

definition risky_mapping :: "jstr \<Rightarrow> jsval \<Rightarrow> jstr list" where
  "risky_mapping rawFrom rawTo =
     (case (parseStatusCodeKey (Str rawFrom), parseStatusCodeMappingTarget rawTo) of
        (Some fromCode, Some toCode) \<Rightarrow>
          if fromCode \<notin> set NON_REDIRECTABLE_STATUS_CODES then []
          else if fromCode = toCode then []
          else [redirect_text fromCode toCode]
      | _ \<Rightarrow> [])"

definition collectDisallowedStatusCodeRedirects :: "jsval \<Rightarrow> jstr list" where
  "collectDisallowedStatusCodeRedirects mapping =
     sort (uniq (concat (map (\<lambda>(rawFrom, rawTo). risky_mapping rawFrom rawTo) (mapping_entries mapping))))"

definition collectNewDisallowedStatusCodeRedirects :: "jsval \<Rightarrow> jsval \<Rightarrow> jstr list" where
  "collectNewDisallowedStatusCodeRedirects original current =
     (let currentRisky = collectDisallowedStatusCodeRedirects current
      in if currentRisky = [] then []
         else let originalRisky = collectDisallowedStatusCodeRedirects original
           in filter (\<lambda>m. m \<notin> set originalRisky) currentRisky)"


subsection \<open>Codes\<close>

lemma three_digit_code_val:
  assumes "three_digit_code s"
  shows "100 \<le> digits_val s \<and> digits_val s \<le> 599 \<and> s \<noteq> [] \<and> (\<forall>c\<in>set s. is_digit c)"
  using assms by (auto simp: three_digit_code_def digits_val_def is_digit_def split: list.splits)

lemma three_digit_parse:
  assumes "three_digit_code s"
  shows "parse_int s = Fin (of_int (digits_val s))"
proof -
  have "is_double (of_int (digits_val s))"
    using three_digit_code_val [OF assms] by (intro is_double_int) simp
  then show ?thesis
    using three_digit_code_val [OF assms] by (simp add: parse_int_digits is_double_to_num)
qed

lemma key_code_range: "parseStatusCodeKey v = Some c \<Longrightarrow> 100 \<le> c \<and> c \<le> 599"
  by (auto simp: parseStatusCodeKey_def code_of_def Let_def three_digit_parse split: jsval.splits if_splits
      dest: three_digit_code_val)

lemma target_code_range: "parseStatusCodeMappingTarget v = Some c \<Longrightarrow> 100 \<le> c \<and> c \<le> 599"
  by (auto simp: parseStatusCodeMappingTarget_def code_of_def Let_def three_digit_parse
      split: jsval.splits if_splits jsnum.splits)

text \<open>The redirects of a mapping, and the text that stands for one.\<close>

definition redirects :: "jsval \<Rightarrow> int \<Rightarrow> int \<Rightarrow> bool" where
  "redirects mapping fromCode toCode \<longleftrightarrow>
     (\<exists>(k, v)\<in>set (mapping_entries mapping).
        parseStatusCodeKey (Str k) = Some fromCode \<and> parseStatusCodeMappingTarget v = Some toCode)"

lemma redirects_range:
  "redirects m f t \<Longrightarrow> 100 \<le> f \<and> f \<le> 599 \<and> 100 \<le> t \<and> t \<le> 599"
  unfolding redirects_def using key_code_range target_code_range by blast

lemma dec_digits_three:
  assumes "100 \<le> n" "n \<le> 599"
  shows "length (dec_digits n) = 3"
proof -
  let ?l = "length (dec_digits n)"
  have b: "10 ^ (?l - 1) \<le> n" "n < 10 ^ ?l"
    using dec_digits_length [of n] assms by auto
  have "(10::int) ^ (?l - 1) < 10 ^ 3" "(10::int) ^ 2 < 10 ^ ?l"
    using b assms by simp_all
  then have "?l - 1 < 3" "2 < ?l"
    by (auto intro: power_less_imp_less_exp [of "10::int"] simp del: power_strict_increasing_iff)
  then show ?thesis
    by simp
qed

lemma dec_digits_inject: "0 \<le> a \<Longrightarrow> 0 \<le> b \<Longrightarrow> dec_digits a = dec_digits b \<Longrightarrow> a = b"
  by (metis dec_digits_val)

lemma redirect_text_inject:
  assumes "100 \<le> f" "f \<le> 599" "100 \<le> t" "t \<le> 599" "100 \<le> f'" "f' \<le> 599" "100 \<le> t'" "t' \<le> 599"
    and "redirect_text f t = redirect_text f' t'"
  shows "f = f' \<and> t = t'"
proof -
  have "dec_digits f @ str '' -> '' @ dec_digits t = dec_digits f' @ str '' -> '' @ dec_digits t'"
    using assms by (simp add: redirect_text_def int_to_string_digits)
  then have "dec_digits f = dec_digits f'" "dec_digits t = dec_digits t'"
    using dec_digits_three assms(1-8) by simp_all
  then show ?thesis
    using assms by (auto dest: dec_digits_inject [rotated 2])
qed

lemma set_disallowed:
  "set (collectDisallowedStatusCodeRedirects m) =
     {redirect_text f t | f t. redirects m f t \<and> f \<in> {504, 524} \<and> f \<noteq> t}"
proof -
  have one: "set (risky_mapping k v) =
      {redirect_text f t | f t. parseStatusCodeKey (Str k) = Some f \<and> parseStatusCodeMappingTarget v = Some t
        \<and> f \<in> {504, 524} \<and> f \<noteq> t}" for k v
    by (cases "parseStatusCodeKey (Str k)"; cases "parseStatusCodeMappingTarget v")
      (auto simp: risky_mapping_def NON_REDIRECTABLE_STATUS_CODES_def)
  show ?thesis
    by (auto simp: collectDisallowedStatusCodeRedirects_def redirects_def one)
qed

lemma disallowed_text_iff:
  assumes "100 \<le> f" "f \<le> 599" "100 \<le> t" "t \<le> 599"
  shows "redirect_text f t \<in> set (collectDisallowedStatusCodeRedirects m) \<longleftrightarrow>
    redirects m f t \<and> f \<in> {504, 524} \<and> f \<noteq> t"
proof
  assume "redirect_text f t \<in> set (collectDisallowedStatusCodeRedirects m)"
  then obtain f' t' where r: "redirect_text f t = redirect_text f' t'" "redirects m f' t'" "f' \<in> {504, 524}" "f' \<noteq> t'"
    unfolding set_disallowed by blast
  then have "f = f' \<and> t = t'"
    using redirects_range [OF r(2)] by (intro redirect_text_inject assms) simp_all
  with r show "redirects m f t \<and> f \<in> {504, 524} \<and> f \<noteq> t"
    by simp
qed (auto simp: set_disallowed)



subsection \<open>Properties\<close>

text \<open>
  C16: when neither collector reports anything for a mapping, no entry of it can hide a timeout:
  every key and every value of the mapping is a status code in 100..599, and a key 504 or 524 is
  mapped to itself.
\<close>

theorem silent_guard_is_safe:
  assumes "collectInvalidStatusCodeEntries m = []" "collectDisallowedStatusCodeRedirects m = []"
    and "(k, v) \<in> set (mapping_entries m)"
  shows "\<exists>f t. parseStatusCodeKey (Str k) = Some f \<and> parseStatusCodeMappingTarget v = Some t
    \<and> 100 \<le> f \<and> f \<le> 599 \<and> 100 \<le> t \<and> t \<le> 599 \<and> (f \<in> {504, 524} \<longrightarrow> t = f)"
proof -
  obtain f t where ft: "parseStatusCodeKey (Str k) = Some f" "parseStatusCodeMappingTarget v = Some t"
    using assms(1,3) by (fastforce simp: collectInvalidStatusCodeEntries_def split: if_splits)
  then have r: "redirects m f t"
    using assms(3) by (auto simp: redirects_def)
  moreover have "f \<in> {504, 524} \<longrightarrow> t = f"
    using r assms(2) set_disallowed [of m] by auto
  ultimately show ?thesis
    using ft redirects_range by blast
qed

theorem silent_guard_is_safe_witness:
  "parseStatusCodeMappingTarget (Num (Fin 504)) = Some 504"
proof -
  let ?m = "Str (str ''{\"504\": 504, \"429\": \"503\"}'')"
  have "collectInvalidStatusCodeEntries ?m = []" "collectDisallowedStatusCodeRedirects ?m = []"
    by code_simp+
  moreover have "(str ''504'', Num (Fin 504)) \<in> set (mapping_entries ?m)"
    by code_simp
  moreover have "parseStatusCodeKey (Str (str ''504'')) = Some 504"
    by code_simp
  ultimately show ?thesis
    using silent_guard_is_safe [of ?m "str ''504''" "Num (Fin 504)"] by auto
qed

text \<open>
  C20: the redirects to confirm after an edit are listed in order and without repetition, and a
  redirect between two status codes is listed exactly when the edited mapping has it, it starts
  at 504 or 524, it leads to another code, and the mapping before the edit did not have it.
\<close>

theorem new_disallowed_redirects:
  "sorted (collectNewDisallowedStatusCodeRedirects old new)
    \<and> distinct (collectNewDisallowedStatusCodeRedirects old new)
    \<and> set (collectNewDisallowedStatusCodeRedirects old new) =
        {redirect_text f t | f t. redirects new f t \<and> f \<in> {504, 524} \<and> f \<noteq> t \<and> \<not> redirects old f t}"
proof -
  have eq: "collectNewDisallowedStatusCodeRedirects old new =
      filter (\<lambda>m. m \<notin> set (collectDisallowedStatusCodeRedirects old)) (collectDisallowedStatusCodeRedirects new)"
    by (simp add: collectNewDisallowedStatusCodeRedirects_def Let_def)
  have "sorted (collectDisallowedStatusCodeRedirects new)" "distinct (collectDisallowedStatusCodeRedirects new)"
    by (simp_all add: collectDisallowedStatusCodeRedirects_def)
  moreover have "redirect_text f t \<in> set (collectDisallowedStatusCodeRedirects old) \<longleftrightarrow> redirects old f t"
    if "redirects new f t" "f \<in> {504, 524}" "f \<noteq> t" for f t
    using disallowed_text_iff [of f t old] redirects_range [OF that(1)] that by simp
  then have "set (filter (\<lambda>m. m \<notin> set (collectDisallowedStatusCodeRedirects old)) (collectDisallowedStatusCodeRedirects new)) =
      {redirect_text f t | f t. redirects new f t \<and> f \<in> {504, 524} \<and> f \<noteq> t \<and> \<not> redirects old f t}"
    unfolding set_filter set_disallowed [of new] by blast
  ultimately show ?thesis
    unfolding eq by (simp add: sorted_wrt_filter del: set_filter)
qed

end
