(* ===== verification/PricingModel.thy ===== *)
theory PricingModel
  imports JS_JSON
begin

text \<open>
  \<open>pages/Setting/Ratio/hooks/useModelPricingEditorState.js\<close>, the functions outside the hook: prices
  and ratios of one model. The backend stores ratios relative to the price of a model; the editor
  shows prices, computes them from the ratios when it loads and the ratios from them when it saves.

  The eight stored options are the constructors of \<open>option_key\<close>, so an object with one property
  per option is a function of them. The translation function \<open>t\<close> is a parameter that takes the
  message as a constructor of \<open>pricing_msg\<close>.
\<close>

datatype option_key =
    ModelPrice | ModelRatio | CompletionRatio | CacheRatio | CreateCacheRatio
  | ImageRatio | AudioRatio | AudioCompletionRatio

definition option_keys :: "option_key list" where
  "option_keys =
     [ModelPrice, ModelRatio, CompletionRatio, CacheRatio, CreateCacheRatio, ImageRatio, AudioRatio, AudioCompletionRatio]"

lemma set_option_keys [simp]: "k \<in> set option_keys"
  by (cases k) (simp_all add: option_keys_def)

lemma distinct_option_keys [simp]: "distinct option_keys"
  by (simp add: option_keys_def)

datatype billing_mode = PerToken | PerRequest

record raw_ratios =
  modelRatio :: jstr
  completionRatio :: jstr
  cacheRatio :: jstr
  createCacheRatio :: jstr
  imageRatio :: jstr
  audioRatio :: jstr
  audioCompletionRatio :: jstr

record pricing_model =
  model_name :: jstr
  billingMode :: billing_mode
  fixedPrice :: jstr
  inputPrice :: jstr
  completionPrice :: jstr
  lockedCompletionRatio :: jstr
  completionRatioLocked :: bool
  cachePrice :: jstr
  createCachePrice :: jstr
  imagePrice :: jstr
  audioInputPrice :: jstr
  audioOutputPrice :: jstr
  rawRatios :: raw_ratios
  hasConflict :: bool

definition EMPTY_MODEL :: pricing_model where
  "EMPTY_MODEL =
     \<lparr>model_name = [], billingMode = PerToken, fixedPrice = [], inputPrice = [], completionPrice = [],
      lockedCompletionRatio = [], completionRatioLocked = False, cachePrice = [], createCachePrice = [],
      imagePrice = [], audioInputPrice = [], audioOutputPrice = [],
      rawRatios = \<lparr>modelRatio = [], completionRatio = [], cacheRatio = [], createCacheRatio = [],
        imageRatio = [], audioRatio = [], audioCompletionRatio = []\<rparr>,
      hasConflict = False\<rparr>"

datatype pricing_msg =
    ConflictWarning | MissingBaseRatioWarning | NeedInputPriceWarning | NeedAudioInputWarning
  | PerUse | UseUnit | ExtraPrices | InputLabel | PriceUnset | EmptyLabel | BackendFixed

text \<open>\<open>/^(\d+(\.\d*)?|\.\d*)?$/.test(s)\<close>: digits with at most one point, or nothing.\<close>

definition NUMERIC_INPUT_REGEX :: "jstr \<Rightarrow> bool" where
  "NUMERIC_INPUT_REGEX s \<longleftrightarrow>
     (let r = dropWhile is_digit s
      in r = [] \<or> hd r = 46 \<and> (\<forall>c\<in>set (tl r). is_digit c))"

definition hasValue :: "jsval \<Rightarrow> bool" where
  "hasValue v \<longleftrightarrow> v \<noteq> Str [] \<and> v \<noteq> Null \<and> v \<noteq> Undefined \<and> v \<noteq> Bool False"

abbreviation hasText :: "jstr \<Rightarrow> bool" where
  "hasText s \<equiv> hasValue (Str s)"

definition toNumericString :: "jsval \<Rightarrow> jstr" where
  "toNumericString v =
     (if \<not> hasValue v \<and> v \<noteq> Num (Fin 0) then []
      else let num = js_number v in if is_finite num then num_to_string num else [])"

definition toNumberOrNull :: "jsval \<Rightarrow> jsnum option" where
  "toNumberOrNull v =
     (if \<not> hasValue v \<and> v \<noteq> Num (Fin 0) then None
      else let num = js_number v in if is_finite num then Some num else None)"

definition formatNumber :: "jsval \<Rightarrow> jstr" where
  "formatNumber v =
     (case toNumberOrNull v of
        None \<Rightarrow> []
      | Some num \<Rightarrow> num_to_string (parse_float (to_fixed 12 num)))"

definition toNormalizedNumber :: "jsval \<Rightarrow> jsnum option" where
  "toNormalizedNumber v =
     (let formatted = formatNumber v in if formatted = [] then None else Some (string_to_num formatted))"

text \<open>
  An option is a text or missing. A parsed array counts as an object: its elements are the
  properties with the index keys.
\<close>

definition own_properties :: "jsval \<Rightarrow> (jstr \<times> jsval) list" where
  "own_properties v =
     (case v of
        Obj ps \<Rightarrow> ps
      | Arr xs \<Rightarrow> zip (map (\<lambda>i. int_to_string (int i)) [0..<length xs]) xs
      | _ \<Rightarrow> [])"

definition parseOptionJSON :: "jstr option \<Rightarrow> (jstr \<times> jsval) list" where
  "parseOptionJSON rawValue =
     (case rawValue of
        None \<Rightarrow> []
      | Some s \<Rightarrow>
          if trim s = [] then []
          else (case json_parse s of
                  Some parsed \<Rightarrow> if is_object parsed then own_properties parsed else []
                | None \<Rightarrow> []))"

definition ratioToBasePrice :: "jsval \<Rightarrow> jstr" where
  "ratioToBasePrice ratio =
     (case toNumberOrNull ratio of
        None \<Rightarrow> []
      | Some num \<Rightarrow> formatNumber (Num (num_mul num (Fin 2))))"

definition normalizeCompletionRatioMeta :: "jsval \<Rightarrow> bool \<times> jstr" where
  "normalizeCompletionRatioMeta rawMeta =
     (if \<not> is_plain_object rawMeta then (False, [])
      else (truthy (get_prop (str ''locked'') rawMeta), toNumericString (get_prop (str ''ratio'') rawMeta)))"

record source_maps =
  maps :: "option_key \<Rightarrow> (jstr \<times> jsval) list"
  completionRatioMeta :: "(jstr \<times> jsval) list"

definition lookup :: "(jstr \<times> jsval) list \<Rightarrow> jstr \<Rightarrow> jsval" where
  "lookup ps k = (case map_of ps k of Some v \<Rightarrow> v | None \<Rightarrow> Undefined)"

text \<open>A price derived from the base price and a ratio: \<open>formatNumber(base * Number(ratio))\<close>.\<close>

definition derived_price :: "jsnum option \<Rightarrow> jstr \<Rightarrow> jstr" where
  "derived_price base ratio =
     (case base of
        Some b \<Rightarrow> if hasText ratio then formatNumber (Num (num_mul b (string_to_num ratio))) else []
      | None \<Rightarrow> [])"

definition buildModelState :: "jstr \<Rightarrow> source_maps \<Rightarrow> pricing_model" where
  "buildModelState name sourceMaps =
     (let ratio = (\<lambda>k. toNumericString (lookup (maps sourceMaps k) name));
          (metaLocked, metaRatio) = normalizeCompletionRatioMeta (lookup (completionRatioMeta sourceMaps) name);
          fixed = ratio ModelPrice;
          input = ratioToBasePrice (Str (ratio ModelRatio));
          inputPriceNumber = toNumberOrNull (Str input);
          audioInput = derived_price inputPriceNumber (ratio AudioRatio)
      in EMPTY_MODEL
           \<lparr>model_name := name,
            billingMode := if hasText fixed then PerRequest else PerToken,
            fixedPrice := fixed,
            inputPrice := input,
            completionRatioLocked := metaLocked,
            lockedCompletionRatio := metaRatio,
            completionPrice := derived_price inputPriceNumber (if metaLocked then metaRatio else ratio CompletionRatio),
            cachePrice := derived_price inputPriceNumber (ratio CacheRatio),
            createCachePrice := derived_price inputPriceNumber (ratio CreateCacheRatio),
            imagePrice := derived_price inputPriceNumber (ratio ImageRatio),
            audioInputPrice := audioInput,
            audioOutputPrice :=
              (if toNumberOrNull (Str audioInput) \<noteq> None \<and> hasText (ratio AudioCompletionRatio)
               then formatNumber (Num (num_mul (string_to_num audioInput) (string_to_num (ratio AudioCompletionRatio))))
               else []),
            rawRatios := \<lparr>modelRatio = ratio ModelRatio, completionRatio = ratio CompletionRatio,
              cacheRatio = ratio CacheRatio, createCacheRatio = ratio CreateCacheRatio,
              imageRatio = ratio ImageRatio, audioRatio = ratio AudioRatio,
              audioCompletionRatio = ratio AudioCompletionRatio\<rparr>,
            hasConflict :=
              hasText fixed \<and>
              (\<exists>k\<in>set [ModelRatio, CompletionRatio, CacheRatio, CreateCacheRatio, ImageRatio, AudioRatio, AudioCompletionRatio].
                 hasText (ratio k))\<rparr>)"

definition isBasePricingUnset :: "pricing_model \<Rightarrow> bool" where
  "isBasePricingUnset model \<longleftrightarrow> \<not> hasText (fixedPrice model) \<and> \<not> hasText (inputPrice model)"

definition dependent_prices :: "pricing_model \<Rightarrow> jstr list" where
  "dependent_prices model =
     [completionPrice model, cachePrice model, createCachePrice model, imagePrice model,
      audioInputPrice model, audioOutputPrice model]"

definition getModelWarnings :: "pricing_model option \<Rightarrow> (pricing_msg \<Rightarrow> jstr) \<Rightarrow> jstr list" where
  "getModelWarnings model t =
     (case model of
        None \<Rightarrow> []
      | Some m \<Rightarrow>
          (let hasDerivedPricing = list_ex hasText (inputPrice m # dependent_prices m); raw = rawRatios m
           in (if hasConflict m then [t ConflictWarning] else [])
            @ (if \<not> hasText (inputPrice m)
                  \<and> list_ex hasText [completionRatio raw, cacheRatio raw, createCacheRatio raw, imageRatio raw,
                                     audioRatio raw, audioCompletionRatio raw]
               then [t MissingBaseRatioWarning] else [])
            @ (if billingMode m = PerToken \<and> hasDerivedPricing \<and> \<not> hasText (inputPrice m)
               then [t NeedInputPriceWarning] else [])
            @ (if billingMode m = PerToken \<and> hasText (audioOutputPrice m) \<and> \<not> hasText (audioInputPrice m)
               then [t NeedAudioInputWarning] else [])))"

definition buildSummaryText :: "pricing_model \<Rightarrow> (pricing_msg \<Rightarrow> jstr) \<Rightarrow> jstr" where
  "buildSummaryText model t =
     (if billingMode model = PerRequest \<and> hasText (fixedPrice model)
      then t PerUse @ str '' $'' @ fixedPrice model @ str '' / '' @ t UseUnit
      else if hasText (inputPrice model) then
        (let extraCount = length (filter hasText (dependent_prices model));
             extraLabel = (if 0 < extraCount then 65292 # t ExtraPrices @ 32 # int_to_string (int extraCount) else [])
         in t InputLabel @ str '' $'' @ inputPrice model @ extraLabel)
      else t PriceUnset)"

datatype price_field =
    FixedPrice | InputPrice | CompletionPrice | CachePrice | CreateCachePrice | ImagePrice
  | AudioInputPrice | AudioOutputPrice

type_synonym toggles = "price_field \<Rightarrow> bool option"

text \<open>The switches of the six optional fields; the other fields have none.\<close>

definition buildOptionalFieldToggles :: "pricing_model \<Rightarrow> toggles" where
  "buildOptionalFieldToggles model f =
     (case f of
        CompletionPrice \<Rightarrow> Some (completionRatioLocked model \<or> hasText (completionPrice model))
      | CachePrice \<Rightarrow> Some (hasText (cachePrice model))
      | CreateCachePrice \<Rightarrow> Some (hasText (createCachePrice model))
      | ImagePrice \<Rightarrow> Some (hasText (imagePrice model))
      | AudioInputPrice \<Rightarrow> Some (hasText (audioInputPrice model))
      | AudioOutputPrice \<Rightarrow> Some (hasText (audioOutputPrice model))
      | _ \<Rightarrow> None)"

datatype pricing_error = MissingInputPrice jstr | MissingAudioInputPrice jstr

type_synonym serialized = "option_key \<Rightarrow> jsnum option"

text \<open>\<open>if (hasValue(raw)) result.K = toNormalizedNumber(raw)\<close>, with the result \<open>null\<close> before.\<close>

definition raw_result :: "jstr \<Rightarrow> jsnum option" where
  "raw_result raw = (if hasText raw then toNormalizedNumber (Str raw) else None)"

definition raw_results :: "raw_ratios \<Rightarrow> serialized" where
  "raw_results raw k =
     (case k of
        ModelPrice \<Rightarrow> None
      | ModelRatio \<Rightarrow> raw_result (modelRatio raw)
      | CompletionRatio \<Rightarrow> raw_result (completionRatio raw)
      | CacheRatio \<Rightarrow> raw_result (cacheRatio raw)
      | CreateCacheRatio \<Rightarrow> raw_result (createCacheRatio raw)
      | ImageRatio \<Rightarrow> raw_result (imageRatio raw)
      | AudioRatio \<Rightarrow> raw_result (audioRatio raw)
      | AudioCompletionRatio \<Rightarrow> raw_result (audioCompletionRatio raw))"

text \<open>\<open>toNormalizedNumber(price / base)\<close> of a price that is not \<open>null\<close>.\<close>

definition ratio_result :: "jsnum option \<Rightarrow> jsnum \<Rightarrow> jsnum option" where
  "ratio_result price base =
     (case price of Some p \<Rightarrow> toNormalizedNumber (Num (num_div p base)) | None \<Rightarrow> None)"

definition serializeModel :: "pricing_model \<Rightarrow> pricing_error + serialized" where
  "serializeModel model =
     (if billingMode model = PerRequest then
        Inr (\<lambda>k. if k = ModelPrice \<and> hasText (fixedPrice model) then toNormalizedNumber (Str (fixedPrice model)) else None)
      else
        let num = (\<lambda>s. toNumberOrNull (Str s));
            completion = num (completionPrice model); cache = num (cachePrice model);
            createCache = num (createCachePrice model); image = num (imagePrice model);
            audioInput = num (audioInputPrice model); audioOutput = num (audioOutputPrice model);
            hasDependentPrice = list_ex (\<lambda>v. v \<noteq> None) [completion, cache, createCache, image, audioInput, audioOutput]
        in case num (inputPrice model) of
             None \<Rightarrow>
               if hasDependentPrice then Inl (MissingInputPrice (model_name model))
               else Inr (raw_results (rawRatios model))
           | Some input \<Rightarrow>
               if audioOutput \<noteq> None \<and> (audioInput = None \<or> audioInput = Some (Fin 0))
               then Inl (MissingAudioInputPrice (model_name model))
               else Inr (\<lambda>k. case k of
                   ModelPrice \<Rightarrow> None
                 | ModelRatio \<Rightarrow> toNormalizedNumber (Num (num_div input (Fin 2)))
                 | CompletionRatio \<Rightarrow>
                     if \<not> completionRatioLocked model \<and> completion \<noteq> None then ratio_result completion input
                     else if completionRatioLocked model then raw_result (completionRatio (rawRatios model))
                     else None
                 | CacheRatio \<Rightarrow> ratio_result cache input
                 | CreateCacheRatio \<Rightarrow> ratio_result createCache input
                 | ImageRatio \<Rightarrow> ratio_result image input
                 | AudioRatio \<Rightarrow> ratio_result audioInput input
                 | AudioCompletionRatio \<Rightarrow>
                     (case audioInput of Some a \<Rightarrow> ratio_result audioOutput a | None \<Rightarrow> None)))"

type_synonym preview_row = "option_key \<times> jstr"

definition text_or_empty :: "(pricing_msg \<Rightarrow> jstr) \<Rightarrow> jstr \<Rightarrow> jstr" where
  "text_or_empty t s = (if hasText s then s else t EmptyLabel)"

definition ratio_text :: "(pricing_msg \<Rightarrow> jstr) \<Rightarrow> jsnum option \<Rightarrow> jsnum \<Rightarrow> jstr" where
  "ratio_text t price base =
     (case price of Some p \<Rightarrow> formatNumber (Num (num_div p base)) | None \<Rightarrow> t EmptyLabel)"

text \<open>The rows of the preview; the key of a row is its label as well.\<close>

definition buildPreviewRows :: "pricing_model option \<Rightarrow> (pricing_msg \<Rightarrow> jstr) \<Rightarrow> preview_row list" where
  "buildPreviewRows model t =
     (case model of
        None \<Rightarrow> []
      | Some m \<Rightarrow>
          if billingMode m = PerRequest then [(ModelPrice, text_or_empty t (fixedPrice m))]
          else let num = (\<lambda>s. toNumberOrNull (Str s)); raw = rawRatios m
            in case num (inputPrice m) of
                 None \<Rightarrow>
                   [(ModelRatio, text_or_empty t (modelRatio raw)),
                    (CompletionRatio, text_or_empty t (completionRatio raw)),
                    (CacheRatio, text_or_empty t (cacheRatio raw)),
                    (CreateCacheRatio, text_or_empty t (createCacheRatio raw)),
                    (ImageRatio, text_or_empty t (imageRatio raw)),
                    (AudioRatio, text_or_empty t (audioRatio raw)),
                    (AudioCompletionRatio, text_or_empty t (audioCompletionRatio raw))]
               | Some input \<Rightarrow>
                   [(ModelRatio, formatNumber (Num (num_div input (Fin 2)))),
                    (CompletionRatio,
                      if completionRatioLocked m
                      then (if lockedCompletionRatio m = [] then t EmptyLabel else lockedCompletionRatio m)
                           @ str '' ('' @ t BackendFixed @ str '')''
                      else ratio_text t (num (completionPrice m)) input),
                    (CacheRatio, ratio_text t (num (cachePrice m)) input),
                    (CreateCacheRatio, ratio_text t (num (createCachePrice m)) input),
                    (ImageRatio, ratio_text t (num (imagePrice m)) input),
                    (AudioRatio, ratio_text t (num (audioInputPrice m)) input),
                    (AudioCompletionRatio,
                      case num (audioInputPrice m) of
                        Some a \<Rightarrow>
                          if num (audioOutputPrice m) \<noteq> None \<and> a \<noteq> Fin 0
                          then ratio_text t (num (audioOutputPrice m)) a else t EmptyLabel
                      | None \<Rightarrow> t EmptyLabel)])"


subsection \<open>Numbers and their texts\<close>

named_theorems pricing_simps \<open>evaluation of the number helpers\<close>

lemma hasValue_simps [simp]:
  "hasValue (Num n)" "hasText s \<longleftrightarrow> s \<noteq> []" "\<not> hasValue Undefined" "\<not> hasValue Null"
  by (simp_all add: hasValue_def)

lemma toNumberOrNull_Num [pricing_simps]: "toNumberOrNull (Num n) = (if is_finite n then Some n else None)"
  by (simp add: toNumberOrNull_def)

lemma toNumberOrNull_Nil [simp]: "toNumberOrNull (Str []) = None"
  by (simp add: toNumberOrNull_def)

lemma toNumberOrNull_finite:
  assumes "toNumberOrNull v = Some n" "wf_num (js_number v)"
  shows "\<exists>x. n = Fin x \<and> is_double x"
proof -
  have "n = js_number v" "is_finite n"
    using assms(1) by (auto simp: toNumberOrNull_def Let_def split: if_splits)
  then show ?thesis
    using assms(2) by (metis is_finite_iff wf_num_simps(4))
qed

lemma toNumberOrNull_text: "toNumberOrNull (Str s) = Some n \<Longrightarrow> \<exists>x. n = Fin x \<and> is_double x"
  by (erule toNumberOrNull_finite) simp

lemma num_to_string_not_Nil: "is_double x \<Longrightarrow> num_to_string (Fin x) \<noteq> []"
  by (simp add: rat_to_string_chars)

lemma string_to_num_Fin: "is_double x \<Longrightarrow> string_to_num (num_to_string (Fin x)) = Fin x"
  by (rule string_to_num_of_string) simp

lemma toNumberOrNull_of_text [pricing_simps]:
  "is_double x \<Longrightarrow> toNumberOrNull (Str (num_to_string (Fin x))) = Some (Fin x)"
  unfolding toNumberOrNull_def js_number.simps string_to_num_Fin
  using num_to_string_not_Nil [of x] by (simp del: num_to_string.simps)

lemma formatNumber_Fin:
  assumes "toNumberOrNull v = Some (Fin x)" "is_double x"
  obtains y where "normalized y" "round12 (Fin x) = Fin y" "formatNumber v = num_to_string (Fin y)"
proof -
  obtain y where y: "round12 (Fin x) = Fin y" "normalized y"
    using round12_finite [OF assms(2)] .
  then have "formatNumber v = num_to_string (Fin y)"
    using assms(1) by (simp add: formatNumber_def round12_def del: num_to_string.simps)
  with y that show thesis
    by blast
qed

lemma formatNumber_None: "toNumberOrNull v = None \<Longrightarrow> formatNumber v = []"
  by (simp add: formatNumber_def)

lemma normalized_is_double: "normalized y \<Longrightarrow> is_double y"
  by (simp add: normalized_def)

lemma toNormalizedNumber_cases:
  assumes "wf_num (js_number v)"
  obtains "toNumberOrNull v = None" "toNormalizedNumber v = None"
  | x y where "toNumberOrNull v = Some (Fin x)" "is_double x" "round12 (Fin x) = Fin y" "normalized y"
      "toNormalizedNumber v = Some (Fin y)"
proof (cases "toNumberOrNull v")
  case None
  then show ?thesis
    using that(1) by (simp add: toNormalizedNumber_def formatNumber_None)
next
  case (Some n)
  then obtain x where x: "n = Fin x" "is_double x"
    using toNumberOrNull_finite assms by blast
  obtain y where y: "normalized y" "round12 (Fin x) = Fin y" "formatNumber v = num_to_string (Fin y)"
    using formatNumber_Fin [OF _ x(2)] Some x(1) by metis
  have "toNormalizedNumber v = Some (Fin y)"
    unfolding toNormalizedNumber_def Let_def y(3)
    using num_to_string_not_Nil [of y] string_to_num_Fin [of y] normalized_is_double [OF y(1)]
    by (simp del: num_to_string.simps)
  then show ?thesis
    using that(2) Some x y by blast
qed

lemma toNormalizedNumber_stable:
  assumes "normalized y"
  shows "toNormalizedNumber (Num (Fin y)) = Some (Fin y)"
proof (rule toNormalizedNumber_cases [of "Num (Fin y)"])
  show "wf_num (js_number (Num (Fin y)))"
    using assms by (simp add: normalized_is_double)
qed (use round12_fixed [OF assms] in \<open>auto simp: pricing_simps\<close>)

lemma toNormalizedNumber_result:
  assumes "toNormalizedNumber v = Some n" "wf_num (js_number v)"
  shows "\<exists>y. n = Fin y \<and> normalized y"
  by (rule toNormalizedNumber_cases [OF assms(2)]) (use assms(1) in auto)

lemma toNormalizedNumber_normalized:
  assumes "toNormalizedNumber (Num (Fin r)) = Some (Fin r)" "is_double r"
  shows "normalized r"
  using toNormalizedNumber_result [OF assms(1)] assms(2) by simp

lemma toNormalizedNumber_again:
  "toNormalizedNumber v = Some n \<Longrightarrow> wf_num (js_number v) \<Longrightarrow> toNormalizedNumber (Num n) = Some n"
  using toNormalizedNumber_result toNormalizedNumber_stable by blast


subsection \<open>Loading and saving one model\<close>

abbreviation stored :: "source_maps \<Rightarrow> option_key \<Rightarrow> jstr \<Rightarrow> jsval" where
  "stored src k name \<equiv> lookup (maps src k) name"

lemma toNumericString_simps [pricing_simps]:
  "toNumericString Undefined = []" "toNumericString (Num (Fin x)) = num_to_string (Fin x)"
  by (simp_all add: toNumericString_def)

lemma build_simps:
  "model_name (buildModelState name src) = name"
  "billingMode (buildModelState name src) =
     (if hasText (toNumericString (stored src ModelPrice name)) then PerRequest else PerToken)"
  "fixedPrice (buildModelState name src) = toNumericString (stored src ModelPrice name)"
  "inputPrice (buildModelState name src) = ratioToBasePrice (Str (toNumericString (stored src ModelRatio name)))"
  "cachePrice (buildModelState name src) =
     derived_price (toNumberOrNull (Str (inputPrice (buildModelState name src)))) (toNumericString (stored src CacheRatio name))"
  "createCachePrice (buildModelState name src) =
     derived_price (toNumberOrNull (Str (inputPrice (buildModelState name src)))) (toNumericString (stored src CreateCacheRatio name))"
  "imagePrice (buildModelState name src) =
     derived_price (toNumberOrNull (Str (inputPrice (buildModelState name src)))) (toNumericString (stored src ImageRatio name))"
  "audioInputPrice (buildModelState name src) =
     derived_price (toNumberOrNull (Str (inputPrice (buildModelState name src)))) (toNumericString (stored src AudioRatio name))"
  "audioOutputPrice (buildModelState name src) =
     (if toNumberOrNull (Str (audioInputPrice (buildModelState name src))) \<noteq> None
        \<and> hasText (toNumericString (stored src AudioCompletionRatio name))
      then formatNumber (Num (num_mul (string_to_num (audioInputPrice (buildModelState name src)))
             (string_to_num (toNumericString (stored src AudioCompletionRatio name)))))
      else [])"
  by (simp_all add: buildModelState_def Let_def split_beta)

lemma ratioToBasePrice_text:
  assumes "is_double r" "is_double (2 * r)"
  shows "ratioToBasePrice (Str (num_to_string (Fin r))) = formatNumber (Num (Fin (2 * r)))"
  using assms is_double_to_num [OF assms(2)]
  by (simp add: ratioToBasePrice_def pricing_simps mult.commute del: num_to_string.simps)

lemma formatNumber_normalized:
  assumes "normalized y"
  shows "formatNumber (Num (Fin y)) = num_to_string (Fin y)"
  using round12_fixed [OF assms] by (simp add: formatNumber_def pricing_simps round12_def)

lemma input_price_of_ratio:
  assumes "stored src ModelRatio name = Num (Fin r)" "normalized r" "is_double (2 * r)"
  shows "toNumberOrNull (Str (inputPrice (buildModelState name src))) = Some (Fin (2 * r))"
proof -
  have "inputPrice (buildModelState name src) = num_to_string (Fin (2 * r))"
    using assms ratioToBasePrice_text [OF normalized_is_double [OF assms(2)] assms(3)]
      formatNumber_normalized [OF normalized_double [OF assms(2,3)]]
    by (simp add: build_simps pricing_simps del: num_to_string.simps)
  then show ?thesis
    using toNumberOrNull_of_text [OF assms(3)] by (simp only:)
qed

lemma serialize_token:
  assumes "serializeModel m = Inr ser" "billingMode m = PerToken" "toNumberOrNull (Str (inputPrice m)) = Some p"
  shows "ser ModelPrice = None" "ser ModelRatio = toNormalizedNumber (Num (num_div p (Fin 2)))"
    "ser CacheRatio = ratio_result (toNumberOrNull (Str (cachePrice m))) p"
    "ser CreateCacheRatio = ratio_result (toNumberOrNull (Str (createCachePrice m))) p"
    "ser ImageRatio = ratio_result (toNumberOrNull (Str (imagePrice m))) p"
    "ser AudioRatio = ratio_result (toNumberOrNull (Str (audioInputPrice m))) p"
    "ser CompletionRatio =
       (if \<not> completionRatioLocked m then ratio_result (toNumberOrNull (Str (completionPrice m))) p
        else raw_result (completionRatio (rawRatios m)))"
    "ser AudioCompletionRatio =
       (case toNumberOrNull (Str (audioInputPrice m)) of
          Some a \<Rightarrow> ratio_result (toNumberOrNull (Str (audioOutputPrice m))) a | None \<Rightarrow> None)"
  using assms by (auto simp: serializeModel_def Let_def ratio_result_def split: if_splits)

lemma price_text_wf: "toNumberOrNull (Str s) = Some n \<Longrightarrow> wf_num n"
  using toNumberOrNull_text by fastforce

definition stable_result :: "jsnum option \<Rightarrow> bool" where
  "stable_result r \<longleftrightarrow> (\<forall>n. r = Some n \<longrightarrow> toNormalizedNumber (Num n) = Some n)"

lemma stable_None [simp]: "stable_result None"
  by (simp add: stable_result_def)

lemma stable_normalized: "wf_num (js_number v) \<Longrightarrow> stable_result (toNormalizedNumber v)"
  by (auto simp: stable_result_def intro: toNormalizedNumber_again)

lemma stable_text [simp]: "stable_result (toNormalizedNumber (Str s))"
  by (rule stable_normalized) simp

lemma stable_raw [simp]: "stable_result (raw_result s)"
  by (simp add: raw_result_def)

lemma stable_ratio: "wf_num b \<Longrightarrow> stable_result (ratio_result (toNumberOrNull (Str s)) b)"
  unfolding ratio_result_def by (auto split: option.split intro!: stable_normalized wf_num_div dest: price_text_wf)

lemma stable_serialized:
  assumes "serializeModel m = Inr ser"
  shows "stable_result (ser k)"
proof (cases "billingMode m")
  case PerRequest
  then show ?thesis
    using assms by (auto simp: serializeModel_def)
next
  case PerToken
  show ?thesis
  proof (cases "toNumberOrNull (Str (inputPrice m))")
    case None
    then have "ser = raw_results (rawRatios m)"
      using assms PerToken by (simp add: serializeModel_def Let_def split: if_splits)
    then show ?thesis
      by (cases k) (simp_all add: raw_results_def)
  next
    case (Some p)
    have p: "wf_num p" "wf_num (num_div p (Fin 2))"
      using price_text_wf [OF Some] is_double_int [of 2] by (simp_all add: wf_num_div)
    have a: "stable_result (case toNumberOrNull (Str s) of Some a \<Rightarrow> ratio_result (toNumberOrNull (Str u)) a | None \<Rightarrow> None)" for s u
      by (auto split: option.split intro: stable_ratio price_text_wf)
    show ?thesis
      using p a by (cases k) (simp_all add: serialize_token [OF assms PerToken Some] stable_ratio stable_normalized)
  qed
qed

text \<open>The text of a normalized result is what \<open>formatNumber\<close> shows.\<close>

lemma formatNumber_result:
  assumes "wf_num (js_number v)"
  shows "formatNumber v = (case toNormalizedNumber v of Some n \<Rightarrow> num_to_string n | None \<Rightarrow> [])"
proof (rule toNormalizedNumber_cases [OF assms])
  fix x y
  assume "toNumberOrNull v = Some (Fin x)" "is_double x" "round12 (Fin x) = Fin y" "toNormalizedNumber v = Some (Fin y)"
  then show ?thesis
    by (simp add: formatNumber_def round12_def del: num_to_string.simps)
qed (simp add: formatNumber_None)

definition row_matches :: "(pricing_msg \<Rightarrow> jstr) \<Rightarrow> jsnum option \<Rightarrow> jstr \<Rightarrow> bool" where
  "row_matches t r s = (case r of Some n \<Rightarrow> s = num_to_string n | None \<Rightarrow> s \<in> {[], t EmptyLabel})"

lemma row_matches_format:
  "wf_num (js_number v) \<Longrightarrow> row_matches t (toNormalizedNumber v) (formatNumber v)"
  by (simp add: formatNumber_result row_matches_def split: option.split)

lemma row_matches_ratio:
  assumes "wf_num b"
  shows "row_matches t (ratio_result (toNumberOrNull (Str u)) b) (ratio_text t (toNumberOrNull (Str u)) b)"
proof (cases "toNumberOrNull (Str u)")
  case (Some q)
  then have "wf_num (js_number (Num (num_div q b)))"
    using price_text_wf assms by (simp add: wf_num_div)
  then show ?thesis
    using row_matches_format by (simp add: Some ratio_result_def ratio_text_def)
qed (simp add: ratio_result_def ratio_text_def row_matches_def)

lemma row_matches_audio:
  assumes "serializeModel m = Inr ser" "billingMode m = PerToken" "toNumberOrNull (Str (inputPrice m)) = Some p"
  shows "row_matches t (ser AudioCompletionRatio)
    (case toNumberOrNull (Str (audioInputPrice m)) of
       Some a \<Rightarrow>
         if toNumberOrNull (Str (audioOutputPrice m)) \<noteq> None \<and> a \<noteq> Fin 0
         then ratio_text t (toNumberOrNull (Str (audioOutputPrice m))) a else t EmptyLabel
     | None \<Rightarrow> t EmptyLabel)"
proof (cases "toNumberOrNull (Str (audioOutputPrice m))")
  case None
  then show ?thesis
    by (simp add: serialize_token [OF assms] ratio_result_def row_matches_def split: option.split)
next
  case (Some q)
  then obtain a where a: "toNumberOrNull (Str (audioInputPrice m)) = Some a" "a \<noteq> Fin 0"
    using assms by (auto simp: serializeModel_def Let_def split: if_splits)
  then show ?thesis
    using row_matches_ratio [OF price_text_wf [OF a(1)], of t "audioOutputPrice m"] Some
    by (simp add: serialize_token [OF assms])
qed

lemma preview_rows:
  assumes "billingMode m = PerToken" "toNumberOrNull (Str (inputPrice m)) = Some p" "\<not> completionRatioLocked m \<or> k \<noteq> CompletionRatio"
    and "(k, s) \<in> set (buildPreviewRows (Some m) t)"
  shows "s = (case k of
      ModelPrice \<Rightarrow> s
    | ModelRatio \<Rightarrow> formatNumber (Num (num_div p (Fin 2)))
    | CompletionRatio \<Rightarrow> ratio_text t (toNumberOrNull (Str (completionPrice m))) p
    | CacheRatio \<Rightarrow> ratio_text t (toNumberOrNull (Str (cachePrice m))) p
    | CreateCacheRatio \<Rightarrow> ratio_text t (toNumberOrNull (Str (createCachePrice m))) p
    | ImageRatio \<Rightarrow> ratio_text t (toNumberOrNull (Str (imagePrice m))) p
    | AudioRatio \<Rightarrow> ratio_text t (toNumberOrNull (Str (audioInputPrice m))) p
    | AudioCompletionRatio \<Rightarrow>
        (case toNumberOrNull (Str (audioInputPrice m)) of
           Some a \<Rightarrow>
             if toNumberOrNull (Str (audioOutputPrice m)) \<noteq> None \<and> a \<noteq> Fin 0
             then ratio_text t (toNumberOrNull (Str (audioOutputPrice m))) a else t EmptyLabel
         | None \<Rightarrow> t EmptyLabel)) \<and> k \<noteq> ModelPrice"
  using assms by (cases k) (auto simp: buildPreviewRows_def Let_def)

lemma normalized_0 [simp]: "normalized 0"
  unfolding normalized_def by (auto intro!: exI [of _ 0])

lemma derived_price_zero:
  assumes "is_double b" "b = 0 \<or> r = Fin 0" "r = Fin c" "is_double c"
  shows "derived_price (Some (Fin b)) (num_to_string r) = num_to_string (Fin 0)"
proof -
  have z: "num_mul (Fin b) r = Fin 0"
    using assms is_double_to_num [OF is_double_0] by auto
  show ?thesis
    using assms(3,4) num_to_string_not_Nil [OF assms(4)] string_to_num_Fin [OF assms(4)] z
    by (simp add: derived_price_def formatNumber_normalized del: num_to_string.simps)
qed


subsection \<open>Properties\<close>

text \<open>
  Formatting a number twice gives the same text as formatting it once, for every value a
  form or a stored option can hold.
\<close>

lemma formatNumber_idempotent:
  assumes "wf_val v"
  shows "formatNumber (Str (formatNumber v)) = formatNumber v"
proof (cases "toNumberOrNull v")
  case None
  then show ?thesis
    by (simp add: formatNumber_None)
next
  case (Some n)
  then obtain x where x: "n = Fin x" "is_double x"
    using toNumberOrNull_finite wf_js_number [OF assms] by blast
  obtain y where y: "normalized y" "formatNumber v = num_to_string (Fin y)"
    using formatNumber_Fin [OF _ x(2)] Some x(1) by metis
  have "toNumberOrNull (Str (num_to_string (Fin y))) = Some (Fin y)"
    by (rule toNumberOrNull_of_text [OF normalized_is_double [OF y(1)]])
  then have "formatNumber (Str (num_to_string (Fin y))) = num_to_string (Fin y)"
    using round12_fixed [OF y(1)] by (simp add: formatNumber_def round12_def del: num_to_string.simps)
  then show ?thesis
    unfolding y(2) .
qed

lemma formatNumber_idempotent_witness:
  "formatNumber (Str (str ''12'')) = str ''12'' \<and> formatNumber (Str (formatNumber (Str (str ''12'')))) = str ''12''"
proof -
  have "formatNumber (Str (str ''12'')) = str ''12''" "wf_val (Str (str ''12''))"
    by code_simp+
  then show ?thesis
    using formatNumber_idempotent [of "Str (str ''12'')"] by simp
qed

text \<open>
  Every number that saving a model produces is a normalized one: normalizing it again, as
  the next save does, returns it unchanged.
\<close>

lemma serialized_values_stable:
  assumes "serializeModel m = Inr ser" "ser k = Some n"
  shows "toNormalizedNumber (Num n) = Some n"
  using stable_serialized [OF assms(1), of k] assms(2) by (simp add: stable_result_def)

lemma serialized_values_stable_witness:
  "toNormalizedNumber (Num (Fin 3)) = Some (Fin 3)"
proof -
  let ?m = "EMPTY_MODEL\<lparr>inputPrice := str ''6''\<rparr>"
  have "case serializeModel ?m of Inl e \<Rightarrow> False | Inr ser \<Rightarrow> ser ModelRatio = Some (Fin 3)"
    by code_simp
  then show ?thesis
    using serialized_values_stable [of ?m _ ModelRatio "Fin 3"] by (auto split: sum.splits)
qed

text \<open>
  C23: a model ratio that was saved before survives loading and saving exactly: the editor
  doubles it to a price, prints the price with 12 decimals and halves it again, and no digit
  changes.
\<close>

theorem model_ratio_round_trip:
  assumes "stored src ModelRatio name = Num (Fin r)" "stored src ModelPrice name = Undefined"
    and "is_double r" "toNormalizedNumber (Num (Fin r)) = Some (Fin r)" "is_double (2 * r)"
    and "serializeModel (buildModelState name src) = Inr ser"
  shows "ser ModelRatio = Some (Fin r)"
proof -
  have r: "normalized r"
    by (rule toNormalizedNumber_normalized [OF assms(4,3)])
  have "billingMode (buildModelState name src) = PerToken"
    by (simp add: build_simps assms(2) pricing_simps)
  then have "ser ModelRatio = toNormalizedNumber (Num (num_div (Fin (2 * r)) (Fin 2)))"
    using serialize_token(2) [OF assms(6)] input_price_of_ratio [OF assms(1) r assms(5)] by blast
  also have "num_div (Fin (2 * r)) (Fin 2) = Fin r"
    by (simp add: is_double_to_num assms(3))
  finally show ?thesis
    by (simp add: assms(4))
qed

definition demo_maps :: source_maps where
  "demo_maps =
     \<lparr>maps = (\<lambda>k. if k = ModelRatio then [(str ''a'', Num (Fin 5))]
               else if k = CacheRatio then [(str ''a'', Num (Fin 2))] else []),
      completionRatioMeta = []\<rparr>"

theorem model_ratio_round_trip_witness:
  "\<exists>ser. serializeModel (buildModelState (str ''a'') demo_maps) = Inr ser \<and> ser ModelRatio = Some (Fin 5)"
proof -
  have ok: "case serializeModel (buildModelState (str ''a'') demo_maps) of Inl e \<Rightarrow> False | Inr ser \<Rightarrow> True"
    by code_simp
  have "stored demo_maps ModelRatio (str ''a'') = Num (Fin 5)" "stored demo_maps ModelPrice (str ''a'') = Undefined"
    by (simp_all add: demo_maps_def lookup_def)
  moreover have "is_double 5" "is_double (2 * 5)"
    using is_double_int [of 5] is_double_int [of 10] by simp_all
  moreover have "toNormalizedNumber (Num (Fin 5)) = Some (Fin 5)"
    by code_simp
  ultimately show ?thesis
    using model_ratio_round_trip [of demo_maps "str ''a''" 5] ok by (auto split: sum.splits)
qed



text \<open>
  C25: the warnings foresee every failure to save of a model with well-formed prices: without a
  warning, and unless an audio completion price is set on a free audio input, the model is saved.
\<close>

theorem no_warning_saves:
  assumes "getModelWarnings (Some m) t = []"
    and "\<forall>s\<in>set (inputPrice m # dependent_prices m). s = [] \<or> toNumberOrNull (Str s) \<noteq> None"
    and "audioOutputPrice m = [] \<or> toNumberOrNull (Str (audioInputPrice m)) \<noteq> Some (Fin 0)"
  shows "\<exists>ser. serializeModel m = Inr ser"
proof (cases "billingMode m = PerRequest")
  case False
  then have token: "billingMode m = PerToken"
    by (cases "billingMode m") auto
  have input: "inputPrice m \<noteq> [] \<or> list_all (\<lambda>s. s = []) (dependent_prices m)"
    and audio: "audioOutputPrice m = [] \<or> audioInputPrice m \<noteq> []"
    using assms(1) token
    by (auto simp: getModelWarnings_def Let_def list_ex_iff list_all_iff split: if_splits)
  show ?thesis
  proof (cases "toNumberOrNull (Str (inputPrice m))")
    case None
    then show ?thesis
      using assms(2) input token by (auto simp: serializeModel_def Let_def dependent_prices_def)
  next
    case (Some p)
    then show ?thesis
      using assms(2,3) audio token by (auto simp: serializeModel_def Let_def dependent_prices_def)
  qed
qed (simp add: serializeModel_def)

theorem no_warning_saves_witness:
  "\<exists>ser. serializeModel (EMPTY_MODEL\<lparr>inputPrice := str ''6'', cachePrice := str ''3''\<rparr>) = Inr ser"
proof -
  let ?m = "EMPTY_MODEL\<lparr>inputPrice := str ''6'', cachePrice := str ''3''\<rparr>"
  have "getModelWarnings (Some ?m) (\<lambda>_. []) = []"
    "\<forall>s\<in>set (inputPrice ?m # dependent_prices ?m). s = [] \<or> toNumberOrNull (Str s) \<noteq> None"
    "audioOutputPrice ?m = []"
    by code_simp+
  then show ?thesis
    using no_warning_saves [of ?m "\<lambda>_. []"] by blast
qed



text \<open>
  A stored configuration with free audio input and an audio completion ratio cannot be saved
  again, although it loads: saving it fails with the message that the audio input price is missing.
\<close>

lemma free_audio_input_blocks_saving:
  assumes "stored src ModelPrice name = Undefined" "stored src ModelRatio name = Num (Fin r)" "normalized r" "is_double (2 * r)"
    and "stored src AudioRatio name = Num (Fin 0)" "stored src AudioCompletionRatio name = Num (Fin c)" "is_double c"
  shows "serializeModel (buildModelState name src) = Inl (MissingAudioInputPrice name)"
proof -
  let ?m = "buildModelState name src"
  have token: "billingMode ?m = PerToken"
    by (simp add: build_simps assms(1) pricing_simps)
  have input: "toNumberOrNull (Str (inputPrice ?m)) = Some (Fin (2 * r))"
    by (rule input_price_of_ratio [OF assms(2-4)])
  have a: "audioInputPrice ?m = num_to_string (Fin 0)"
    using derived_price_zero [of "2 * r" "Fin 0" 0] assms(4,5) is_double_0 input
    by (simp add: build_simps(8) pricing_simps del: num_to_string.simps)
  have a0: "toNumberOrNull (Str (audioInputPrice ?m)) = Some (Fin 0)"
    unfolding a by (rule toNumberOrNull_of_text [OF is_double_0])
  have n: "string_to_num (num_to_string (Fin 0)) = Fin 0" "string_to_num (num_to_string (Fin c)) = Fin c"
    by (rule string_to_num_Fin [OF is_double_0], rule string_to_num_Fin [OF assms(7)])
  have "audioOutputPrice ?m = formatNumber (Num (num_mul (Fin 0) (Fin c)))"
    using a0 assms(6) num_to_string_not_Nil [OF assms(7)]
    by (simp add: build_simps(9) a n pricing_simps del: num_to_string.simps num_mul.simps)
  also have "\<dots> = num_to_string (Fin 0)"
    using is_double_to_num [OF is_double_0] formatNumber_normalized [OF normalized_0] by simp
  finally have "toNumberOrNull (Str (audioOutputPrice ?m)) = Some (Fin 0)"
    using toNumberOrNull_of_text [OF is_double_0] by (simp only:)
  then show ?thesis
    using token input a0 by (simp add: serializeModel_def Let_def build_simps(1))
qed

lemma free_audio_input_blocks_saving_witness:
  "serializeModel (buildModelState (str ''a'')
     (demo_maps\<lparr>maps := (maps demo_maps)(AudioRatio := [(str ''a'', Num (Fin 0))], AudioCompletionRatio := [(str ''a'', Num (Fin 2))])\<rparr>)) =
   Inl (MissingAudioInputPrice (str ''a''))"
proof -
  let ?src = "demo_maps\<lparr>maps := (maps demo_maps)(AudioRatio := [(str ''a'', Num (Fin 0))], AudioCompletionRatio := [(str ''a'', Num (Fin 2))])\<rparr>"
  have "stored ?src ModelPrice (str ''a'') = Undefined" "stored ?src ModelRatio (str ''a'') = Num (Fin 5)"
    "stored ?src AudioRatio (str ''a'') = Num (Fin 0)" "stored ?src AudioCompletionRatio (str ''a'') = Num (Fin 2)"
    by (simp_all add: demo_maps_def lookup_def)
  moreover have d: "is_double 5" "is_double (2 * 5)" "is_double 2"
    using is_double_int [of 5] is_double_int [of 10] is_double_int [of 2] by simp_all
  moreover have "normalized 5"
  proof (rule toNormalizedNumber_normalized [OF _ d(1)])
    show "toNormalizedNumber (Num (Fin 5)) = Some (Fin 5)"
      by code_simp
  qed
  ultimately show ?thesis
    by (intro free_audio_input_blocks_saving)
qed

end
