(* ===== verification/JS_Dict.thy ===== *)
theory JS_Dict
  imports JS_Value
begin

text \<open>
  Objects used as dictionaries. The interface is reading, assigning and deleting a property; its
  laws say what is read afterwards. The clients build dictionaries by assigning in a loop, and the
  lemmas about such loops are proved here once from the laws.
\<close>

locale dictionary =
  fixes get :: "'d \<Rightarrow> 'k \<Rightarrow> 'v option"
    and put :: "'k \<Rightarrow> 'v \<Rightarrow> 'd \<Rightarrow> 'd"
    and remove :: "'k \<Rightarrow> 'd \<Rightarrow> 'd"
    and empty :: 'd
  assumes get_empty: "get empty k = None"
    and get_put: "get (put k v d) k' = (if k' = k then Some v else get d k')"
    and get_remove: "get (remove k d) k' = (if k' = k then None else get d k')"
begin

lemma put_remove: "get (remove k (put k v d)) k' = (if k' = k then None else get d k')"
  by (simp add: get_put get_remove)

text \<open>\<open>for (x of xs) d[key(x)] = val(x)\<close>.\<close>

lemma get_loop:
  "get (foldl (\<lambda>d x. put (key x) (val x) d) d xs) k =
     (if \<exists>x\<in>set xs. key x = k then Some (val (last (filter (\<lambda>x. key x = k) xs))) else get d k)"
  by (induction xs rule: rev_induct) (auto simp: get_put)

lemma get_loop_distinct:
  assumes "distinct (map key xs)" "x \<in> set xs"
  shows "get (foldl (\<lambda>d x. put (key x) (val x) d) d xs) (key x) = Some (val x)"
proof -
  have "filter (\<lambda>y. key y = key x) xs = [x]"
    using assms by (induction xs) (auto simp: filter_empty_conv image_iff)
  then show ?thesis
    using assms(2) by (auto simp: get_loop)
qed

lemma get_loop_other: "k \<notin> key ` set xs \<Longrightarrow> get (foldl (\<lambda>d x. put (key x) (val x) d) d xs) k = get d k"
  by (auto simp: get_loop)

text \<open>\<open>for (x of xs) if (val(x) !== null) d[key(x)] = val(x)\<close>.\<close>

lemma get_optional_loop:
  assumes "distinct (map key xs)" "x \<in> set xs" "get d (key x) = None"
  shows "get (foldl (\<lambda>d x. case val x of Some v \<Rightarrow> put (key x) v d | None \<Rightarrow> d) d xs) (key x) = val x"
  using assms
proof (induction xs arbitrary: x rule: rev_induct)
  case (snoc y xs)
  have skip: "get (foldl (\<lambda>d x. case val x of Some v \<Rightarrow> put (key x) v d | None \<Rightarrow> d) d ys) k = get d k"
    if "k \<notin> key ` set ys" for ys k
    using that by (induction ys rule: rev_induct) (auto simp: get_put split: option.splits)
  show ?case
  proof (cases "x = y")
    case True
    then show ?thesis
      using snoc.prems skip [of "key y" xs] by (auto simp: get_put split: option.split)
  next
    case False
    then show ?thesis
      using snoc by (auto simp: get_put image_iff split: option.split)
  qed
qed simp

end

interpretation js_object: dictionary map_of obj_put obj_delete "[]"
  by unfold_locales (simp_all add: map_of_obj_put map_of_obj_delete)

end
