(* ===== verification/PricingEditor.thy ===== *)
theory PricingEditor
  imports PricingModel JS_Dict
begin

text \<open>
  The hook \<open>useModelPricingEditorState\<close>: the state of the pricing editor and its handlers.

  Each \<open>useState\<close> variable is a field of \<open>editor\<close>; a handler returns the state after its updates.
  The three effects that repair the state after a render (the page, the ticked models, the
  selected model) are operations of their own. \<open>localeCompare\<close>, the requests and the reload are
  parameters. Notifications are the \<open>notice\<close> values.
\<close>

definition PAGE_SIZE :: int where
  "PAGE_SIZE = 10"

datatype filter_mode = FilterAll | FilterUnset

record pricing_options =
  option_values :: "option_key \<Rightarrow> jstr option"
  option_completion_meta :: "jstr option"

record editor =
  models :: "pricing_model list"
  initialVisibleModelNames :: "jstr list"
  selectedModelName :: jstr
  selectedModelNames :: "jstr list"
  searchText :: jstr
  currentPage :: int
  loading :: bool
  conflictOnly :: bool
  optionalFieldToggles :: "(jstr \<times> toggles) list"

definition initial_editor :: editor where
  "initial_editor =
     \<lparr>models = [], initialVisibleModelNames = [], selectedModelName = [], selectedModelNames = [],
      searchText = [], currentPage = 1, loading = False, conflictOnly = False, optionalFieldToggles = []\<rparr>"

datatype notice = EnterModelName | ModelNameExists | SelectTemplate | TickModels | Applied jstr nat


subsection \<open>Loading the options\<close>

definition source_maps_of :: "pricing_options \<Rightarrow> source_maps" where
  "source_maps_of opts =
     \<lparr>maps = (\<lambda>k. parseOptionJSON (option_values opts k)),
      completionRatioMeta = parseOptionJSON (option_completion_meta opts)\<rparr>"

definition option_names :: "jstr list \<Rightarrow> source_maps \<Rightarrow> jstr list" where
  "option_names candidates src =
     uniq (candidates @ map fst (maps src ModelPrice) @ map fst (maps src ModelRatio)
       @ map fst (maps src CompletionRatio) @ map fst (completionRatioMeta src) @ map fst (maps src CacheRatio)
       @ map fst (maps src CreateCacheRatio) @ map fst (maps src ImageRatio) @ map fst (maps src AudioRatio)
       @ map fst (maps src AudioCompletionRatio))"

definition visible_on_load :: "filter_mode \<Rightarrow> pricing_model list \<Rightarrow> pricing_model list" where
  "visible_on_load mode ms = (if mode = FilterUnset then filter isBasePricingUnset ms else ms)"

definition first_name :: "pricing_model list \<Rightarrow> jstr" where
  "first_name ms = (case ms of [] \<Rightarrow> [] | m # _ \<Rightarrow> model_name m)"

definition load_options ::
    "(jstr \<Rightarrow> jstr \<Rightarrow> int) \<Rightarrow> filter_mode \<Rightarrow> jstr list \<Rightarrow> pricing_options \<Rightarrow> editor \<Rightarrow> editor" where
  "load_options localeCompare mode candidates opts st =
     (let src = source_maps_of opts;
          nextModels = sort_by (\<lambda>a b. localeCompare (model_name a) (model_name b))
            (map (\<lambda>name. buildModelState name src) (option_names candidates src));
          previous = selectedModelName st
      in st\<lparr>models := nextModels,
            initialVisibleModelNames := map model_name (visible_on_load mode nextModels),
            optionalFieldToggles :=
              foldl (\<lambda>acc model. obj_put (model_name model) (buildOptionalFieldToggles model) acc) [] nextModels,
            selectedModelName :=
              (if previous \<noteq> [] \<and> list_ex (\<lambda>model. model_name model = previous) nextModels then previous
               else first_name (visible_on_load mode nextModels))\<rparr>)"


subsection \<open>Values derived from the state\<close>

definition visibleModels :: "filter_mode \<Rightarrow> editor \<Rightarrow> pricing_model list" where
  "visibleModels mode st =
     (if mode = FilterUnset then filter (\<lambda>model. model_name model \<in> set (initialVisibleModelNames st)) (models st)
      else models st)"

definition filteredModels :: "filter_mode \<Rightarrow> editor \<Rightarrow> pricing_model list" where
  "filteredModels mode st =
     filter (\<lambda>model.
       let keyword = to_lower (trim (searchText st));
           keywordMatch = (if keyword \<noteq> [] then includes_str (to_lower (model_name model)) keyword else True);
           conflictMatch = (if conflictOnly st then hasConflict model else True)
       in keywordMatch \<and> conflictMatch) (visibleModels mode st)"

definition pagedData :: "filter_mode \<Rightarrow> editor \<Rightarrow> pricing_model list" where
  "pagedData mode st =
     (let start = (currentPage st - 1) * PAGE_SIZE in slice start (start + PAGE_SIZE) (filteredModels mode st))"

definition selectedModel :: "filter_mode \<Rightarrow> editor \<Rightarrow> pricing_model option" where
  "selectedModel mode st = find (\<lambda>model. model_name model = selectedModelName st) (visibleModels mode st)"


subsection \<open>Effects after a render\<close>

definition reset_page :: "editor \<Rightarrow> editor" where
  "reset_page st = st\<lparr>currentPage := 1\<rparr>"

definition prune_ticked :: "filter_mode \<Rightarrow> editor \<Rightarrow> editor" where
  "prune_ticked mode st =
     st\<lparr>selectedModelNames :=
         filter (\<lambda>name. list_ex (\<lambda>model. model_name model = name) (visibleModels mode st)) (selectedModelNames st)\<rparr>"

definition repair_selected :: "filter_mode \<Rightarrow> editor \<Rightarrow> editor" where
  "repair_selected mode st =
     (if visibleModels mode st = [] then st\<lparr>selectedModelName := []\<rparr>
      else if \<not> list_ex (\<lambda>model. model_name model = selectedModelName st) (visibleModels mode st)
      then st\<lparr>selectedModelName := model_name (hd (visibleModels mode st))\<rparr>
      else st)"

definition settle :: "filter_mode \<Rightarrow> editor \<Rightarrow> editor" where
  "settle mode st = repair_selected mode (prune_ticked mode st)"


subsection \<open>Handlers\<close>

definition upsertModel :: "jstr \<Rightarrow> (pricing_model \<Rightarrow> pricing_model) \<Rightarrow> editor \<Rightarrow> editor" where
  "upsertModel name updater st =
     st\<lparr>models := map (\<lambda>model. if model_name model \<noteq> name then model else updater model) (models st)\<rparr>"

definition isOptionalFieldEnabled :: "editor \<Rightarrow> pricing_model option \<Rightarrow> price_field \<Rightarrow> bool option" where
  "isOptionalFieldEnabled st model field =
     (case model of
        None \<Rightarrow> Some False
      | Some m \<Rightarrow>
          (case Option.bind (map_of (optionalFieldToggles st) (model_name m)) (\<lambda>ts. ts field) of
             Some b \<Rightarrow> Some b
           | None \<Rightarrow> buildOptionalFieldToggles m field))"

definition toggles_of :: "editor \<Rightarrow> jstr \<Rightarrow> toggles" where
  "toggles_of st name = (case map_of (optionalFieldToggles st) name of Some ts \<Rightarrow> ts | None \<Rightarrow> (\<lambda>_. None))"

definition updateOptionalFieldToggle :: "jstr \<Rightarrow> price_field \<Rightarrow> bool \<Rightarrow> editor \<Rightarrow> editor" where
  "updateOptionalFieldToggle name field checked st =
     st\<lparr>optionalFieldToggles := obj_put name ((toggles_of st name)(field \<mapsto> checked)) (optionalFieldToggles st)\<rparr>"

definition set_price :: "price_field \<Rightarrow> jstr \<Rightarrow> pricing_model \<Rightarrow> pricing_model" where
  "set_price field v model =
     (case field of
        FixedPrice \<Rightarrow> model\<lparr>fixedPrice := v\<rparr>
      | InputPrice \<Rightarrow> model\<lparr>inputPrice := v\<rparr>
      | CompletionPrice \<Rightarrow> model\<lparr>completionPrice := v\<rparr>
      | CachePrice \<Rightarrow> model\<lparr>cachePrice := v\<rparr>
      | CreateCachePrice \<Rightarrow> model\<lparr>createCachePrice := v\<rparr>
      | ImagePrice \<Rightarrow> model\<lparr>imagePrice := v\<rparr>
      | AudioInputPrice \<Rightarrow> model\<lparr>audioInputPrice := v\<rparr>
      | AudioOutputPrice \<Rightarrow> model\<lparr>audioOutputPrice := v\<rparr>)"

definition handleOptionalFieldToggle :: "filter_mode \<Rightarrow> price_field \<Rightarrow> bool \<Rightarrow> editor \<Rightarrow> editor" where
  "handleOptionalFieldToggle mode field checked st =
     (case selectedModel mode st of
        None \<Rightarrow> st
      | Some sel \<Rightarrow>
          (let name = model_name sel; st1 = updateOptionalFieldToggle name field checked st
           in if checked then st1
              else let st2 = upsertModel name (\<lambda>model.
                       let nextModel = set_price field [] model
                       in if field = AudioInputPrice then nextModel\<lparr>audioOutputPrice := []\<rparr> else nextModel) st1
                in if field = AudioInputPrice
                   then updateOptionalFieldToggle name AudioOutputPrice False
                          (updateOptionalFieldToggle name AudioInputPrice False st2)
                   else st2))"

text \<open>A price filled in from a ratio where the model has none yet.\<close>

definition fill_price :: "jsnum \<Rightarrow> jstr \<Rightarrow> jstr \<Rightarrow> jstr" where
  "fill_price base price ratio =
     (if \<not> hasText price \<and> hasText ratio then formatNumber (Num (num_mul base (string_to_num ratio))) else price)"

definition fillDerivedPricesFromBase :: "pricing_model \<Rightarrow> jstr \<Rightarrow> pricing_model" where
  "fillDerivedPricesFromBase model nextInputPrice =
     (case toNumberOrNull (Str nextInputPrice) of
        None \<Rightarrow> model
      | Some base \<Rightarrow>
          (let raw = rawRatios model
           in model
             \<lparr>completionPrice :=
                (if completionRatioLocked model \<and> hasText (lockedCompletionRatio model)
                 then formatNumber (Num (num_mul base (string_to_num (lockedCompletionRatio model))))
                 else fill_price base (completionPrice model) (completionRatio raw)),
              cachePrice := fill_price base (cachePrice model) (cacheRatio raw),
              createCachePrice := fill_price base (createCachePrice model) (createCacheRatio raw),
              imagePrice := fill_price base (imagePrice model) (imageRatio raw),
              audioInputPrice := fill_price base (audioInputPrice model) (audioRatio raw),
              audioOutputPrice :=
                (if \<not> hasText (audioOutputPrice model) \<and> hasText (audioRatio raw) \<and> hasText (audioCompletionRatio raw)
                 then formatNumber (Num (num_mul (num_mul base (string_to_num (audioRatio raw)))
                        (string_to_num (audioCompletionRatio raw))))
                 else audioOutputPrice model)\<rparr>))"

definition handleNumericFieldChange :: "filter_mode \<Rightarrow> price_field \<Rightarrow> jstr \<Rightarrow> editor \<Rightarrow> editor" where
  "handleNumericFieldChange mode field v st =
     (case selectedModel mode st of
        None \<Rightarrow> st
      | Some sel \<Rightarrow>
          if \<not> NUMERIC_INPUT_REGEX v then st
          else upsertModel (model_name sel) (\<lambda>model.
                 let updatedModel = set_price field v model
                 in if field = InputPrice then fillDerivedPricesFromBase updatedModel v else updatedModel) st)"

definition handleBillingModeChange :: "filter_mode \<Rightarrow> billing_mode \<Rightarrow> editor \<Rightarrow> editor" where
  "handleBillingModeChange mode v st =
     (case selectedModel mode st of
        None \<Rightarrow> st
      | Some sel \<Rightarrow> upsertModel (model_name sel) (\<lambda>model. model\<lparr>billingMode := v\<rparr>) st)"

definition addModel :: "jstr \<Rightarrow> editor \<Rightarrow> notice + editor" where
  "addModel modelName st =
     (let trimmedName = trim modelName
      in if trimmedName = [] then Inl EnterModelName
         else if list_ex (\<lambda>model. model_name model = trimmedName) (models st) then Inl ModelNameExists
         else let nextModel = EMPTY_MODEL\<lparr>model_name := trimmedName\<rparr>
           in Inr (st\<lparr>models := nextModel # models st,
                     optionalFieldToggles :=
                       obj_put trimmedName (buildOptionalFieldToggles nextModel) (optionalFieldToggles st),
                     selectedModelName := trimmedName,
                     currentPage := 1\<rparr>))"

definition deleteModel :: "jstr \<Rightarrow> editor \<Rightarrow> editor" where
  "deleteModel name st =
     (let nextModels = filter (\<lambda>model. model_name model \<noteq> name) (models st)
      in st\<lparr>models := nextModels,
            optionalFieldToggles := obj_delete name (optionalFieldToggles st),
            selectedModelNames := filter (\<lambda>item. item \<noteq> name) (selectedModelNames st),
            selectedModelName :=
              (if selectedModelName st = name then first_name nextModels else selectedModelName st)\<rparr>)"

text \<open>The template's prices on another model; a completion ratio fixed by the backend stays.\<close>

definition apply_template :: "pricing_model \<Rightarrow> pricing_model \<Rightarrow> pricing_model" where
  "apply_template sel model =
     (let nextModel = model
            \<lparr>billingMode := billingMode sel, fixedPrice := fixedPrice sel, inputPrice := inputPrice sel,
             completionPrice := completionPrice sel, cachePrice := cachePrice sel,
             createCachePrice := createCachePrice sel, imagePrice := imagePrice sel,
             audioInputPrice := audioInputPrice sel, audioOutputPrice := audioOutputPrice sel\<rparr>
      in if billingMode nextModel = PerToken \<and> completionRatioLocked nextModel
            \<and> hasText (inputPrice nextModel) \<and> hasText (lockedCompletionRatio nextModel)
         then nextModel\<lparr>completionPrice :=
                formatNumber (Num (num_mul (string_to_num (inputPrice nextModel))
                  (string_to_num (lockedCompletionRatio nextModel))))\<rparr>
         else nextModel)"

definition template_toggles :: "toggles \<Rightarrow> bool \<Rightarrow> toggles" where
  "template_toggles source locked f =
     (let on = (\<lambda>g. source g = Some True)
      in case f of
           CompletionPrice \<Rightarrow> Some (if locked then True else on CompletionPrice)
         | CachePrice \<Rightarrow> Some (on CachePrice)
         | CreateCachePrice \<Rightarrow> Some (on CreateCachePrice)
         | ImagePrice \<Rightarrow> Some (on ImagePrice)
         | AudioInputPrice \<Rightarrow> Some (on AudioInputPrice)
         | AudioOutputPrice \<Rightarrow> Some (on AudioInputPrice \<and> on AudioOutputPrice)
         | _ \<Rightarrow> None)"

definition applySelectedModelPricing :: "filter_mode \<Rightarrow> editor \<Rightarrow> notice + (editor \<times> notice)" where
  "applySelectedModelPricing mode st =
     (case selectedModel mode st of
        None \<Rightarrow> Inl SelectTemplate
      | Some sel \<Rightarrow>
          if selectedModelNames st = [] then Inl TickModels
          else let sourceToggles = toggles_of st (model_name sel);
                   locked = (\<lambda>name. case find (\<lambda>item. model_name item = name) (models st) of
                                       Some m \<Rightarrow> completionRatioLocked m | None \<Rightarrow> False)
            in Inr (st\<lparr>models :=
                       map (\<lambda>model. if model_name model \<notin> set (selectedModelNames st) then model
                                    else apply_template sel model) (models st),
                      optionalFieldToggles :=
                        foldl (\<lambda>next' name. obj_put name (template_toggles sourceToggles (locked name)) next')
                          (optionalFieldToggles st) (selectedModelNames st)\<rparr>,
                    Applied (model_name sel) (length (selectedModelNames st))))"


subsection \<open>Saving\<close>

text \<open>The loop over the models, which stops at the first one that cannot be serialized.\<close>

fun serialize_all :: "pricing_model list \<Rightarrow> pricing_error + (jstr \<times> serialized) list" where
  "serialize_all [] = Inr []"
| "serialize_all (m # ms) =
     (case serializeModel m of
        Inl e \<Rightarrow> Inl e
      | Inr ser \<Rightarrow>
          (case serialize_all ms of Inl e \<Rightarrow> Inl e | Inr sers \<Rightarrow> Inr ((model_name m, ser) # sers)))"

definition output_of :: "(jstr \<times> serialized) list \<Rightarrow> option_key \<Rightarrow> (jstr \<times> jsval) list" where
  "output_of sers k =
     foldl (\<lambda>acc p. case map_option Num (snd p k) of Some v \<Rightarrow> obj_put (fst p) v acc | None \<Rightarrow> acc) [] sers"

definition save_requests :: "(jstr \<times> serialized) list \<Rightarrow> (option_key \<times> jstr) list" where
  "save_requests sers = map (\<lambda>k. (k, json_stringify2 (Obj (output_of sers k)))) option_keys"

record response =
  success :: bool
  message :: jstr

datatype save_outcome = Saved | NotSerializable pricing_error | SaveFailed jstr

text \<open>
  \<open>send\<close> is the requests and \<open>Promise.all\<close>: the message of a rejection, or all responses.
  \<open>reload\<close> is \<open>refresh()\<close>: the message of its rejection, if any. \<open>retry\<close> is the text shown
  when there is no message.
\<close>

definition handleSubmit ::
    "((option_key \<times> jstr) list \<Rightarrow> jstr + response list) \<Rightarrow> jstr option \<Rightarrow> jstr \<Rightarrow> editor \<Rightarrow> editor \<times> save_outcome" where
  "handleSubmit send reload retry st =
     (let text = (\<lambda>s. if s = [] then retry else s);
          outcome =
            (case serialize_all (models st) of
               Inl e \<Rightarrow> NotSerializable e
             | Inr sers \<Rightarrow>
                 (case send (save_requests sers) of
                    Inl msg \<Rightarrow> SaveFailed (text msg)
                  | Inr results \<Rightarrow>
                      (case find (\<lambda>res. \<not> success res) results of
                         Some res \<Rightarrow> SaveFailed (text (message res))
                       | None \<Rightarrow> (case reload of Some msg \<Rightarrow> SaveFailed (text msg) | None \<Rightarrow> Saved))))
      in (st\<lparr>loading := False\<rparr>, outcome))"


subsection \<open>The editor as a state machine\<close>

inductive editor_step :: "(jstr \<Rightarrow> jstr \<Rightarrow> int) \<Rightarrow> filter_mode \<Rightarrow> editor \<Rightarrow> editor \<Rightarrow> bool"
  for localeCompare mode where
  load: "editor_step localeCompare mode st (load_options localeCompare mode candidates opts st)"
| select: "editor_step localeCompare mode st (st\<lparr>selectedModelName := name\<rparr>)"
| tick: "editor_step localeCompare mode st (st\<lparr>selectedModelNames := names\<rparr>)"
| search: "editor_step localeCompare mode st (st\<lparr>searchText := text\<rparr>)"
| page: "editor_step localeCompare mode st (st\<lparr>currentPage := n\<rparr>)"
| conflicts: "editor_step localeCompare mode st (st\<lparr>conflictOnly := b\<rparr>)"
| first_page: "editor_step localeCompare mode st (reset_page st)"
| prune: "editor_step localeCompare mode st (prune_ticked mode st)"
| repair: "editor_step localeCompare mode st (repair_selected mode st)"
| toggle: "editor_step localeCompare mode st (handleOptionalFieldToggle mode field checked st)"
| numeric: "editor_step localeCompare mode st (handleNumericFieldChange mode field v st)"
| billing: "editor_step localeCompare mode st (handleBillingModeChange mode b st)"
| add: "addModel name st = Inr st' \<Longrightarrow> editor_step localeCompare mode st st'"
| delete: "editor_step localeCompare mode st (deleteModel name st)"
| apply_pricing: "applySelectedModelPricing mode st = Inr (st', note) \<Longrightarrow> editor_step localeCompare mode st st'"
| submit: "editor_step localeCompare mode st (fst (handleSubmit send reload retry st))"

abbreviation reachable :: "(jstr \<Rightarrow> jstr \<Rightarrow> int) \<Rightarrow> filter_mode \<Rightarrow> editor \<Rightarrow> bool" where
  "reachable localeCompare mode st \<equiv> (editor_step localeCompare mode)\<^sup>*\<^sup>* initial_editor st"

text \<open>Names are unique, and every model has its switches.\<close>

definition toggle_names :: "editor \<Rightarrow> jstr set" where
  "toggle_names st = fst ` set (optionalFieldToggles st)"

definition editor_inv :: "editor \<Rightarrow> bool" where
  "editor_inv st \<longleftrightarrow> distinct (map model_name (models st)) \<and> model_name ` set (models st) \<subseteq> toggle_names st"

lemma keys_obj_put [simp]: "fst ` set (obj_put k v ps) = insert k (fst ` set ps)"
  by (simp flip: dom_map_of_conv_image_fst)

lemma keys_obj_delete [simp]: "fst ` set (obj_delete k ps) = fst ` set ps - {k}"
  by (simp flip: dom_map_of_conv_image_fst)

lemma keys_put_loop [simp]:
  "fst ` set (foldl (\<lambda>acc x. obj_put (key x) (f x) acc) acc xs) = key ` set xs \<union> fst ` set acc"
  by (induction xs rule: rev_induct) auto

lemma keys_put_names:
  "fst ` set (foldl (\<lambda>acc x. obj_put x (f x) acc) acc xs) = set xs \<union> fst ` set acc"
  using keys_put_loop [of "\<lambda>x. x"] by simp

lemma editor_inv_names:
  assumes "editor_inv st" "map model_name (models st') = map model_name (models st)" "toggle_names st \<subseteq> toggle_names st'"
  shows "editor_inv st'"
proof -
  have "model_name ` set (models st') = model_name ` set (models st)"
    using assms(2) by (metis list.set_map)
  then show ?thesis
    using assms unfolding editor_inv_def by auto
qed

lemma editor_inv_same:
  "editor_inv st \<Longrightarrow> models st' = models st \<Longrightarrow> optionalFieldToggles st' = optionalFieldToggles st \<Longrightarrow> editor_inv st'"
  by (simp add: editor_inv_def toggle_names_def)

lemma buildModelState_name [simp]: "model_name (buildModelState name src) = name"
  by (simp add: build_simps)

lemma load_inv: "editor_inv (load_options localeCompare mode candidates opts st)"
  unfolding editor_inv_def load_options_def Let_def toggle_names_def
  by (auto simp: comp_def option_names_def)

lemma upsert_names [simp]:
  assumes "\<And>m. model_name (f m) = model_name m"
  shows "map model_name (models (upsertModel name f st)) = map model_name (models st)"
  using assms by (simp add: upsertModel_def)

lemma toggle_names_simps [simp]:
  "toggle_names (upsertModel name f st) = toggle_names st"
  "toggle_names (updateOptionalFieldToggle name field b st) = insert name (toggle_names st)"
  "models (updateOptionalFieldToggle name field b st) = models st"
  by (simp_all add: toggle_names_def upsertModel_def updateOptionalFieldToggle_def)

lemma set_price_name [simp]: "model_name (set_price field v m) = model_name m"
  by (simp add: set_price_def split: price_field.split)

lemma fill_name [simp]: "model_name (fillDerivedPricesFromBase m v) = model_name m"
  by (simp add: fillDerivedPricesFromBase_def Let_def split: option.split)

lemma toggle_inv: "editor_inv st \<Longrightarrow> editor_inv (handleOptionalFieldToggle mode field checked st)"
  by (erule editor_inv_names)
    (auto simp: handleOptionalFieldToggle_def Let_def split: option.splits)

lemma numeric_inv: "editor_inv st \<Longrightarrow> editor_inv (handleNumericFieldChange mode field v st)"
  by (erule editor_inv_names) (auto simp: handleNumericFieldChange_def Let_def split: option.split)

lemma billing_inv: "editor_inv st \<Longrightarrow> editor_inv (handleBillingModeChange mode b st)"
  by (erule editor_inv_names) (auto simp: handleBillingModeChange_def split: option.split)

lemma add_inv:
  assumes "editor_inv st" "addModel name st = Inr st'"
  shows "editor_inv st'"
proof -
  have "trim name \<notin> model_name ` set (models st)"
    using assms(2) by (force simp: addModel_def Let_def list_ex_iff split: if_splits)
  moreover have "map model_name (models st') = trim name # map model_name (models st)"
    "toggle_names st' = insert (trim name) (toggle_names st)"
    using assms(2) by (clarsimp simp: addModel_def Let_def toggle_names_def split: if_splits)+
  ultimately show ?thesis
    using assms(1) unfolding editor_inv_def by (metis (no_types, lifting) distinct.simps(2) image_set insert_mono list.set(2) list.set_map)
qed

lemma delete_inv: "editor_inv st \<Longrightarrow> editor_inv (deleteModel name st)"
  by (auto simp: deleteModel_def Let_def editor_inv_def toggle_names_def distinct_map inj_on_def)

lemma apply_template_name [simp]: "model_name (apply_template sel m) = model_name m"
  by (simp add: apply_template_def Let_def)

lemma apply_inv:
  assumes "editor_inv st" "applySelectedModelPricing mode st = Inr (st', note)"
  shows "editor_inv st'"
  using assms(1)
proof (rule editor_inv_names)
  show "map model_name (models st') = map model_name (models st)"
    using assms(2) by (auto simp: applySelectedModelPricing_def Let_def split: option.splits if_splits)
  have "toggle_names st' = set (selectedModelNames st) \<union> toggle_names st"
    using assms(2)
    by (clarsimp simp: applySelectedModelPricing_def Let_def toggle_names_def keys_put_names
        split: option.splits if_splits)
  then show "toggle_names st \<subseteq> toggle_names st'"
    by simp
qed

lemma editor_inv_frame [simp]:
  "editor_inv (st\<lparr>selectedModelName := n\<rparr>) = editor_inv st"
  "editor_inv (st\<lparr>selectedModelNames := ns\<rparr>) = editor_inv st"
  "editor_inv (st\<lparr>searchText := s\<rparr>) = editor_inv st"
  "editor_inv (st\<lparr>currentPage := p\<rparr>) = editor_inv st"
  "editor_inv (st\<lparr>conflictOnly := b\<rparr>) = editor_inv st"
  "editor_inv (st\<lparr>loading := b\<rparr>) = editor_inv st"
  by (simp_all add: editor_inv_def toggle_names_def)

lemma editor_inv_effects [simp]:
  "editor_inv (reset_page st) = editor_inv st" "editor_inv (prune_ticked mode st) = editor_inv st"
  "editor_inv (repair_selected mode st) = editor_inv st" "editor_inv (fst (handleSubmit send reload retry st)) = editor_inv st"
  by (simp_all add: reset_page_def prune_ticked_def repair_selected_def handleSubmit_def Let_def)

lemmas editor_inv_steps = load_inv toggle_inv numeric_inv billing_inv delete_inv

lemma step_inv:
  assumes "editor_step localeCompare mode st st'" "editor_inv st"
  shows "editor_inv st'"
  using assms(1)
proof cases
  case (add name)
  then show ?thesis
    using assms(2) by (rule add_inv [rotated])
next
  case apply_pricing
  then show ?thesis
    using assms(2) by (rule apply_inv [rotated])
qed (use assms(2) in \<open>simp_all add: editor_inv_steps\<close>)

lemma reachable_inv: "reachable localeCompare mode st \<Longrightarrow> editor_inv st"
proof (induction rule: rtranclp_induct)
  case base
  then show ?case
    by (simp add: initial_editor_def editor_inv_def)
next
  case (step st st')
  then show ?case
    by (blast intro: step_inv)
qed



subsection \<open>Saving and reading back\<close>

lemma serialize_all_map:
  "serialize_all ms = Inr sers \<Longrightarrow>
     map fst sers = map model_name ms \<and> (\<forall>m\<in>set ms. \<exists>ser. serializeModel m = Inr ser \<and> (model_name m, ser) \<in> set sers)"
  by (induction ms arbitrary: sers) (auto split: sum.splits)

lemma serialize_all_from:
  "serialize_all ms = Inr sers \<Longrightarrow> p \<in> set sers \<Longrightarrow> \<exists>m\<in>set ms. model_name m = fst p \<and> serializeModel m = Inr (snd p)"
  by (induction ms arbitrary: sers) (auto split: sum.splits)

lemma output_lookup:
  assumes "distinct (map fst sers)" "(n, ser) \<in> set sers"
  shows "map_of (output_of sers k) n = map_option Num (ser k)"
  unfolding output_of_def
  using js_object.get_optional_loop [of fst sers "(n, ser)" "[]" "\<lambda>p. map_option Num (snd p k)"] assms by simp

lemma serialized_double:
  assumes "serializeModel m = Inr ser" "ser k = Some n"
  shows "\<exists>x. n = Fin x \<and> is_double x"
proof -
  have stable: "toNormalizedNumber (Num n) = Some n"
    using stable_serialized [OF assms(1), of k] assms(2) by (simp add: stable_result_def)
  then have "is_finite n"
    by (cases n) (auto simp: toNormalizedNumber_def formatNumber_def pricing_simps)
  moreover have "wf_num n"
  proof -
    have "toNormalizedNumber v = Some m \<Longrightarrow> wf_num m" for v m
      by (auto simp: toNormalizedNumber_def Let_def split: if_splits)
    from this [OF stable] show ?thesis .
  qed
  ultimately show ?thesis
    by (metis is_finite_iff wf_num_simps(4))
qed

lemma wf_output:
  assumes "\<forall>p\<in>set sers. wf_str (fst p) \<and> (\<forall>n. snd p k = Some n \<longrightarrow> (\<exists>x. n = Fin x \<and> is_double x))"
  shows "wf_val (Obj (output_of sers k)) \<and> json_ok (Obj (output_of sers k))"
  using assms
proof (induction sers rule: rev_induct)
  case (snoc p sers)
  let ?o = "output_of sers k"
  have ih: "wf_val (Obj ?o)" "json_ok (Obj ?o)"
    using snoc by auto
  have o: "output_of (sers @ [p]) k = (case map_option Num (snd p k) of Some v \<Rightarrow> obj_put (fst p) v ?o | None \<Rightarrow> ?o)"
    by (simp only: output_of_def foldl_append foldl_Cons foldl_Nil)
  show ?case
  proof (cases "snd p k")
    case (Some n)
    then obtain x where x: "n = Fin x" "is_double x"
      using snoc.prems by auto
    have "wf_val (Obj (obj_put (fst p) (Num n) ?o))"
      using ih(1) snoc.prems x by (intro wf_obj_put) auto
    moreover have "json_ok (Obj (obj_put (fst p) (Num n) ?o))"
      using ih(2) x set_obj_put [of "fst p" "Num n" ?o] by auto
    ultimately show ?thesis
      unfolding o Some by simp
  qed (use ih o in simp)
qed (simp add: output_of_def)

lemma parseOptionJSON_stringify:
  assumes "wf_val (Obj ps)" "json_ok (Obj ps)"
  shows "parseOptionJSON (Some (json_stringify2 (Obj ps))) = ps"
proof -
  have "json_parse (json_stringify2 (Obj ps)) = Some (Obj ps)"
    using json_parse_stringify2 [OF assms(1)] json_norm_ok [OF assms(2)] by simp
  moreover have "trim (json_stringify2 (Obj ps)) \<noteq> []"
    by (auto simp: trim_eq_Nil_iff json_stringify2_def json_block_def Let_def is_ws_def)
  ultimately show ?thesis
    by (simp add: parseOptionJSON_def is_object_def own_properties_def)
qed


lemma visible_frame [simp]:
  "visibleModels mode (st\<lparr>selectedModelName := n\<rparr>) = visibleModels mode st"
  "visibleModels mode (st\<lparr>selectedModelNames := ns\<rparr>) = visibleModels mode st"
  "visibleModels mode (st\<lparr>currentPage := p\<rparr>) = visibleModels mode st"
  by (simp_all add: visibleModels_def)

lemma page_slice:
  "pagedData mode (st\<lparr>currentPage := int (Suc p)\<rparr>) = take 10 (drop (10 * p) (filteredModels mode st))"
  by (simp add: pagedData_def PAGE_SIZE_def filteredModels_def slice_nonneg nat_mult_distrib mult.commute)

lemma concat_pages: "concat (map (\<lambda>p. take k (drop (k * p) xs)) [0..<n]) = take (k * n) xs"
  by (induction n) (simp_all add: take_add add.commute [of k])


subsection \<open>Properties\<close>

text \<open>
  C22: in every state the editor can reach, by loading options, by any handler and by any effect,
  model names are unique and every model has its entry among the switches of optional fields.
\<close>

theorem editor_names_unique:
  assumes "reachable localeCompare mode st"
  shows "distinct (map model_name (models st)) \<and> (\<forall>m\<in>set (models st). map_of (optionalFieldToggles st) (model_name m) \<noteq> None)"
proof -
  have "distinct (map model_name (models st))" "model_name ` set (models st) \<subseteq> dom (map_of (optionalFieldToggles st))"
    using reachable_inv [OF assms] by (auto simp: editor_inv_def toggle_names_def dom_map_of_conv_image_fst)
  then show ?thesis
    by blast
qed

theorem editor_names_unique_witness:
  "distinct (map model_name (models (deleteModel (str ''b'') (load_options (\<lambda>_ _. 0) FilterAll [str ''a'', str ''b'', str ''a'']
     \<lparr>option_values = (\<lambda>_. None), option_completion_meta = None\<rparr> initial_editor))))"
proof -
  let ?opts = "\<lparr>option_values = (\<lambda>_. None), option_completion_meta = None\<rparr>"
  let ?st = "load_options (\<lambda>_ _. 0) FilterAll [str ''a'', str ''b'', str ''a''] ?opts initial_editor"
  have "reachable (\<lambda>_ _. 0) FilterAll (deleteModel (str ''b'') ?st)"
    by (meson converse_rtranclp_into_rtranclp editor_step.delete editor_step.load rtranclp.rtrancl_refl)
  then show ?thesis
    using editor_names_unique by blast
qed

text \<open>
  C21: saving is read back exactly. Whatever the user did before, if all models can be
  serialized, then each of the eight saved texts parses to an object in which every model has
  the number computed for it, and none where none was computed.
\<close>

theorem saved_options_read_back:
  assumes "reachable localeCompare mode st" "serialize_all (models st) = Inr sers"
    and "m \<in> set (models st)" "(k, text) \<in> set (save_requests sers)"
    and "\<forall>m\<in>set (models st). wf_str (model_name m)"
  shows "\<exists>ser. serializeModel m = Inr ser
    \<and> lookup (parseOptionJSON (Some text)) (model_name m) = (case ser k of Some n \<Rightarrow> Num n | None \<Rightarrow> Undefined)"
proof -
  obtain ser where ser: "serializeModel m = Inr ser" "(model_name m, ser) \<in> set sers"
    using serialize_all_map [OF assms(2)] assms(3) by blast
  have names: "map fst sers = map model_name (models st)"
    using serialize_all_map [OF assms(2)] by blast
  then have "distinct (map fst sers)"
    using reachable_inv [OF assms(1)] by (simp add: editor_inv_def)
  then have out: "map_of (output_of sers k) (model_name m) = map_option Num (ser k)"
    using ser(2) by (rule output_lookup)
  have "\<forall>p\<in>set sers. wf_str (fst p) \<and> (\<forall>n. snd p k = Some n \<longrightarrow> (\<exists>x. n = Fin x \<and> is_double x))"
    using serialize_all_from [OF assms(2)] assms(5) serialized_double by metis
  then have "parseOptionJSON (Some text) = output_of sers k"
    using assms(4) wf_output [of sers k] parseOptionJSON_stringify by (auto simp: save_requests_def)
  then show ?thesis
    using ser(1) out by (auto simp: lookup_def split: option.split)
qed

definition demo_options :: pricing_options where
  "demo_options =
     \<lparr>option_values = (\<lambda>k. if k = ModelRatio then Some (str ''{\"a\": 5, \"b\": 1}'') else None),
      option_completion_meta = None\<rparr>"

definition demo_editor :: editor where
  "demo_editor = load_options (\<lambda>_ _. 0) FilterAll [] demo_options initial_editor"

abbreviation demo_model :: "jstr \<Rightarrow> pricing_model" where
  "demo_model name \<equiv> buildModelState name (source_maps_of demo_options)"

lemma demo_names: "option_names [] (source_maps_of demo_options) = [str ''a'', str ''b'']"
  by code_simp

lemma demo_model_name: "model_name (demo_model (str ''a'')) = str ''a''" "model_name (demo_model (str ''b'')) = str ''b''"
  by code_simp+

lemma demo_editor_models:
  "models demo_editor = [demo_model (str ''a''), demo_model (str ''b'')]"
  "selectedModelName demo_editor = str ''a''"
  by (simp_all add: demo_editor_def load_options_def Let_def demo_names sort_by_def visible_on_load_def
      initial_editor_def first_name_def demo_model_name)

lemma demo_serializes:
  "case serializeModel (demo_model (str ''a'')) of Inl e \<Rightarrow> False | Inr ser \<Rightarrow> ser ModelRatio = Some (Fin 5)"
  "case serializeModel (demo_model (str ''b'')) of Inl e \<Rightarrow> False | Inr ser \<Rightarrow> True"
  by code_simp+

theorem saved_options_read_back_witness:
  "\<exists>sers text. serialize_all (models demo_editor) = Inr sers \<and> (ModelRatio, text) \<in> set (save_requests sers)
     \<and> lookup (parseOptionJSON (Some text)) (str ''a'') = Num (Fin 5)"
proof -
  have r: "reachable (\<lambda>_ _. 0) FilterAll demo_editor"
    unfolding demo_editor_def by (rule r_into_rtranclp) (rule editor_step.load)
  obtain sers where sers: "serialize_all (models demo_editor) = Inr sers"
    using demo_serializes by (auto simp: demo_editor_models split: sum.splits)
  obtain json where t: "(ModelRatio, json) \<in> set (save_requests sers)"
    by (auto simp: save_requests_def option_keys_def)
  have m: "demo_model (str ''a'') \<in> set (models demo_editor)"
    by (simp add: demo_editor_models)
  have "wf_str (str ''a'')" "wf_str (str ''b'')"
    by code_simp+
  then have "\<forall>m\<in>set (models demo_editor). wf_str (model_name m)"
    by (simp add: demo_editor_models demo_model_name)
  from saved_options_read_back [OF r sers m t this] show ?thesis
    using sers t demo_serializes(1) by (auto simp: demo_model_name)
qed

text \<open>
  The effects that run after a render stop: one run leaves the selected model among the
  visible ones (or none selected when none is visible) and only visible models ticked, and a
  second run changes nothing.
\<close>

lemma effects_settle:
  "settle mode (settle mode st) = settle mode st
    \<and> set (selectedModelNames (settle mode st)) \<subseteq> model_name ` set (visibleModels mode (settle mode st))
    \<and> (if visibleModels mode (settle mode st) = [] then selectedModelName (settle mode st) = []
       else selectedModel mode (settle mode st) \<noteq> None)"
proof (cases "visibleModels mode st = []")
  case True
  then show ?thesis
    by (simp add: settle_def repair_selected_def prune_ticked_def visible_frame)
next
  case False
  then show ?thesis
    unfolding settle_def prune_ticked_def repair_selected_def
    by (auto simp: visible_frame selectedModel_def find_None_iff list_ex_iff intro: hd_in_set)
qed

text \<open>
  The pages of the table show every model of the filtered list once and in its order, and
  no page has more than ten.
\<close>

lemma pages_partition:
  "concat (map (\<lambda>p. pagedData mode (st\<lparr>currentPage := int (Suc p)\<rparr>)) [0..<Suc (length (filteredModels mode st) div 10)]) =
     filteredModels mode st
   \<and> length (pagedData mode (st\<lparr>currentPage := int (Suc p)\<rparr>)) \<le> 10"
proof -
  have "length (filteredModels mode st) \<le> 10 * Suc (length (filteredModels mode st) div 10)"
    by simp
  then show ?thesis
    unfolding page_slice concat_pages by simp
qed

text \<open>
  Applying a template to the ticked models makes each of them cost what the template costs:
  where neither completion ratio is fixed by the backend and the template has its base price, a
  ticked model is serialized to the same eight numbers as the template.
\<close>

lemma template_prices_apply:
  assumes "applySelectedModelPricing mode st = Inr (st', note)" "selectedModel mode st = Some sel"
    and "m \<in> set (models st)" "model_name m \<in> set (selectedModelNames st)"
    and "\<not> completionRatioLocked m" "\<not> completionRatioLocked sel"
    and "billingMode sel = PerRequest \<or> toNumberOrNull (Str (inputPrice sel)) \<noteq> None" "serializeModel sel = Inr ser"
  shows "\<exists>m'\<in>set (models st'). model_name m' = model_name m \<and> serializeModel m' = Inr ser"
proof -
  let ?m = "apply_template sel m"
  have m': "?m \<in> set (models st')"
    using assms(1-4) by (auto simp: applySelectedModelPricing_def Let_def split: if_splits)
  have "serializeModel ?m = Inr ser"
    using assms(5-8) by (auto simp: apply_template_def serializeModel_def Let_def split: option.splits if_splits)
  then show ?thesis
    using m' by (intro bexI [of _ ?m]) simp_all
qed

lemma template_prices_apply_witness:
  "\<exists>st' n. applySelectedModelPricing FilterAll (demo_editor\<lparr>selectedModelNames := [str ''b'']\<rparr>) = Inr (st', n)
     \<and> (\<exists>m'\<in>set (models st'). model_name m' = str ''b'' \<and> serializeModel m' = serializeModel (demo_model (str ''a'')))"
proof -
  let ?st = "demo_editor\<lparr>selectedModelNames := [str ''b'']\<rparr>"
  let ?sel = "demo_model (str ''a'')" and ?m = "demo_model (str ''b'')"
  have sel: "selectedModel FilterAll ?st = Some ?sel"
    by (simp add: selectedModel_def visibleModels_def demo_editor_models demo_model_name)
  then obtain st' n where st': "applySelectedModelPricing FilterAll ?st = Inr (st', n)"
    by (simp add: applySelectedModelPricing_def Let_def)
  have facts: "\<not> completionRatioLocked ?m" "\<not> completionRatioLocked ?sel" "toNumberOrNull (Str (inputPrice ?sel)) \<noteq> None"
    by code_simp+
  obtain ser where ser: "serializeModel ?sel = Inr ser"
    using demo_serializes by (auto split: sum.splits)
  have "?m \<in> set (models ?st)" "model_name ?m \<in> set (selectedModelNames ?st)"
    by (simp_all add: demo_editor_models demo_model_name)
  from template_prices_apply [OF st' sel this facts(1,2) _ ser] show ?thesis
    using st' facts(3) ser by (auto simp: demo_model_name)
qed

end
