(* ===== verification/ParamOverrideModes.thy ===== *)
theory ParamOverrideModes
  imports JS_JSON
begin

text \<open>
  The tables of the parameter override editor
  (web/src/components/table/channels/modals/ParamOverrideEditorModal.jsx): the modes of operations
  and conditions, what each mode needs, and the labels and placeholders of the form. Labels are
  given by the code units of the Chinese texts of the source.
\<close>


subsection \<open>Modes of operations and conditions\<close>

text \<open>Pairs of a label and a value.\<close>

definition OPERATION_MODE_OPTIONS :: "(jstr \<times> jstr) list" where
  "OPERATION_MODE_OPTIONS =
     [([35774, 32622, 23383, 27573], str ''set''),
      ([21024, 38500, 23383, 27573], str ''delete''),
      ([36861, 21152, 21040, 26411, 23614], str ''append''),
      ([36861, 21152, 21040, 24320, 22836], str ''prepend''),
      ([22797, 21046, 23383, 27573], str ''copy''),
      ([31227, 21160, 23383, 27573], str ''move''),
      ([23383, 31526, 20018, 26367, 25442], str ''replace''),
      ([27491, 21017, 26367, 25442], str ''regex_replace''),
      ([35009, 21098, 21069, 32512], str ''trim_prefix''),
      ([35009, 21098, 21518, 32512], str ''trim_suffix''),
      ([30830, 20445, 21069, 32512], str ''ensure_prefix''),
      ([30830, 20445, 21518, 32512], str ''ensure_suffix''),
      ([21435, 25481, 31354, 30333], str ''trim_space''),
      ([36716, 23567, 20889], str ''to_lower''),
      ([36716, 22823, 20889], str ''to_upper''),
      ([36820, 22238, 33258, 23450, 20041, 38169, 35823], str ''return_error''),
      ([28165, 29702, 23545, 35937, 39033], str ''prune_objects''),
      ([35831, 27714, 22836, 36879, 20256], str ''pass_headers''),
      ([23383, 27573, 21516, 27493], str ''sync_fields''),
      ([35774, 32622, 35831, 27714, 22836], str ''set_header''),
      ([21024, 38500, 35831, 27714, 22836], str ''delete_header''),
      ([22797, 21046, 35831, 27714, 22836], str ''copy_header''),
      ([31227, 21160, 35831, 27714, 22836], str ''move_header'')]"

definition OPERATION_MODE_VALUES :: "jstr list" where
  "OPERATION_MODE_VALUES = map snd OPERATION_MODE_OPTIONS"

definition CONDITION_MODE_OPTIONS :: "(jstr \<times> jstr) list" where
  "CONDITION_MODE_OPTIONS =
     [([23436, 20840, 21305, 37197], str ''full''),
      ([21069, 32512, 21305, 37197], str ''prefix''),
      ([21518, 32512, 21305, 37197], str ''suffix''),
      ([21253, 21547], str ''contains''),
      ([22823, 20110], str ''gt''),
      ([22823, 20110, 31561, 20110], str ''gte''),
      ([23567, 20110], str ''lt''),
      ([23567, 20110, 31561, 20110], str ''lte'')]"

definition CONDITION_MODE_VALUES :: "jstr list" where
  "CONDITION_MODE_VALUES = map snd CONDITION_MODE_OPTIONS"

text \<open>What a mode uses; a property the source leaves out is false here, as it is falsy there.\<close>

record mode_meta =
  meta_path :: bool
  meta_pathOptional :: bool
  meta_value :: bool
  meta_keepOrigin :: bool
  meta_from :: bool
  meta_to :: bool
  meta_pathAlias :: bool

definition no_meta :: mode_meta where
  "no_meta =
     \<lparr>meta_path = False, meta_pathOptional = False, meta_value = False, meta_keepOrigin = False,
      meta_from = False, meta_to = False, meta_pathAlias = False\<rparr>"

definition MODE_META :: "(jstr \<times> mode_meta) list" where
  "MODE_META =
     [(str ''delete'', no_meta\<lparr>meta_path := True\<rparr>),
      (str ''set'', no_meta\<lparr>meta_path := True, meta_value := True, meta_keepOrigin := True\<rparr>),
      (str ''append'', no_meta\<lparr>meta_path := True, meta_value := True, meta_keepOrigin := True\<rparr>),
      (str ''prepend'', no_meta\<lparr>meta_path := True, meta_value := True, meta_keepOrigin := True\<rparr>),
      (str ''copy'', no_meta\<lparr>meta_from := True, meta_to := True\<rparr>),
      (str ''move'', no_meta\<lparr>meta_from := True, meta_to := True\<rparr>),
      (str ''replace'', no_meta\<lparr>meta_path := True, meta_from := True\<rparr>),
      (str ''regex_replace'', no_meta\<lparr>meta_path := True, meta_from := True\<rparr>),
      (str ''trim_prefix'', no_meta\<lparr>meta_path := True, meta_value := True\<rparr>),
      (str ''trim_suffix'', no_meta\<lparr>meta_path := True, meta_value := True\<rparr>),
      (str ''ensure_prefix'', no_meta\<lparr>meta_path := True, meta_value := True\<rparr>),
      (str ''ensure_suffix'', no_meta\<lparr>meta_path := True, meta_value := True\<rparr>),
      (str ''trim_space'', no_meta\<lparr>meta_path := True\<rparr>),
      (str ''to_lower'', no_meta\<lparr>meta_path := True\<rparr>),
      (str ''to_upper'', no_meta\<lparr>meta_path := True\<rparr>),
      (str ''return_error'', no_meta\<lparr>meta_value := True\<rparr>),
      (str ''prune_objects'', no_meta\<lparr>meta_pathOptional := True, meta_value := True\<rparr>),
      (str ''pass_headers'', no_meta\<lparr>meta_value := True, meta_keepOrigin := True\<rparr>),
      (str ''sync_fields'', no_meta\<lparr>meta_from := True, meta_to := True\<rparr>),
      (str ''set_header'', no_meta\<lparr>meta_path := True, meta_value := True, meta_keepOrigin := True\<rparr>),
      (str ''delete_header'', no_meta\<lparr>meta_path := True\<rparr>),
      (str ''copy_header'', no_meta\<lparr>meta_from := True, meta_to := True, meta_keepOrigin := True, meta_pathAlias := True\<rparr>),
      (str ''move_header'', no_meta\<lparr>meta_from := True, meta_to := True, meta_keepOrigin := True, meta_pathAlias := True\<rparr>)]"

text \<open>\<open>MODE_META[mode] || MODE_META.set\<close>\<close>

definition meta_of :: "jstr \<Rightarrow> mode_meta" where
  "meta_of mode =
     (case map_of MODE_META mode of
        Some meta \<Rightarrow> meta
      | None \<Rightarrow> no_meta\<lparr>meta_path := True, meta_value := True, meta_keepOrigin := True\<rparr>)"

definition VALUE_REQUIRED_MODES :: "jstr list" where
  "VALUE_REQUIRED_MODES =
     [str ''trim_prefix'', str ''trim_suffix'', str ''ensure_prefix'', str ''ensure_suffix'', str ''set_header'', str ''return_error'', str ''prune_objects'', str ''pass_headers'']"

definition FROM_REQUIRED_MODES :: "jstr list" where
  "FROM_REQUIRED_MODES =
     [str ''copy'', str ''move'', str ''replace'', str ''regex_replace'', str ''copy_header'', str ''move_header'', str ''sync_fields'']"

definition TO_REQUIRED_MODES :: "jstr list" where
  "TO_REQUIRED_MODES =
     [str ''copy'', str ''move'', str ''copy_header'', str ''move_header'', str ''sync_fields'']"

subsection \<open>Labels and placeholders\<close>

definition MODE_DESCRIPTIONS :: "(jstr \<times> jstr) list" where
  "MODE_DESCRIPTIONS =
     [(str ''set'', [25226, 20540, 20889, 20837, 30446, 26631, 23383, 27573]),
      (str ''delete'', [21024, 38500, 30446, 26631, 23383, 27573]),
      (str ''append'', [25226, 20540, 36861, 21152, 21040, 25968, 32452] @ str '' / '' @ [23383, 31526, 20018] @ str '' / '' @ [23545, 35937, 26411, 23614]),
      (str ''prepend'', [25226, 20540, 36861, 21152, 21040, 25968, 32452] @ str '' / '' @ [23383, 31526, 20018] @ str '' / '' @ [23545, 35937, 24320, 22836]),
      (str ''copy'', [25226, 26469, 28304, 23383, 27573, 22797, 21046, 21040, 30446, 26631, 23383, 27573]),
      (str ''move'', [25226, 26469, 28304, 23383, 27573, 31227, 21160, 21040, 30446, 26631, 23383, 27573]),
      (str ''replace'', [22312, 30446, 26631, 23383, 27573, 37324, 20570, 23383, 31526, 20018, 26367, 25442]),
      (str ''regex_replace'', [22312, 30446, 26631, 23383, 27573, 37324, 20570, 27491, 21017, 26367, 25442]),
      (str ''trim_prefix'', [21435, 25481, 23383, 31526, 20018, 21069, 32512]),
      (str ''trim_suffix'', [21435, 25481, 23383, 31526, 20018, 21518, 32512]),
      (str ''ensure_prefix'', [30830, 20445, 23383, 31526, 20018, 26377, 25351, 23450, 21069, 32512]),
      (str ''ensure_suffix'', [30830, 20445, 23383, 31526, 20018, 26377, 25351, 23450, 21518, 32512]),
      (str ''trim_space'', [21435, 25481, 23383, 31526, 20018, 22836, 23614, 31354, 30333]),
      (str ''to_lower'', [25226, 23383, 31526, 20018, 36716, 25104, 23567, 20889]),
      (str ''to_upper'', [25226, 23383, 31526, 20018, 36716, 25104, 22823, 20889]),
      (str ''return_error'', [31435, 21363, 36820, 22238, 33258, 23450, 20041, 38169, 35823]),
      (str ''prune_objects'', [25353, 26465, 20214, 28165, 29702, 23545, 35937, 20013, 30340, 23376, 39033]),
      (str ''pass_headers'', [25226, 25351, 23450, 35831, 27714, 22836, 36879, 20256, 21040, 19978, 28216, 35831, 27714]),
      (str ''sync_fields'', [22312, 19968, 20010, 23383, 27573, 26377, 20540, 12289, 21478, 19968, 20010, 32570, 22833, 26102, 33258, 21160, 34917, 40784]),
      (str ''set_header'', [35774, 32622, 36816, 34892, 26399, 35831, 27714, 22836, 65306, 21487, 30452, 25509, 35206, 30422, 25972, 26465, 20540, 65292, 20063, 21487, 23545, 36887, 21495, 20998, 38548, 30340] @ str '' token '' @ [20570, 21024, 38500, 12289, 26367, 25442, 12289, 36861, 21152, 25110, 30333, 21517, 21333, 20445, 30041]),
      (str ''delete_header'', [21024, 38500, 36816, 34892, 26399, 35831, 27714, 22836]),
      (str ''copy_header'', [22797, 21046, 35831, 27714, 22836]),
      (str ''move_header'', [31227, 21160, 35831, 27714, 22836])]"

definition getModePathLabel :: "jstr \<Rightarrow> jstr" where
  "getModePathLabel mode =
     (if mode = str ''set_header'' \<or> mode = str ''delete_header'' then [35831, 27714, 22836, 21517, 31216]
      else if mode = str ''prune_objects'' then [30446, 26631, 36335, 24452, 65288, 21487, 36873, 65289]
      else [30446, 26631, 23383, 27573, 36335, 24452])"

definition getModePathPlaceholder :: "jstr \<Rightarrow> jstr" where
  "getModePathPlaceholder mode =
     (if mode = str ''set_header'' then str ''Authorization''
      else if mode = str ''delete_header'' then str ''X-Debug-Mode''
      else if mode = str ''prune_objects'' then str ''messages''
      else str ''temperature'')"

definition getModeFromLabel :: "jstr \<Rightarrow> jstr" where
  "getModeFromLabel mode =
     (if mode = str ''replace'' then [21305, 37197, 25991, 26412]
      else if mode = str ''regex_replace'' then [27491, 21017, 34920, 36798, 24335]
      else if mode = str ''copy_header'' \<or> mode = str ''move_header'' then [26469, 28304, 35831, 27714, 22836]
      else [26469, 28304, 23383, 27573])"

definition getModeFromPlaceholder :: "jstr \<Rightarrow> jstr" where
  "getModeFromPlaceholder mode =
     (if mode = str ''replace'' then str ''openai/''
      else if mode = str ''regex_replace'' then str ''^gpt-''
      else if mode = str ''copy_header'' \<or> mode = str ''move_header'' then str ''Authorization''
      else str ''model'')"

definition getModeToLabel :: "jstr \<Rightarrow> jstr" where
  "getModeToLabel mode =
     (if mode = str ''replace'' \<or> mode = str ''regex_replace'' then [26367, 25442, 20026]
      else if mode = str ''copy_header'' \<or> mode = str ''move_header'' then [30446, 26631, 35831, 27714, 22836]
      else [30446, 26631, 23383, 27573])"

definition getModeToPlaceholder :: "jstr \<Rightarrow> jstr" where
  "getModeToPlaceholder mode =
     (if mode = str ''replace'' then [65288, 21487, 30041, 31354, 65289]
      else if mode = str ''regex_replace'' then str ''openai/gpt-''
      else if mode = str ''copy_header'' \<or> mode = str ''move_header'' then str ''X-Upstream-Auth''
      else str ''original_model'')"

definition getModeValueLabel :: "jstr \<Rightarrow> jstr" where
  "getModeValueLabel mode =
     (if mode = str ''set_header'' then [35831, 27714, 22836, 20540, 65288, 25903, 25345, 23383, 31526, 20018, 25110] @ str '' JSON '' @ [26144, 23556, 65289]
      else if mode = str ''pass_headers'' then [36879, 20256, 35831, 27714, 22836, 65288, 25903, 25345, 36887, 21495, 20998, 38548, 25110] @ str '' JSON '' @ [25968, 32452, 65289]
      else if mode = str ''trim_prefix'' \<or> mode = str ''trim_suffix'' \<or> mode = str ''ensure_prefix'' \<or> mode = str ''ensure_suffix'' then [21069, 21518, 32512, 25991, 26412]
      else if mode = str ''prune_objects'' then [28165, 29702, 35268, 21017, 65288, 23383, 31526, 20018, 25110] @ str '' JSON '' @ [23545, 35937, 65289]
      else [20540, 65288, 25903, 25345] @ str '' JSON '' @ [25110, 26222, 36890, 25991, 26412, 65289])"

definition HEADER_VALUE_JSONC_EXAMPLE :: jstr where
  "HEADER_VALUE_JSONC_EXAMPLE =
     join [10]
       [str ''{'',
        str ''  // '' @ [32622, 31354, 65306, 21024, 38500] @ str '' Bedrock '' @ [19981, 25903, 25345, 30340] @ str '' beta'' @ [29305, 24615],
        str ''  \"files-api-2025-04-14\": null,'',
        [],
        str ''  // '' @ [26367, 25442, 65306, 25226, 26087, 29305, 24615, 25913, 25104, 20860, 23481, 29305, 24615],
        str ''  \"advanced-tool-use-2025-11-20\": \"tool-search-tool-2025-10-19\",'',
        [],
        str ''  // '' @ [36861, 21152, 65306, 22312, 26411, 23614, 34917, 19968, 20010, 38656, 35201, 30340, 29305, 24615],
        str ''  \"$append\": [\"context-1m-2025-08-07\"]'',
        str ''}'']"

definition getModeValuePlaceholder :: "jstr \<Rightarrow> jstr" where
  "getModeValuePlaceholder mode =
     (if mode = str ''set_header'' then join [10]
       [[32431, 23383, 31526, 20018, 65288, 25972, 26465, 35206, 30422, 65289, 65306],
        str ''Bearer sk-xxx'',
        [],
        [25110, 20351, 29992] @ str '' JSON '' @ [35268, 21017, 65306],
        str ''{'',
        str ''  \"files-api-2025-04-14\": null,'',
        str ''  \"advanced-tool-use-2025-11-20\": \"tool-search-tool-2025-10-19\",'',
        str ''  \"$append\": [\"context-1m-2025-08-07\"]'',
        str ''}'']
      else if mode = str ''pass_headers'' then str ''Authorization, X-Request-Id''
      else if mode = str ''trim_prefix'' \<or> mode = str ''trim_suffix'' \<or> mode = str ''ensure_prefix'' \<or> mode = str ''ensure_suffix'' then str ''openai/''
      else if mode = str ''prune_objects'' then str ''{\"type\":\"redacted_thinking\"}''
      else str ''0.7'')"

definition SYNC_TARGET_TYPE_OPTIONS :: "(jstr \<times> jstr) list" where
  "SYNC_TARGET_TYPE_OPTIONS =
     [([35831, 27714, 20307, 23383, 27573], str ''json''),
      ([35831, 27714, 22836, 23383, 27573], str ''header'')]"

definition FIELD_GUIDE_TARGET_OPTIONS :: "(jstr \<times> jstr) list" where
  "FIELD_GUIDE_TARGET_OPTIONS =
     [([22635, 20837, 30446, 26631, 36335, 24452], str ''path''),
      ([22635, 20837, 26469, 28304, 23383, 27573], str ''from''),
      ([22635, 20837, 30446, 26631, 23383, 27573], str ''to'')]"

record guide_field =
  field_key :: jstr
  field_label :: jstr
  field_tip :: jstr

text \<open>Titles with their fields.\<close>

definition BUILTIN_FIELD_SECTIONS :: "(jstr \<times> guide_field list) list" where
  "BUILTIN_FIELD_SECTIONS =
     [([24120, 29992, 35831, 27714, 23383, 27573], [\<lparr>field_key = str ''model'', field_label = [27169, 22411, 21517, 31216],
         field_tip = [25903, 25345, 22810, 32423, 27169, 22411, 21517, 65292, 20363, 22914] @ str '' openai/gpt-4o-mini''\<rparr>,
        \<lparr>field_key = str ''temperature'', field_label = [37319, 26679, 28201, 24230],
         field_tip = [25511, 21046, 36755, 20986, 38543, 26426, 24615]\<rparr>,
        \<lparr>field_key = str ''max_tokens'', field_label = [26368, 22823, 36755, 20986] @ str '' Token'',
         field_tip = [25511, 21046, 36755, 20986, 38271, 24230, 19978, 38480]\<rparr>,
        \<lparr>field_key = str ''messages.-1.content'', field_label = [26368, 21518, 19968, 26465, 28040, 24687, 20869, 23481],
         field_tip = [24120, 29992, 20110, 37325, 20889, 29992, 25143, 36755, 20837]\<rparr>]),
      ([19978, 19979, 25991, 23383, 27573], [\<lparr>field_key = str ''retry.is_retry'', field_label = [26159, 21542, 37325, 35797],
         field_tip = str ''true '' @ [34920, 31034, 37325, 35797, 35831, 27714]\<rparr>,
        \<lparr>field_key = str ''last_error.code'', field_label = [19978, 27425, 38169, 35823, 30721],
         field_tip = [37197, 21512, 37325, 35797, 31574, 30053, 20351, 29992]\<rparr>,
        \<lparr>field_key = str ''metadata.conversation_id'', field_label = [20250, 35805] @ str '' ID'',
         field_tip = [21487, 29992, 20110, 36335, 30001, 25110, 32531, 23384, 21629, 20013]\<rparr>]),
      ([35831, 27714, 22836, 26144, 23556, 23383, 27573], [\<lparr>field_key = str ''header_override_normalized.authorization'', field_label = [26631, 20934, 21270] @ str '' Authorization'',
         field_tip = [32479, 19968, 23567, 20889, 21518, 21487, 31283, 23450, 21305, 37197]\<rparr>,
        \<lparr>field_key = str ''header_override_normalized.x_debug_mode'', field_label = [26631, 20934, 21270] @ str '' X-Debug-Mode'',
         field_tip = [36866, 21512, 28784, 24230] @ str '' / '' @ [35843, 35797, 24320, 20851, 21028, 26029]\<rparr>])]"

definition OPERATION_MODE_LABEL_MAP :: "(jstr \<times> jstr) list" where
  "OPERATION_MODE_LABEL_MAP = obj_of_list (map (\<lambda>item. (snd item, fst item)) OPERATION_MODE_OPTIONS)"


subsection \<open>The tables agree\<close>

lemma modes_have_meta: "\<forall>mode\<in>set OPERATION_MODE_VALUES. map_of MODE_META mode \<noteq> None"
  by code_simp

lemma required_modes_meta:
  "\<forall>mode\<in>set FROM_REQUIRED_MODES. meta_from (meta_of mode)"
  "\<forall>mode\<in>set TO_REQUIRED_MODES. meta_to (meta_of mode)"
  "\<forall>mode\<in>set VALUE_REQUIRED_MODES. meta_value (meta_of mode)"
  by code_simp+

lemma meta_required_modes:
  "\<forall>mode\<in>set OPERATION_MODE_VALUES. meta_from (meta_of mode) \<longleftrightarrow> mode \<in> set FROM_REQUIRED_MODES"
  "\<forall>mode\<in>set OPERATION_MODE_VALUES. meta_to (meta_of mode) \<longleftrightarrow> mode \<in> set TO_REQUIRED_MODES"
  by code_simp+

end
