(* ===== verification/ParamOverrideDraft.thy ===== *)
theory ParamOverrideDraft
  imports ParamOverrideModes
begin

text \<open>
  Values of the parameter override editor
  (web/src/components/table/channels/modals/ParamOverrideEditorModal.jsx): local identifiers, the
  text form of a value and its loose parsing, lists of header names, the drafts behind the forms
  of the modes \<open>return_error\<close> and \<open>prune_objects\<close>, and the specifications of \<open>sync_fields\<close>.

  Shown here: identifiers are unique, a draft written to text is read back, and what exactly is
  lost on that way.
\<close>


subsection \<open>Identifiers\<close>

text \<open>
  \<open>clock n\<close> is what \<open>Date.now()\<close> returns at the call of \<open>nextLocalId\<close> that finds \<open>localIdSeed\<close>
  at \<open>n\<close>. Every definition that creates identifiers takes the seed it starts from.
\<close>

type_synonym clock = "nat \<Rightarrow> int"

definition nextLocalId :: "clock \<Rightarrow> nat \<Rightarrow> jstr" where
  "nextLocalId clock localIdSeed =
     str ''param_override_'' @ int_to_string (clock localIdSeed) @ str ''_'' @ dec_digits (int localIdSeed)"


subsection \<open>Values and their text\<close>

definition toValueText :: "jsval \<Rightarrow> jstr" where
  "toValueText v = (case v of Undefined \<Rightarrow> [] | Str s \<Rightarrow> s | _ \<Rightarrow> json_stringify v)"

definition parseLooseValue :: "jstr \<Rightarrow> jsval" where
  "parseLooseValue raw =
     (if trim raw = [] then Str [] else case json_parse raw of Some v \<Rightarrow> v | None \<Rightarrow> Str raw)"

text \<open>\<open>String(item ?? '').trim()\<close>\<close>

definition trimmed_text :: "jsval \<Rightarrow> jstr" where
  "trimmed_text item = trim (js_string (js_coalesce item (Str [])))"

definition header_names :: "jsval list \<Rightarrow> jstr list" where
  "header_names items = filter (\<lambda>name. name \<noteq> []) (map trimmed_text items)"

definition parsePassHeaderNames :: "jsval \<Rightarrow> jstr list" where
  "parsePassHeaderNames rawValue =
     (case rawValue of
        Arr items \<Rightarrow> header_names items
      | Obj _ \<Rightarrow>
          (case get_prop (str ''headers'') rawValue of
             Arr items \<Rightarrow> header_names items
           | _ \<Rightarrow>
             (let header = get_prop (str ''header'') rawValue
              in if header \<noteq> Undefined
                 then let single = trimmed_text header in if single \<noteq> [] then [single] else []
                 else []))
      | Str s \<Rightarrow> filter (\<lambda>name. name \<noteq> []) (map trim (split_on 44 s))
      | _ \<Rightarrow> [])"


subsection \<open>The form of \<open>return_error\<close>\<close>

record return_error_draft =
  draft_message :: jstr
  draft_statusCode :: jsnum
  draft_code :: jstr
  draft_type :: jstr
  draft_skipRetry :: bool
  draft_simpleMode :: bool

definition return_error_defaults :: return_error_draft where
  "return_error_defaults =
     \<lparr>draft_message = [], draft_statusCode = Fin 400, draft_code = [], draft_type = [],
      draft_skipRetry = True, draft_simpleMode = True\<rparr>"

definition status_or_400 :: "jsnum \<Rightarrow> jsnum" where
  "status_or_400 n = (if is_integer n \<and> num_le (Fin 100) n \<and> num_le n (Fin 599) then n else Fin 400)"

text \<open>\<open>String(v || '').trim()\<close>\<close>

definition trimmed_or_empty :: "jsval \<Rightarrow> jstr" where
  "trimmed_or_empty v = trim (js_string (js_or v (Str [])))"

definition parseReturnErrorDraft :: "jstr \<Rightarrow> return_error_draft" where
  "parseReturnErrorDraft valueText =
     (let raw = trim valueText; plain = return_error_defaults\<lparr>draft_message := raw, draft_simpleMode := True\<rparr>
      in if raw = [] then return_error_defaults
         else case json_parse raw of
                None \<Rightarrow> plain
              | Some parsed \<Rightarrow>
                  if is_plain_object parsed
                  then let field = (\<lambda>k. get_prop (str k) parsed);
                           statusRaw = (if field ''status_code'' \<noteq> Undefined then field ''status_code'' else field ''status'')
                    in return_error_defaults
                         \<lparr>draft_message := trimmed_or_empty (js_or (field ''message'') (field ''msg'')),
                          draft_statusCode := status_or_400 (js_number statusRaw),
                          draft_code := trimmed_or_empty (field ''code''),
                          draft_type := trimmed_or_empty (field ''type''),
                          draft_skipRetry := (field ''skip_retry'' \<noteq> Bool False),
                          draft_simpleMode := False\<rparr>
                  else plain)"

definition put_when :: "bool \<Rightarrow> jstr \<Rightarrow> jsval \<Rightarrow> (jstr \<times> jsval) list \<Rightarrow> (jstr \<times> jsval) list" where
  "put_when b k v payload = (if b then obj_put k v payload else payload)"

definition buildReturnErrorValueText :: "return_error_draft \<Rightarrow> jstr" where
  "buildReturnErrorValueText draft =
     (let message = trim (draft_message draft)
      in if draft_simpleMode draft then message
         else let code = trim (draft_code draft); type = trim (draft_type draft);
                  payload = [(str ''message'', Str message), (str ''status_code'', Num (status_or_400 (draft_statusCode draft)))]
           in json_stringify (Obj (put_when (\<not> draft_skipRetry draft) (str ''skip_retry'') (Bool False)
                (put_when (type \<noteq> []) (str ''type'') (Str type)
                  (put_when (code \<noteq> []) (str ''code'') (Str code) payload)))))"


subsection \<open>Conditions and the form of \<open>prune_objects\<close>\<close>

record condition =
  cond_id :: jstr
  cond_path :: jstr
  cond_mode :: jstr
  cond_value_text :: jstr
  cond_invert :: bool
  cond_pass_missing_key :: bool

text \<open>\<open>typeof v === 'string' ? v : ''\<close>, and a string of a set or a default.\<close>

definition string_or_empty :: "jsval \<Rightarrow> jstr" where
  "string_or_empty v = (case v of Str s \<Rightarrow> s | _ \<Rightarrow> [])"

definition member_or :: "jstr list \<Rightarrow> jstr \<Rightarrow> jsval \<Rightarrow> jstr" where
  "member_or allowed other v = (case v of Str s \<Rightarrow> if s \<in> set allowed then s else other | _ \<Rightarrow> other)"

definition normalizePruneRule :: "clock \<Rightarrow> nat \<Rightarrow> jsval \<Rightarrow> condition" where
  "normalizePruneRule clock seed rule =
     \<lparr>cond_id = nextLocalId clock seed,
      cond_path = string_or_empty (get_prop (str ''path'') rule),
      cond_mode = member_or CONDITION_MODE_VALUES (str ''full'') (get_prop (str ''mode'') rule),
      cond_value_text = toValueText (get_prop (str ''value'') rule),
      cond_invert = (get_prop (str ''invert'') rule = Bool True),
      cond_pass_missing_key = (get_prop (str ''pass_missing_key'') rule = Bool True)\<rparr>"

record prune_draft =
  prune_simpleMode :: bool
  prune_typeText :: jstr
  prune_logic :: jstr
  prune_recursive :: bool
  prune_rules :: "condition list"

definition prune_defaults :: prune_draft where
  "prune_defaults =
     \<lparr>prune_simpleMode = True, prune_typeText = [], prune_logic = str ''AND'', prune_recursive = True, prune_rules = []\<rparr>"

text \<open>The values the rules are made of: the entries of an object, then the conditions.\<close>

definition entry_rules :: "jsval \<Rightarrow> jsval list" where
  "entry_rules v =
     map (\<lambda>(path, value). Obj [(str ''path'', Str path), (str ''mode'', Str (str ''full'')), (str ''value'', value)]) (entries v)"

definition rule_sources :: "jsval \<Rightarrow> jsval list" where
  "rule_sources parsed =
     (let conditions = get_prop (str ''conditions'') parsed
      in entry_rules (get_prop (str ''where'') parsed)
         @ (if is_array conditions then filter is_object (elements conditions) else entry_rules conditions))"

text \<open>The draft, and the seed after the rules have got their identifiers.\<close>

definition parsePruneObjectsDraft :: "clock \<Rightarrow> nat \<Rightarrow> jstr \<Rightarrow> prune_draft \<times> nat" where
  "parsePruneObjectsDraft clock seed valueText =
     (let raw = trim valueText; simple = (\<lambda>t. (prune_defaults\<lparr>prune_typeText := t\<rparr>, seed))
      in if raw = [] then (prune_defaults, seed)
         else case json_parse raw of
                None \<Rightarrow> simple raw
              | Some (Str s) \<Rightarrow> simple (trim s)
              | Some parsed \<Rightarrow>
                  if is_plain_object parsed
                  then let field = (\<lambda>k. get_prop (str k) parsed); sources = rule_sources parsed;
                           hasAdvancedFields = (field ''logic'' \<noteq> Undefined \<or> field ''recursive'' \<noteq> Undefined
                             \<or> field ''where'' \<noteq> Undefined \<or> field ''conditions'' \<noteq> Undefined)
                    in (\<lparr>prune_simpleMode = (\<not> hasAdvancedFields),
                         prune_typeText = (if field ''type'' = Undefined then [] else trim (js_string (field ''type''))),
                         prune_logic =
                           (if to_upper (js_string (js_or (field ''logic'') (Str (str ''AND'')))) = str ''OR''
                            then str ''OR'' else str ''AND''),
                         prune_recursive = (field ''recursive'' \<noteq> Bool False),
                         prune_rules = map2 (normalizePruneRule clock) [seed..<seed + length sources] sources\<rparr>,
                        seed + length sources)
                  else simple (trimmed_text parsed))"

definition rule_payload :: "condition \<Rightarrow> jsval" where
  "rule_payload rule =
     (let valueRaw = trim (cond_value_text rule);
          mode = (if cond_mode rule \<in> set CONDITION_MODE_VALUES then cond_mode rule else str ''full'')
      in Obj (put_when (cond_pass_missing_key rule) (str ''pass_missing_key'') (Bool True)
           (put_when (cond_invert rule) (str ''invert'') (Bool True)
             (put_when (valueRaw \<noteq> []) (str ''value'') (parseLooseValue valueRaw)
               [(str ''path'', Str (trim (cond_path rule))), (str ''mode'', Str mode)]))))"

definition buildPruneObjectsValueText :: "prune_draft \<Rightarrow> jstr" where
  "buildPruneObjectsValueText draft =
     (let typeText = trim (prune_typeText draft)
      in if prune_simpleMode draft then typeText
         else let conditions = map rule_payload (filter (\<lambda>rule. trim (cond_path rule) \<noteq> []) (prune_rules draft));
                  payload =
                    put_when (conditions \<noteq> []) (str ''conditions'') (Arr conditions)
                      (put_when (\<not> prune_recursive draft) (str ''recursive'') (Bool False)
                        (put_when (to_upper (prune_logic draft) = str ''OR'') (str ''logic'') (Str (str ''OR''))
                          (put_when (typeText \<noteq> []) (str ''type'') (Str typeText) [])))
           in if typeText = [] \<and> conditions = [] then json_stringify (Obj [(str ''logic'', Str (str ''AND''))])
              else json_stringify (Obj payload))"


subsection \<open>Targets of \<open>sync_fields\<close>\<close>

text \<open>A type and a key.\<close>

definition parseSyncTargetSpec :: "jstr \<Rightarrow> jstr \<times> jstr" where
  "parseSyncTargetSpec spec =
     (let raw = trim spec
      in if raw = [] then (str ''json'', [])
         else case index_of raw [58] of
                None \<Rightarrow> (str ''json'', raw)
              | Some idx \<Rightarrow>
                  (let prefix = to_lower (trim (take idx raw)); key = trim (drop (idx + 1) raw)
                   in if prefix = str ''header'' then (str ''header'', key) else (str ''json'', key)))"

definition buildSyncTargetSpec :: "jstr \<Rightarrow> jstr \<Rightarrow> jstr" where
  "buildSyncTargetSpec type key =
     (let normalizedType = (if type = str ''header'' then str ''header'' else str ''json''); normalizedKey = trim key
      in if normalizedKey = [] then [] else normalizedType @ [58] @ normalizedKey)"


subsection \<open>Identifiers are unique\<close>

lemma last_part: "d \<notin> set t \<Longrightarrow> takeWhile (\<lambda>c. c \<noteq> d) (rev (s @ [d] @ t)) = rev t"
  using takeWhile_append2 [of "rev t" "\<lambda>c. c \<noteq> d" "d # rev s"] by auto

lemma seed_of_id: "takeWhile (\<lambda>c. c \<noteq> 95) (rev (nextLocalId clock n)) = rev (dec_digits (int n))"
proof -
  have "95 \<notin> set (dec_digits (int n))"
    using dec_digits_digit [of "int n" 95] by (auto simp: is_digit_def)
  from last_part [OF this, of "str ''param_override_'' @ int_to_string (clock n)"] show ?thesis
    by (simp add: nextLocalId_def js_str_simps)
qed

lemma nextLocalId_eq: "nextLocalId clock m = nextLocalId clock n \<longleftrightarrow> m = n"
proof
  assume "nextLocalId clock m = nextLocalId clock n"
  then have "dec_digits (int m) = dec_digits (int n)"
    using seed_of_id [of clock m] seed_of_id [of clock n] by simp
  then have "digits_val (dec_digits (int m)) = digits_val (dec_digits (int n))"
    by simp
  then show "m = n"
    by simp
qed simp

text \<open>A supply of identifiers, one for each number.\<close>

locale id_supply =
  fixes new :: "nat \<Rightarrow> 'i"
  assumes new_eq: "new m = new n \<longleftrightarrow> m = n"
begin

lemma fresh: "new n \<notin> new ` {..<n}" "i \<in> new ` {..<n} \<Longrightarrow> i \<noteq> new n"
  by (auto simp: new_eq)

lemma issued_new: "new n \<in> new ` {..<Suc n}"
  by simp

lemma issued_mono: "i \<in> new ` {..<m} \<Longrightarrow> m \<le> n \<Longrightarrow> i \<in> new ` {..<n}"
  by auto

lemma distinct_segment: "distinct (map new [m..<n])"
  by (simp add: distinct_map inj_on_def new_eq)

lemma segment_issued: "set (map new [m..<n]) \<subseteq> new ` {..<n}"
  by auto

lemma fresh_segment: "set ids \<subseteq> new ` {..<m} \<Longrightarrow> set ids \<inter> new ` {m..<n} = {}"
  by (auto simp: new_eq)

end

interpretation local_ids: id_supply "nextLocalId clock" for clock
  by unfold_locales (rule nextLocalId_eq)

lemma nextLocalId_not_Nil [simp]: "nextLocalId clock n \<noteq> []"
  by (simp add: nextLocalId_def)


subsection \<open>Targets\<close>

lemma index_of_unit: "d \<notin> set s \<Longrightarrow> index_of (s @ d # t) [d] = Some (length s)"
  by (induction s) auto

lemma sync_spec_parts:
  assumes "trim key \<noteq> []" "58 \<notin> set t" "t \<noteq> []" "\<not> is_ws (hd t)"
  shows "trim (t @ [58] @ trim key) = t @ [58] @ trim key"
    "index_of (t @ [58] @ trim key) [58] = Some (length t)"
proof -
  show "trim (t @ [58] @ trim key) = t @ [58] @ trim key"
    using assms trim_hd_last [of key] by (intro trim_fixed) auto
  show "index_of (t @ [58] @ trim key) [58] = Some (length t)"
    using index_of_unit [OF assms(2), of "trim key"] by simp
qed


subsection \<open>Payloads\<close>

lemma map_of_put_when [simp]: "map_of (put_when b k v ps) = (if b then (map_of ps)(k \<mapsto> v) else map_of ps)"
  by (simp add: put_when_def)

lemma wf_put_when: "wf_val (Obj ps) \<Longrightarrow> wf_str k \<Longrightarrow> wf_val v \<Longrightarrow> wf_val (Obj (put_when b k v ps))"
  by (simp add: put_when_def wf_obj_put del: wf_val.simps)

lemma json_ok_put_when: "json_ok (Obj ps) \<Longrightarrow> json_ok v \<Longrightarrow> json_ok (Obj (put_when b k v ps))"
  using set_obj_put [of k v ps] by (auto simp: put_when_def)

lemma put_when_defined: "\<forall>p\<in>set ps. snd p \<noteq> Undefined \<Longrightarrow> v \<noteq> Undefined \<Longrightarrow> \<forall>p\<in>set (put_when b k v ps). snd p \<noteq> Undefined"
  using set_obj_put [of k v ps] by (auto simp: put_when_def)

lemma canonical_error_payload: "canonical [(str ''message'', a), (str ''status_code'', b)]"
  by (simp add: canonical_def key_before_def index_key_def is_digit_def js_str_simps)

lemma canonical_rule_payload: "canonical [(str ''path'', a), (str ''mode'', b)]"
  by (simp add: canonical_def key_before_def index_key_def is_digit_def js_str_simps)

lemma toValueText_Undefined [simp]: "toValueText Undefined = []" and toValueText_Str [simp]: "toValueText (Str s) = s"
  by (simp_all add: toValueText_def)

lemma parseLooseValue_defined [simp]: "parseLooseValue raw \<noteq> Undefined"
  using json_parse_defined by (auto simp: parseLooseValue_def split: option.split)

lemma wf_parseLooseValue: "wf_str raw \<Longrightarrow> wf_val (parseLooseValue raw)"
  using wf_json_parse by (auto simp: parseLooseValue_def wf_str_def split: option.split)


subsection \<open>Drafts of errors\<close>

definition wf_error_draft :: "return_error_draft \<Rightarrow> bool" where
  "wf_error_draft d \<longleftrightarrow> wf_str (draft_message d) \<and> wf_str (draft_code d) \<and> wf_str (draft_type d)"

definition trimmed_error_draft :: "return_error_draft \<Rightarrow> return_error_draft" where
  "trimmed_error_draft d =
     d\<lparr>draft_message := trim (draft_message d), draft_statusCode := status_or_400 (draft_statusCode d),
      draft_code := trim (draft_code d), draft_type := trim (draft_type d)\<rparr>"

lemma status_or_400_cases: "\<exists>n. status_or_400 x = Fin (of_int n) \<and> 100 \<le> n \<and> n \<le> 599"
proof (cases x)
  case (Fin q)
  then show ?thesis
    by (cases "is_integer x \<and> num_le (Fin 100) x \<and> num_le x (Fin 599)")
      (auto simp: status_or_400_def is_integer_def intro: exI [of _ "\<lfloor>q\<rfloor>"] exI [of _ 400])
qed (auto simp: status_or_400_def is_integer_def intro: exI [of _ 400])

lemma status_or_400_idem [simp]: "status_or_400 (status_or_400 x) = status_or_400 x"
  by (simp add: status_or_400_def)

lemma status_or_400_wf: "wf_val (Num (status_or_400 x)) \<and> json_ok (Num (status_or_400 x))"
proof -
  obtain n where "status_or_400 x = Fin (of_int n)" "100 \<le> n" "n \<le> 599"
    using status_or_400_cases by blast
  then show ?thesis
    by (simp add: is_double_int)
qed

lemma trimmed_or_empty_Str [simp]: "trimmed_or_empty (Str s) = trim s" "trimmed_or_empty Undefined = []"
  by (simp_all add: trimmed_or_empty_def js_or_def)


subsection \<open>Drafts of prune rules\<close>

text \<open>What is left of the text of a value after it has been saved and loaded.\<close>

definition reloaded_text :: "jstr \<Rightarrow> jstr" where
  "reloaded_text vt = (if trim vt = [] then [] else toValueText (json_norm (parseLooseValue (trim vt))))"

definition reloaded_rule :: "clock \<Rightarrow> nat \<Rightarrow> condition \<Rightarrow> condition" where
  "reloaded_rule clock n r =
     r\<lparr>cond_id := nextLocalId clock n, cond_path := trim (cond_path r),
      cond_mode := (if cond_mode r \<in> set CONDITION_MODE_VALUES then cond_mode r else str ''full''),
      cond_value_text := reloaded_text (cond_value_text r)\<rparr>"

definition wf_condition :: "condition \<Rightarrow> bool" where
  "wf_condition c \<longleftrightarrow> wf_str (cond_path c) \<and> wf_str (cond_value_text c)"

lemma condition_mode_wf: "m \<in> set CONDITION_MODE_VALUES \<Longrightarrow> wf_str m" "str ''full'' \<in> set CONDITION_MODE_VALUES"
  by (auto simp: CONDITION_MODE_VALUES_def CONDITION_MODE_OPTIONS_def)

lemma normalize_reload: "normalizePruneRule clock n (json_norm (rule_payload r)) = reloaded_rule clock n r"
proof -
  let ?v = "trim (cond_value_text r)" and ?m = "if cond_mode r \<in> set CONDITION_MODE_VALUES then cond_mode r else str ''full''"
  let ?ps = "put_when (cond_pass_missing_key r) (str ''pass_missing_key'') (Bool True)
    (put_when (cond_invert r) (str ''invert'') (Bool True) (put_when (?v \<noteq> []) (str ''value'') (parseLooseValue ?v)
      [(str ''path'', Str (trim (cond_path r))), (str ''mode'', Str ?m)]))"
  have p: "rule_payload r = Obj ?ps"
    by (simp add: rule_payload_def Let_def)
  have "\<forall>p\<in>set ?ps. snd p \<noteq> Undefined"
    by (intro put_when_defined) simp_all
  note g = get_prop_json_norm [OF this]
  show ?thesis
    unfolding p normalizePruneRule_def g
    using condition_mode_wf(2)
    by (intro condition.equality) (simp_all add: reloaded_rule_def reloaded_text_def string_or_empty_def member_or_def)
qed

lemma wf_rule_payload: "wf_condition r \<Longrightarrow> wf_val (rule_payload r)"
  unfolding rule_payload_def Let_def
  by (intro wf_put_when)
    (auto simp: wf_condition_def canonical_rule_payload wf_parseLooseValue condition_mode_wf)

lemma rule_payload_object [simp]: "is_object (json_norm (rule_payload r))" "rule_payload r \<noteq> Undefined"
  by (simp_all add: rule_payload_def Let_def is_object_def)

definition wf_prune_draft :: "prune_draft \<Rightarrow> bool" where
  "wf_prune_draft d \<longleftrightarrow> wf_str (prune_typeText d) \<and> (\<forall>r\<in>set (prune_rules d). wf_condition r)"

text \<open>The rules of a draft that reach its text.\<close>

definition kept_rules :: "prune_draft \<Rightarrow> condition list" where
  "kept_rules d = filter (\<lambda>rule. trim (cond_path rule) \<noteq> []) (prune_rules d)"

definition reloaded_prune :: "clock \<Rightarrow> nat \<Rightarrow> prune_draft \<Rightarrow> prune_draft" where
  "reloaded_prune clock seed d =
     (if trim (prune_typeText d) = [] \<and> kept_rules d = [] then prune_defaults\<lparr>prune_simpleMode := False\<rparr>
      else \<lparr>prune_simpleMode = (kept_rules d = [] \<and> to_upper (prune_logic d) \<noteq> str ''OR'' \<and> prune_recursive d),
            prune_typeText = trim (prune_typeText d),
            prune_logic = (if to_upper (prune_logic d) = str ''OR'' then str ''OR'' else str ''AND''),
            prune_recursive = prune_recursive d,
            prune_rules = map2 (reloaded_rule clock) [seed..<seed + length (kept_rules d)] (kept_rules d)\<rparr>)"

definition prune_payload :: "prune_draft \<Rightarrow> (jstr \<times> jsval) list" where
  "prune_payload d =
     (if trim (prune_typeText d) = [] \<and> kept_rules d = [] then [(str ''logic'', Str (str ''AND''))]
      else put_when (kept_rules d \<noteq> []) (str ''conditions'') (Arr (map rule_payload (kept_rules d)))
             (put_when (\<not> prune_recursive d) (str ''recursive'') (Bool False)
               (put_when (to_upper (prune_logic d) = str ''OR'') (str ''logic'') (Str (str ''OR''))
                 (put_when (trim (prune_typeText d) \<noteq> []) (str ''type'') (Str (trim (prune_typeText d))) []))))"

lemma build_prune_payload:
  "\<not> prune_simpleMode d \<Longrightarrow> buildPruneObjectsValueText d = json_stringify (Obj (prune_payload d))"
  by (simp add: buildPruneObjectsValueText_def prune_payload_def kept_rules_def Let_def)

lemma wf_prune_payload: "wf_prune_draft d \<Longrightarrow> wf_val (Obj (prune_payload d))"
proof -
  assume w: "wf_prune_draft d"
  then have "wf_val (Arr (map rule_payload (kept_rules d)))"
    by (auto simp: wf_prune_draft_def kept_rules_def wf_rule_payload)
  with w show ?thesis
    unfolding prune_payload_def
    by (auto simp: canonical_single wf_prune_draft_def simp del: wf_val.simps(4) intro!: wf_put_when
        intro: wf_empty_object) (simp add: canonical_single)
qed

lemma prune_payload_defined: "\<forall>p\<in>set (prune_payload d). snd p \<noteq> Undefined"
proof (cases "trim (prune_typeText d) = [] \<and> kept_rules d = []")
  case False
  then show ?thesis
    unfolding prune_payload_def if_not_P [OF False] by (intro put_when_defined) simp_all
qed (simp add: prune_payload_def)

lemma reloaded_sources:
  "map2 (normalizePruneRule clock) ns (map (\<lambda>r. json_norm (rule_payload r)) rs) = map2 (reloaded_rule clock) ns rs"
  by (simp add: zip_map2 normalize_reload case_prod_beta comp_def)

lemma prune_reload:
  assumes "wf_prune_draft d" "\<not> prune_simpleMode d"
  shows "parsePruneObjectsDraft clock seed (buildPruneObjectsValueText d) =
    (reloaded_prune clock seed d, seed + length (kept_rules d))"
proof -
  let ?ps = "prune_payload d"
  have j: "json_parse (json_stringify (Obj ?ps)) = Some (json_norm (Obj ?ps))"
    using wf_prune_payload [OF assms(1)] by (rule json_parse_stringify)
  obtain qs where q: "json_norm (Obj ?ps) = Obj qs"
    by simp
  note g = get_prop_json_norm [OF prune_payload_defined [of d], unfolded q]
  have up: "to_upper (str ''OR'') = str ''OR''" "to_upper (str ''AND'') \<noteq> str ''OR''"
    by code_simp+
  show ?thesis
  proof (cases "trim (prune_typeText d) = [] \<and> kept_rules d = []")
    case True
    then have ps: "?ps = [(str ''logic'', Str (str ''AND''))]"
      by (simp add: prune_payload_def)
    show ?thesis
      using j True up unfolding build_prune_payload [OF assms(2)] q
      by (simp add: parsePruneObjectsDraft_def Let_def g [unfolded ps] rule_sources_def entry_rules_def js_or_def
          reloaded_prune_def prune_defaults_def del: get_prop.simps)
  next
    case False
    have src: "rule_sources (Obj qs) = map (\<lambda>r. json_norm (rule_payload r)) (kept_rules d)"
      using False by (auto simp: rule_sources_def Let_def g prune_payload_def entry_rules_def comp_def simp del: get_prop.simps)
    show ?thesis
      using j False up unfolding build_prune_payload [OF assms(2)] q
      by (auto simp: parsePruneObjectsDraft_def Let_def src g prune_payload_def reloaded_prune_def js_or_def reloaded_sources
          simp del: get_prop.simps)
  qed
qed


subsection \<open>Properties\<close>

text \<open>
  A target written for \<open>sync_fields\<close> is read back with its type and its trimmed key; without a
  key nothing is written, and an empty target of type \<open>json\<close> is read.
\<close>

lemma sync_target_round_trip:
  "parseSyncTargetSpec (buildSyncTargetSpec type key) =
     (if trim key = [] then (str ''json'', [])
      else (if type = str ''header'' then str ''header'' else str ''json'', trim key))"
proof (cases "trim key = []")
  case False
  let ?t = "if type = str ''header'' then str ''header'' else str ''json''"
  have t: "58 \<notin> set ?t" "?t \<noteq> []" "\<not> is_ws (hd ?t)" "to_lower (trim ?t) = ?t"
    by (cases "type = str ''header''"; simp; code_simp)+
  show ?thesis
    using sync_spec_parts [OF False t(1-3)] False t(2,4)
    by (simp add: parseSyncTargetSpec_def buildSyncTargetSpec_def Let_def)
qed (simp add: parseSyncTargetSpec_def buildSyncTargetSpec_def)

text \<open>
  The advanced form of \<open>return_error\<close> survives its text: every field comes back, texts trimmed
  and a status outside 100..599 replaced by 400.
\<close>

lemma return_error_round_trip:
  assumes "wf_error_draft d" "\<not> draft_simpleMode d"
  shows "parseReturnErrorDraft (buildReturnErrorValueText d) = trimmed_error_draft d"
proof -
  let ?m = "trim (draft_message d)" and ?c = "trim (draft_code d)" and ?t = "trim (draft_type d)"
  let ?s = "status_or_400 (draft_statusCode d)"
  let ?ps = "put_when (\<not> draft_skipRetry d) (str ''skip_retry'') (Bool False)
    (put_when (?t \<noteq> []) (str ''type'') (Str ?t) (put_when (?c \<noteq> []) (str ''code'') (Str ?c)
      [(str ''message'', Str ?m), (str ''status_code'', Num ?s)]))"
  have base: "wf_val (Obj [(str ''message'', Str ?m), (str ''status_code'', Num ?s)])"
    "json_ok (Obj [(str ''message'', Str ?m), (str ''status_code'', Num ?s)])"
    using assms(1) status_or_400_wf by (auto simp: wf_error_draft_def canonical_error_payload)
  have "wf_val (Obj ?ps)"
    using assms(1) base(1) by (intro wf_put_when) (simp_all add: wf_error_draft_def)
  moreover have "json_ok (Obj ?ps)"
    using base(2) by (intro json_ok_put_when) simp_all
  ultimately have "json_parse (json_stringify (Obj ?ps)) = Some (Obj ?ps)"
    using json_parse_stringify [of "Obj ?ps"] json_norm_ok [of "Obj ?ps"] by simp
  moreover have "buildReturnErrorValueText d = json_stringify (Obj ?ps)"
    using assms(2) by (simp add: buildReturnErrorValueText_def Let_def)
  ultimately show ?thesis
    using assms(2)
    by (auto simp: parseReturnErrorDraft_def Let_def trimmed_error_draft_def return_error_defaults_def js_or_def)
qed

definition demo_error_draft :: return_error_draft where
  "demo_error_draft =
     \<lparr>draft_message = str '' no model '', draft_statusCode = Fin 42, draft_code = str ''invalid'', draft_type = [],
      draft_skipRetry = False, draft_simpleMode = False\<rparr>"

lemma return_error_round_trip_witness:
  "parseReturnErrorDraft (buildReturnErrorValueText demo_error_draft) =
     demo_error_draft\<lparr>draft_message := str ''no model'', draft_statusCode := Fin 400\<rparr>"
proof -
  have "wf_error_draft demo_error_draft" "\<not> draft_simpleMode demo_error_draft"
    "trimmed_error_draft demo_error_draft =
       demo_error_draft\<lparr>draft_message := str ''no model'', draft_statusCode := Fin 400\<rparr>"
    by code_simp+
  then show ?thesis
    using return_error_round_trip by simp
qed

text \<open>
  What the advanced form of \<open>prune_objects\<close> reads back from its own text, for every draft: the
  type, the logic and the recursion, the rules that have a path, with new identifiers and the text
  of their reloaded values. A draft with neither a type nor a rule falls back to an empty one, and
  one with a type only, joined by AND and recursive, comes back in simple mode.
\<close>

lemma prune_draft_reload:
  assumes "wf_prune_draft d" "\<not> prune_simpleMode d"
  shows "parsePruneObjectsDraft clock seed (buildPruneObjectsValueText d) =
    (reloaded_prune clock seed d, seed + length (kept_rules d))"
  using assms by (rule prune_reload)

definition demo_prune_draft :: prune_draft where
  "demo_prune_draft =
     \<lparr>prune_simpleMode = False, prune_typeText = str '' thinking'', prune_logic = str ''or'', prune_recursive = True,
      prune_rules = [\<lparr>cond_id = [], cond_path = str ''role'', cond_mode = str ''prefix'', cond_value_text = str ''5'',
        cond_invert = True, cond_pass_missing_key = False\<rparr>]\<rparr>"

lemma prune_draft_reload_witness:
  "parsePruneObjectsDraft (\<lambda>_. 7) 3 (buildPruneObjectsValueText demo_prune_draft) =
     (\<lparr>prune_simpleMode = False, prune_typeText = str ''thinking'', prune_logic = str ''OR'', prune_recursive = True,
       prune_rules = [(hd (prune_rules demo_prune_draft))\<lparr>cond_id := str ''param_override_7_3''\<rparr>]\<rparr>, 4)"
proof -
  have "wf_prune_draft demo_prune_draft" "\<not> prune_simpleMode demo_prune_draft"
    "(reloaded_prune (\<lambda>_. 7) 3 demo_prune_draft, 3 + length (kept_rules demo_prune_draft)) =
      (\<lparr>prune_simpleMode = False, prune_typeText = str ''thinking'', prune_logic = str ''OR'', prune_recursive = True,
       prune_rules = [(hd (prune_rules demo_prune_draft))\<lparr>cond_id := str ''param_override_7_3''\<rparr>]\<rparr>, 4)"
    by code_simp+
  then show ?thesis
    using prune_draft_reload by simp
qed

end
