(* ===== verification/ParamOverrideOperations.thy ===== *)
theory ParamOverrideOperations
  imports ParamOverrideDraft
begin

text \<open>
  Operations of the parameter override editor
  (web/src/components/table/channels/modals/ParamOverrideEditorModal.jsx): reading an operation
  from a parsed value, reordering, the summary and tag of the list, validation, and the text that
  is saved.

  A value \<open>null\<close> in a list of operations or conditions makes the source read a property of
  \<open>null\<close>, which throws; the readers return \<open>None\<close> then.

  Shown here: reordering moves exactly the dragged operation next to its target, an accepted list
  produces complete payloads, a saved text is a fixed point of opening and saving, and where a
  stored value changes its type on that way.
\<close>


subsection \<open>Reading\<close>

record operation =
  op_id :: jstr
  op_description :: jstr
  op_path :: jstr
  op_mode :: jstr
  op_value_text :: jstr
  op_keep_origin :: bool
  op_from :: jstr
  op_to :: jstr
  op_logic :: jstr
  op_conditions :: "condition list"

text \<open>The literal of \<open>normalizeCondition\<close> is that of \<open>normalizePruneRule\<close>.\<close>

definition normalizeCondition :: "clock \<Rightarrow> nat \<Rightarrow> jsval \<Rightarrow> condition option" where
  "normalizeCondition clock seed condition =
     (if condition = Null then None else Some (normalizePruneRule clock seed condition))"

definition createDefaultCondition :: "clock \<Rightarrow> nat \<Rightarrow> condition" where
  "createDefaultCondition clock seed = normalizePruneRule clock seed (Obj [])"

text \<open>The literal of \<open>normalizeOperation\<close>, with its conditions already read.\<close>

definition operation_of :: "clock \<Rightarrow> nat \<Rightarrow> jsval \<Rightarrow> condition list \<Rightarrow> operation" where
  "operation_of clock seed operation conditions =
     (let field = (\<lambda>k. get_prop (str k) operation)
      in \<lparr>op_id = nextLocalId clock seed,
          op_description = string_or_empty (field ''description''),
          op_path = string_or_empty (field ''path''),
          op_mode = member_or OPERATION_MODE_VALUES (str ''set'') (field ''mode''),
          op_value_text = toValueText (field ''value''),
          op_keep_origin = (field ''keep_origin'' = Bool True),
          op_from = string_or_empty (field ''from''),
          op_to = string_or_empty (field ''to''),
          op_logic =
            (if to_upper (js_string (js_or (field ''logic'') (Str (str ''OR'')))) = str ''AND''
             then str ''AND'' else str ''OR''),
          op_conditions = conditions\<rparr>)"

text \<open>The operation and the seed after its identifiers: one for itself, one for each condition.\<close>

definition normalizeOperation :: "clock \<Rightarrow> nat \<Rightarrow> jsval \<Rightarrow> (operation \<times> nat) option" where
  "normalizeOperation clock seed operation =
     (if operation = Null then None
      else let items = elements (get_prop (str ''conditions'') operation); seed' = Suc seed + length items
        in case those (map2 (normalizeCondition clock) [Suc seed..<seed'] items) of
             None \<Rightarrow> None
           | Some conditions \<Rightarrow> Some (operation_of clock seed operation conditions, seed'))"

definition createDefaultOperation :: "clock \<Rightarrow> nat \<Rightarrow> operation" where
  "createDefaultOperation clock seed = operation_of clock seed (Obj [(str ''mode'', Str (str ''set''))]) []"

text \<open>\<open>operations.map(normalizeOperation)\<close>\<close>

fun normalize_operations :: "clock \<Rightarrow> nat \<Rightarrow> jsval list \<Rightarrow> (operation list \<times> nat) option" where
  "normalize_operations clock seed [] = Some ([], seed)"
| "normalize_operations clock seed (v # vs) =
     (case normalizeOperation clock seed v of
        None \<Rightarrow> None
      | Some (operation, seed') \<Rightarrow> map_option (apfst (Cons operation)) (normalize_operations clock seed' vs))"


subsection \<open>The list of operations\<close>

definition reorderOperations :: "operation list \<Rightarrow> jstr \<Rightarrow> jstr \<Rightarrow> jstr \<Rightarrow> operation list" where
  "reorderOperations sourceOperations sourceId targetId position =
     (if sourceId = [] \<or> targetId = [] \<or> sourceId = targetId then sourceOperations
      else case find_index (\<lambda>item. op_id item = sourceId) sourceOperations of
             None \<Rightarrow> sourceOperations
           | Some sourceIndex \<Rightarrow>
               (let moved = sourceOperations ! sourceIndex; nextOperations = remove_at sourceIndex sourceOperations
                in case find_index (\<lambda>item. op_id item = targetId) nextOperations of
                     None \<Rightarrow> sourceOperations
                   | Some insertIndex \<Rightarrow>
                       insert_at (if position = str ''after'' then insertIndex + 1 else insertIndex) moved nextOperations))"

definition first_text :: "jstr list \<Rightarrow> jstr" where
  "first_text texts = (case find (\<lambda>s. s \<noteq> []) texts of Some s \<Rightarrow> s | None \<Rightarrow> str ''-'')"

definition op_mode_of :: "operation \<Rightarrow> jstr" where
  "op_mode_of op = (if op_mode op = [] then str ''set'' else op_mode op)"

definition getOperationSummary :: "operation \<Rightarrow> nat \<Rightarrow> jstr" where
  "getOperationSummary op index =
     (let mode = op_mode_of op;
          modeLabel = (case map_of OPERATION_MODE_LABEL_MAP mode of Some l \<Rightarrow> if l = [] then mode else l | None \<Rightarrow> mode);
          texts = (if mode = str ''sync_fields'' then [trim (op_from op), trim (op_to op)]
                   else [trim (op_path op), trim (op_from op), trim (op_to op)])
      in int_to_string (int index + 1) @ str ''. '' @ modeLabel @ [32, 183, 32] @ first_text texts)"

definition getOperationModeTagColor :: "jstr \<Rightarrow> jstr" where
  "getOperationModeTagColor mode =
     (let has = (\<lambda>s. includes_str mode (str s))
      in if has ''header'' then str ''cyan''
         else if has ''replace'' \<or> has ''trim'' then str ''violet''
         else if has ''copy'' \<or> has ''move'' then str ''blue''
         else if has ''error'' \<or> has ''prune'' then str ''red''
         else if has ''sync'' then str ''green''
         else str ''grey'')"

definition condition_used :: "condition \<Rightarrow> bool" where
  "condition_used c \<longleftrightarrow>
     trim (cond_path c) \<noteq> [] \<or> trim (cond_value_text c) \<noteq> [] \<or> cond_mode c \<noteq> str ''full'' \<or> cond_invert c
     \<or> cond_pass_missing_key c"

definition isOperationBlank :: "operation \<Rightarrow> bool" where
  "isOperationBlank op \<longleftrightarrow>
     op_mode op = str ''set'' \<and> trim (op_path op) = [] \<and> trim (op_from op) = [] \<and> trim (op_to op) = []
     \<and> trim (op_value_text op) = [] \<and> \<not> op_keep_origin op \<and> \<not> list_ex condition_used (op_conditions op)"


subsection \<open>Validation\<close>

text \<open>The messages, each with the line it names.\<close>

datatype op_error =
    MissingPath nat | MissingFrom nat | MissingTo nat | MissingValue nat | MissingMessage nat
  | MissingPruneRule nat | NoPruneCondition nat | MissingHeaders nat | InvalidHeaders nat

definition check_return_error :: "nat \<Rightarrow> jstr \<Rightarrow> op_error option" where
  "check_return_error line raw =
     (if raw = [] then Some (MissingValue line)
      else case json_parse raw of
             Some parsed \<Rightarrow>
               if is_plain_object parsed \<and> trimmed_or_empty (get_prop (str ''message'') parsed) = []
               then Some (MissingMessage line) else None
           | None \<Rightarrow> None)"

definition has_entries :: "jsval \<Rightarrow> bool" where
  "has_entries v \<longleftrightarrow> is_plain_object v \<and> entries v \<noteq> []"

definition check_prune_objects :: "nat \<Rightarrow> jstr \<Rightarrow> op_error option" where
  "check_prune_objects line raw =
     (if raw = [] then Some (MissingPruneRule line)
      else case json_parse raw of
             Some parsed \<Rightarrow>
               (let field = (\<lambda>k. get_prop (str k) parsed);
                    hasType = (field ''type'' \<noteq> Undefined \<and> trim (js_string (field ''type'')) \<noteq> []);
                    hasConditionsArray = (is_array (field ''conditions'') \<and> elements (field ''conditions'') \<noteq> [])
                in if is_plain_object parsed \<and> \<not> hasType \<and> \<not> has_entries (field ''where'')
                      \<and> \<not> hasConditionsArray \<and> \<not> has_entries (field ''conditions'')
                   then Some (NoPruneCondition line) else None)
           | None \<Rightarrow> None)"

definition check_pass_headers :: "nat \<Rightarrow> jstr \<Rightarrow> op_error option" where
  "check_pass_headers line raw =
     (if raw = [] then Some (MissingHeaders line)
      else if parsePassHeaderNames (parseLooseValue raw) = [] then Some (InvalidHeaders line)
      else None)"

definition check_value :: "nat \<Rightarrow> jstr \<Rightarrow> jstr \<Rightarrow> op_error option" where
  "check_value line mode raw =
     (if mode = str ''return_error'' then check_return_error line raw
      else if mode = str ''prune_objects'' then check_prune_objects line raw
      else if mode = str ''pass_headers'' then check_pass_headers line raw
      else None)"

definition validate_operation :: "nat \<Rightarrow> operation \<Rightarrow> op_error option" where
  "validate_operation line op =
     (let mode = op_mode_of op; meta = meta_of mode; pathValue = trim (op_path op);
          fromValue = trim (op_from op); toValue = trim (op_to op); raw = trim (op_value_text op)
      in if meta_path meta \<and> pathValue = [] then Some (MissingPath line)
         else if mode \<in> set FROM_REQUIRED_MODES \<and> fromValue = [] \<and> \<not> (meta_pathAlias meta \<and> pathValue \<noteq> [])
         then Some (MissingFrom line)
         else if mode \<in> set TO_REQUIRED_MODES \<and> toValue = [] \<and> \<not> (meta_pathAlias meta \<and> pathValue \<noteq> [])
         then Some (MissingTo line)
         else if meta_from meta \<and> fromValue = [] then Some (MissingFrom line)
         else if meta_to meta \<and> toValue = [] then Some (MissingTo line)
         else if mode \<in> set VALUE_REQUIRED_MODES \<and> raw = [] then Some (MissingValue line)
         else check_value line mode raw)"

text \<open>The loop; the first failing operation decides, lines count from 1.\<close>

fun validate_from :: "nat \<Rightarrow> operation list \<Rightarrow> op_error option" where
  "validate_from line [] = None"
| "validate_from line (op # ops) =
     (case validate_operation line op of Some e \<Rightarrow> Some e | None \<Rightarrow> validate_from (Suc line) ops)"

definition validateOperations :: "operation list \<Rightarrow> op_error option" where
  "validateOperations ops = validate_from 1 ops"


subsection \<open>The saved text\<close>

definition buildConditionPayload :: "condition \<Rightarrow> jsval option" where
  "buildConditionPayload c =
     (let path = trim (cond_path c)
      in if path = [] then None
         else Some (Obj (put_when (cond_pass_missing_key c) (str ''pass_missing_key'') (Bool True)
                (put_when (cond_invert c) (str ''invert'') (Bool True)
                  [(str ''path'', Str path),
                   (str ''mode'', Str (if cond_mode c = [] then str ''full'' else cond_mode c)),
                   (str ''value'', parseLooseValue (cond_value_text c))]))))"

text \<open>The assignments of the payload, in the order of the source.\<close>

definition base_payload :: "operation \<Rightarrow> (jstr \<times> jsval) list" where
  "base_payload op =
     (let mode = op_mode_of op; meta = meta_of mode;
          descriptionValue = trim (op_description op); pathValue = trim (op_path op);
          fromValue = trim (op_from op); toValue = trim (op_to op);
          p0 = [(str ''mode'', Str mode)];
          p1 = put_when (descriptionValue \<noteq> []) (str ''description'') (Str descriptionValue) p0;
          p2 = put_when (meta_path meta) (str ''path'') (Str pathValue) p1;
          p3 = put_when (meta_pathOptional meta \<and> pathValue \<noteq> []) (str ''path'') (Str pathValue) p2;
          p4 = put_when (meta_value meta) (str ''value'') (parseLooseValue (op_value_text op)) p3;
          p5 = put_when (meta_keepOrigin meta \<and> op_keep_origin op) (str ''keep_origin'') (Bool True) p4;
          p6 = put_when (meta_from meta) (str ''from'') (Str fromValue) p5;
          p7 = put_when (\<not> meta_to meta \<and> toValue \<noteq> []) (str ''to'') (Str toValue) p6
      in put_when (meta_to meta) (str ''to'') (Str toValue) p7)"

definition alias_when_empty :: "bool \<Rightarrow> jstr \<Rightarrow> jstr \<Rightarrow> (jstr \<times> jsval) list \<Rightarrow> (jstr \<times> jsval) list" where
  "alias_when_empty pathAlias k pathValue payload =
     put_when (pathAlias \<and> \<not> truthy (get_prop k (Obj payload)) \<and> pathValue \<noteq> []) k (Str pathValue) payload"

definition condition_payloads :: "operation \<Rightarrow> jsval list" where
  "condition_payloads op = List.map_filter buildConditionPayload (op_conditions op)"

definition operation_payload :: "operation \<Rightarrow> (jstr \<times> jsval) list" where
  "operation_payload op =
     (let pathAlias = meta_pathAlias (meta_of (op_mode_of op)); pathValue = trim (op_path op);
          payload = alias_when_empty pathAlias (str ''to'') pathValue
                      (alias_when_empty pathAlias (str ''from'') pathValue (base_payload op));
          conditions = condition_payloads op
      in put_when (conditions \<noteq> []) (str ''logic'') (Str (if op_logic op = str ''AND'' then str ''AND'' else str ''OR''))
           (put_when (conditions \<noteq> []) (str ''conditions'') (Arr conditions) payload))"

definition operations_text :: "operation list \<Rightarrow> jstr" where
  "operations_text ops =
     json_stringify2 (Obj [(str ''operations'', Arr (map (\<lambda>op. Obj (operation_payload op)) ops))])"

definition buildOperationsJson :: "operation list \<Rightarrow> bool \<Rightarrow> op_error + jstr" where
  "buildOperationsJson sourceOperations validate =
     (let filteredOps = filter (\<lambda>item. \<not> isOperationBlank item) sourceOperations
      in if filteredOps = [] then Inr []
         else case (if validate then validateOperations filteredOps else None) of
                Some e \<Rightarrow> Inl e
              | None \<Rightarrow> Inr (operations_text filteredOps))"



subsection \<open>Texts of values\<close>

text \<open>A text of a value that is neither a quoted string nor names a number out of range.\<close>

definition stable_text :: "jstr \<Rightarrow> bool" where
  "stable_text vt \<longleftrightarrow> wf_str vt \<and> trim vt = vt
     \<and> (case json_parse vt of Some v \<Rightarrow> json_ok v \<and> (case v of Str _ \<Rightarrow> False | _ \<Rightarrow> True) | None \<Rightarrow> True)"

lemma stable_text_cases:
  assumes "stable_text vt"
  obtains (string) "parseLooseValue vt = Str vt" "toValueText (parseLooseValue vt) = vt" "vt = [] \<or> json_parse vt = None"
  | (json) v where "parseLooseValue vt = v" "toValueText v = json_stringify v" "json_parse vt = Some v"
      "json_parse (json_stringify v) = Some v" "trim (json_stringify v) = json_stringify v" "json_stringify v \<noteq> []"
proof (cases "vt = [] \<or> json_parse vt = None")
  case True
  then show thesis
    using assms string by (auto simp: stable_text_def parseLooseValue_def)
next
  case False
  then obtain v where v: "json_parse vt = Some v"
    by auto
  have "json_ok v" "wf_val v" "v \<noteq> Undefined" "\<And>s. v \<noteq> Str s"
    using assms v wf_json_parse [OF v] json_parse_defined [OF v] by (auto simp: stable_text_def split: jsval.splits)
  then have p: "json_parse (json_stringify v) = Some v" "trim (json_stringify v) = json_stringify v"
    using json_parse_stringify json_norm_ok trim_json_stringify by auto
  moreover have "toValueText v = json_stringify v"
    using \<open>v \<noteq> Undefined\<close> \<open>\<And>s. v \<noteq> Str s\<close> by (cases v) (auto simp: toValueText_def)
  moreover have "json_stringify v \<noteq> []"
    using p(1) json_parse_blank [of "[]"] by auto
  moreover have "parseLooseValue vt = v"
    using v json_parse_blank [of vt] by (auto simp: parseLooseValue_def)
  ultimately show thesis
    using json v by blast
qed

lemma stable_reload:
  assumes "stable_text vt"
  shows "parseLooseValue (toValueText (parseLooseValue vt)) = parseLooseValue vt"
    "json_ok (parseLooseValue vt)" "wf_val (parseLooseValue vt)"
    "trim (toValueText (parseLooseValue vt)) = toValueText (parseLooseValue vt)"
    "toValueText (parseLooseValue vt) = [] \<longleftrightarrow> vt = []"
    "json_parse (toValueText (parseLooseValue vt)) = json_parse vt"
proof -
  have t: "wf_str vt" "trim vt = vt" "json_parse [] = None"
    using assms json_parse_blank [of "[]"] by (auto simp: stable_text_def)
  show "json_ok (parseLooseValue vt)"
    using assms by (auto simp: stable_text_def parseLooseValue_def split: option.splits)
  show "wf_val (parseLooseValue vt)"
    using t by (simp add: wf_parseLooseValue)
  from assms show "parseLooseValue (toValueText (parseLooseValue vt)) = parseLooseValue vt"
    "trim (toValueText (parseLooseValue vt)) = toValueText (parseLooseValue vt)"
    "toValueText (parseLooseValue vt) = [] \<longleftrightarrow> vt = []"
    "json_parse (toValueText (parseLooseValue vt)) = json_parse vt"
    by (cases rule: stable_text_cases; use t in \<open>auto simp: parseLooseValue_def\<close>)+
qed


subsection \<open>Reordering\<close>

lemma remove_at_filter:
  assumes "distinct (map f xs)" "i < length xs"
  shows "remove_at i xs = filter (\<lambda>x. f x \<noteq> f (xs ! i)) xs"
proof -
  have xs: "xs = take i xs @ xs ! i # drop (Suc i) xs"
    using assms(2) by (rule id_take_nth_drop)
  have "distinct (map f (take i xs @ xs ! i # drop (Suc i) xs))"
    using assms(1) xs by simp
  then have "\<forall>x\<in>set (take i xs @ drop (Suc i) xs). f x \<noteq> f (xs ! i)"
    by (auto simp: image_iff)
  then have "filter (\<lambda>x. f x \<noteq> f (xs ! i)) (take i xs @ xs ! i # drop (Suc i) xs) = take i xs @ drop (Suc i) xs"
    by simp
  then show ?thesis
    using xs by (simp add: remove_at_def)
qed

lemma find_index_distinct:
  assumes "distinct (map f xs)" "x \<in> set xs"
  obtains i where "find_index (\<lambda>y. f y = f x) xs = Some i" "i < length xs" "xs ! i = x"
proof (cases "find_index (\<lambda>y. f y = f x) xs")
  case None
  then show thesis
    using assms(2) by auto
next
  case (Some i)
  then have "i < length xs" "f (xs ! i) = f x"
    using find_index_Some by fastforce+
  then have "xs ! i = x"
    using assms by (metis distinct_map inj_on_contraD nth_mem)
  then show thesis
    using that Some \<open>i < length xs\<close> by blast
qed

lemma mset_remove_insert:
  assumes "i < length xs" "j \<le> length (remove_at i xs)"
  shows "mset (insert_at j (xs ! i) (remove_at i xs)) = mset xs"
proof -
  have "mset (insert_at j y ys) = add_mset y (mset ys)" for y and ys :: "'a list"
    using append_take_drop_id [of j ys] by (metis insert_at_def mset.simps(2) mset_append union_mset_add_mset_right)
  moreover have "mset xs = add_mset (xs ! i) (mset (remove_at i xs))"
    using id_take_nth_drop [OF assms(1)] by (metis remove_at_def mset.simps(2) mset_append union_mset_add_mset_right)
  ultimately show ?thesis
    by simp
qed

lemma mset_reorder: "mset (reorderOperations ops a b position) = mset ops"
proof -
  have "j < length xs" if "find_index P xs = Some j" for P j and xs :: "operation list"
    using find_index_Some [OF that] by simp
  then show ?thesis
    by (auto simp: reorderOperations_def Let_def intro!: mset_remove_insert intro: less_imp_le Suc_leI split: option.split)
qed


subsection \<open>Validation and payloads\<close>

lemma if_Some_None: "(if P then Some x else y) = None \<longleftrightarrow> \<not> P \<and> y = None"
  by simp

lemma checks_line:
  "check_return_error l raw = None \<longleftrightarrow> check_return_error l' raw = None"
  "check_prune_objects l raw = None \<longleftrightarrow> check_prune_objects l' raw = None"
  "check_pass_headers l raw = None \<longleftrightarrow> check_pass_headers l' raw = None"
  by (auto simp: check_return_error_def check_prune_objects_def check_pass_headers_def Let_def if_Some_None split: option.split)

lemma check_value_line: "check_value l mode raw = None \<longleftrightarrow> check_value l' mode raw = None"
  using checks_line [of l raw l'] by (simp add: check_value_def)

lemma validate_line: "validate_operation l op = None \<longleftrightarrow> validate_operation l' op = None"
  unfolding validate_operation_def Let_def if_Some_None using check_value_line [of l _ _ l'] by simp

lemma validate_from_all: "validate_from line ops = None \<longleftrightarrow> (\<forall>op\<in>set ops. validate_operation 0 op = None)"
proof (induction ops arbitrary: line)
  case (Cons op ops)
  then show ?case
    using validate_line [of line op 0] by (auto split: option.splits)
qed simp

lemma validated_fields:
  assumes "validate_operation l op = None"
  shows "meta_path (meta_of (op_mode_of op)) \<Longrightarrow> trim (op_path op) \<noteq> []"
    "meta_from (meta_of (op_mode_of op)) \<Longrightarrow> trim (op_from op) \<noteq> []"
    "meta_to (meta_of (op_mode_of op)) \<Longrightarrow> trim (op_to op) \<noteq> []"
  using assms unfolding validate_operation_def Let_def if_Some_None by blast+

lemma alias_meta: "meta_pathAlias (meta_of m) \<Longrightarrow> meta_from (meta_of m) \<and> meta_to (meta_of m)"
proof -
  have "\<forall>p\<in>set MODE_META. meta_pathAlias (snd p) \<longrightarrow> meta_from (snd p) \<and> meta_to (snd p)"
    by code_simp
  moreover assume "meta_pathAlias (meta_of m)"
  ultimately show ?thesis
    by (fastforce simp: meta_of_def no_meta_def split: option.splits dest!: map_of_SomeD)
qed

lemma map_of_base_payload:
  "map_of (base_payload op) (str ''mode'') = Some (Str (op_mode_of op))"
  "map_of (base_payload op) (str ''description'') = (if trim (op_description op) \<noteq> [] then Some (Str (trim (op_description op))) else None)"
  "map_of (base_payload op) (str ''path'') =
     (if meta_path (meta_of (op_mode_of op)) \<or> meta_pathOptional (meta_of (op_mode_of op)) \<and> trim (op_path op) \<noteq> []
      then Some (Str (trim (op_path op))) else None)"
  "map_of (base_payload op) (str ''value'') =
     (if meta_value (meta_of (op_mode_of op)) then Some (parseLooseValue (op_value_text op)) else None)"
  "map_of (base_payload op) (str ''keep_origin'') =
     (if meta_keepOrigin (meta_of (op_mode_of op)) \<and> op_keep_origin op then Some (Bool True) else None)"
  "map_of (base_payload op) (str ''from'') = (if meta_from (meta_of (op_mode_of op)) then Some (Str (trim (op_from op))) else None)"
  "map_of (base_payload op) (str ''to'') =
     (if meta_to (meta_of (op_mode_of op)) \<or> trim (op_to op) \<noteq> [] then Some (Str (trim (op_to op))) else None)"
  "map_of (base_payload op) (str ''conditions'') = None"
  "map_of (base_payload op) (str ''logic'') = None"
  by (simp_all add: base_payload_def Let_def)

text \<open>In an accepted operation the aliases have no effect.\<close>

lemma validated_payload:
  assumes "validate_operation l op = None"
  shows "operation_payload op =
    put_when (condition_payloads op \<noteq> []) (str ''logic'') (Str (if op_logic op = str ''AND'' then str ''AND'' else str ''OR''))
      (put_when (condition_payloads op \<noteq> []) (str ''conditions'') (Arr (condition_payloads op)) (base_payload op))"
proof -
  have "alias_when_empty (meta_pathAlias (meta_of (op_mode_of op))) k (trim (op_path op)) (base_payload op) = base_payload op"
    if "k = str ''from'' \<or> k = str ''to''" for k
    using that alias_meta [of "op_mode_of op"] validated_fields [OF assms]
    by (auto simp: alias_when_empty_def put_when_def map_of_base_payload)
  then show ?thesis
    by (simp add: operation_payload_def Let_def)
qed

text \<open>A field that the mode requires and that holds a text.\<close>

definition text_field :: "string \<Rightarrow> jsval \<Rightarrow> bool" where
  "text_field k payload \<longleftrightarrow> (case get_prop (str k) payload of Str s \<Rightarrow> s \<noteq> [] | _ \<Rightarrow> False)"

lemma parse_loose_quoted: "json_parse s = Some w \<Longrightarrow> parseLooseValue s = w"
  using json_parse_blank [of s] by (auto simp: parseLooseValue_def)


subsection \<open>Reloading\<close>

definition savable_condition :: "condition \<Rightarrow> bool" where
  "savable_condition c \<longleftrightarrow> wf_str (cond_path c) \<and> cond_mode c \<in> set CONDITION_MODE_VALUES \<and> stable_text (cond_value_text c)"

definition savable_operation :: "operation \<Rightarrow> bool" where
  "savable_operation op \<longleftrightarrow>
     wf_str (op_description op) \<and> wf_str (op_path op) \<and> wf_str (op_from op) \<and> wf_str (op_to op)
     \<and> op_mode op \<in> set OPERATION_MODE_VALUES \<and> stable_text (op_value_text op)
     \<and> (\<forall>c\<in>set (op_conditions op). savable_condition c)"

lemma CONDITION_MODE_not_Nil: "[] \<notin> set CONDITION_MODE_VALUES" and OPERATION_MODE_not_Nil: "[] \<notin> set OPERATION_MODE_VALUES"
  by code_simp+

lemma operation_mode_wf: "m \<in> set OPERATION_MODE_VALUES \<Longrightarrow> wf_str m"
  by (auto simp: OPERATION_MODE_VALUES_def OPERATION_MODE_OPTIONS_def)

lemma those_Some: "those (map (\<lambda>x. Some (f x)) xs) = Some (map f xs)"
  by (induction xs) simp_all

lemma condition_payload_reload:
  assumes "savable_condition c" "buildConditionPayload c = Some p"
  shows "normalizeCondition clock n p = Some (normalizePruneRule clock n p)"
    "buildConditionPayload (normalizePruneRule clock n p) = Some p"
    "json_ok p" "wf_val p"
proof -
  let ?ps = "put_when (cond_pass_missing_key c) (str ''pass_missing_key'') (Bool True)
    (put_when (cond_invert c) (str ''invert'') (Bool True)
      [(str ''path'', Str (trim (cond_path c))), (str ''mode'', Str (cond_mode c)),
       (str ''value'', parseLooseValue (cond_value_text c))])"
  have p: "p = Obj ?ps" "trim (cond_path c) \<noteq> []"
    using assms CONDITION_MODE_not_Nil
    by (auto simp: buildConditionPayload_def savable_condition_def Let_def split: if_splits)
  note st = stable_reload [of "cond_value_text c"]
  have canon: "canonical [(str ''path'', a :: jsval), (str ''mode'', b), (str ''value'', c)]" for a b c
    by (simp add: canonical_def key_before_def index_key_def is_digit_def js_str_simps)
  show "normalizeCondition clock n p = Some (normalizePruneRule clock n p)"
    by (simp add: normalizeCondition_def p(1))
  have "json_ok (Obj ?ps)"
    using assms(1) st by (intro json_ok_put_when) (auto simp: savable_condition_def)
  then show "json_ok p"
    by (simp only: p(1))
  have "wf_val (Obj ?ps)"
    using assms(1) st condition_mode_wf by (intro wf_put_when) (auto simp: savable_condition_def canon)
  then show "wf_val p"
    by (simp only: p(1))
  have n: "normalizePruneRule clock n p = c\<lparr>cond_id := nextLocalId clock n, cond_path := trim (cond_path c),
      cond_value_text := toValueText (parseLooseValue (cond_value_text c))\<rparr>"
    using assms(1)
    by (intro condition.equality) (simp_all add: normalizePruneRule_def p(1) string_or_empty_def member_or_def savable_condition_def)
  show "buildConditionPayload (normalizePruneRule clock n p) = Some p"
    unfolding n using p(2) assms(1) st(1) CONDITION_MODE_not_Nil
    by (auto simp: buildConditionPayload_def p(1) Let_def savable_condition_def)
qed

lemma put_when_cong:
  "b = b' \<Longrightarrow> (b' \<Longrightarrow> v = v') \<Longrightarrow> ps = ps' \<Longrightarrow> put_when b k v ps = put_when b' k v' ps'"
  by (simp add: put_when_def)

lemma base_payload_cong:
  assumes "op_mode_of op' = op_mode_of op" "trim (op_description op') = trim (op_description op)" "trim (op_to op') = trim (op_to op)"
    and "meta_path (meta_of (op_mode_of op)) \<or> meta_pathOptional (meta_of (op_mode_of op)) \<Longrightarrow> trim (op_path op') = trim (op_path op)"
    and "meta_value (meta_of (op_mode_of op)) \<Longrightarrow> parseLooseValue (op_value_text op') = parseLooseValue (op_value_text op)"
    and "meta_keepOrigin (meta_of (op_mode_of op)) \<Longrightarrow> op_keep_origin op' = op_keep_origin op"
    and "meta_from (meta_of (op_mode_of op)) \<Longrightarrow> trim (op_from op') = trim (op_from op)"
  shows "base_payload op' = base_payload op"
  unfolding base_payload_def Let_def assms(1-3) by (intro put_when_cong refl) (use assms(4-7) in auto)

lemma map_filter_inverse:
  "length ns = length ps \<Longrightarrow> \<forall>p\<in>set ps. \<forall>n. f (g n p) = Some p \<Longrightarrow> List.map_filter f (map2 g ns ps) = ps"
  by (induction ns ps rule: list_induct2) (simp_all add: List.map_filter_simps)

lemma condition_payloads_savable:
  assumes "savable_operation op" "p \<in> set (condition_payloads op)"
  shows "normalizeCondition clock n p = Some (normalizePruneRule clock n p)"
    "buildConditionPayload (normalizePruneRule clock n p) = Some p" "json_ok p" "wf_val p"
proof -
  obtain c where "c \<in> set (op_conditions op)" "buildConditionPayload c = Some p"
    using assms(2) by (auto simp: condition_payloads_def map_filter_def)
  then show "normalizeCondition clock n p = Some (normalizePruneRule clock n p)"
    "buildConditionPayload (normalizePruneRule clock n p) = Some p" "json_ok p" "wf_val p"
    using assms(1) condition_payload_reload [of c p] by (auto simp: savable_operation_def)
qed

lemma wf_base_payload:
  assumes "savable_operation op"
  shows "wf_val (Obj (base_payload op))" "json_ok (Obj (base_payload op))"
proof -
  have m: "wf_str (op_mode_of op)"
    using assms by (auto simp: savable_operation_def op_mode_of_def operation_mode_wf)
  have "wf_val (parseLooseValue (op_value_text op))" "json_ok (parseLooseValue (op_value_text op))"
    using assms stable_reload by (auto simp: savable_operation_def)
  then show "wf_val (Obj (base_payload op))" "json_ok (Obj (base_payload op))"
    unfolding base_payload_def Let_def using assms m
    by (intro wf_put_when json_ok_put_when; simp add: savable_operation_def canonical_single)+
qed

lemma wf_validated_payload:
  assumes "savable_operation op" "validate_operation l op = None"
  shows "wf_val (Obj (operation_payload op))" "json_ok (Obj (operation_payload op))"
proof -
  have "\<forall>p\<in>set (condition_payloads op). wf_val p \<and> json_ok p"
    using condition_payloads_savable [OF assms(1)] by blast
  then show "wf_val (Obj (operation_payload op))" "json_ok (Obj (operation_payload op))"
    unfolding validated_payload [OF assms(2)] using wf_base_payload [OF assms(1)]
    by (intro wf_put_when json_ok_put_when; simp)+
qed

text \<open>The operation that is read back from the payload of another one.\<close>

definition reloaded_operation :: "clock \<Rightarrow> nat \<Rightarrow> operation \<Rightarrow> operation" where
  "reloaded_operation clock seed op =
     operation_of clock seed (Obj (operation_payload op))
       (map2 (normalizePruneRule clock) [Suc seed..<Suc seed + length (condition_payloads op)] (condition_payloads op))"

lemma normalize_reloaded:
  assumes "savable_operation op" "validate_operation l op = None"
  shows "normalizeOperation clock seed (Obj (operation_payload op)) =
    Some (reloaded_operation clock seed op, Suc seed + length (condition_payloads op))"
proof -
  have items: "elements (get_prop (str ''conditions'') (Obj (operation_payload op))) = condition_payloads op"
    by (simp add: validated_payload [OF assms(2)] map_of_base_payload)
  have conds: "map2 (normalizeCondition clock) ns (condition_payloads op) =
      map (\<lambda>x. Some (case x of (n, p) \<Rightarrow> normalizePruneRule clock n p)) (zip ns (condition_payloads op))" for ns
    using condition_payloads_savable(1) [OF assms(1)] by (auto simp: set_zip dest: nth_mem)
  show ?thesis
    unfolding normalizeOperation_def items Let_def conds those_Some by (simp add: reloaded_operation_def)
qed

lemma string_or_empty_Str [simp]: "string_or_empty (Str s) = s" "string_or_empty Undefined = []"
  by (simp_all add: string_or_empty_def)

lemma reloaded_fields:
  fixes clock :: clock and seed :: nat
  assumes "savable_operation op" "validate_operation l op = None"
  defines "op' \<equiv> reloaded_operation clock seed op" and "meta \<equiv> meta_of (op_mode_of op)"
  shows "op_mode_of op' = op_mode_of op" "op_description op' = trim (op_description op)" "op_to op' = trim (op_to op)"
    "meta_path meta \<or> meta_pathOptional meta \<Longrightarrow> op_path op' = trim (op_path op)"
    "op_value_text op' = (if meta_value meta then toValueText (parseLooseValue (op_value_text op)) else [])"
    "op_keep_origin op' \<longleftrightarrow> meta_keepOrigin meta \<and> op_keep_origin op"
    "meta_from meta \<Longrightarrow> op_from op' = trim (op_from op)"
    "condition_payloads op' = condition_payloads op"
    "condition_payloads op \<noteq> [] \<Longrightarrow> op_logic op' = (if op_logic op = str ''AND'' then str ''AND'' else str ''OR'')"
proof -
  have m: "op_mode_of op = op_mode op" "op_mode op \<noteq> []" "op_mode op \<in> set OPERATION_MODE_VALUES"
    using assms(1) OPERATION_MODE_not_Nil by (auto simp: savable_operation_def op_mode_of_def)
  have up: "to_upper (str ''AND'') = str ''AND''" "to_upper (str ''OR'') \<noteq> str ''AND''"
    by code_simp+
  note d = op'_def reloaded_operation_def operation_of_def validated_payload [OF assms(2)] map_of_base_payload meta_def
  show "op_mode_of op' = op_mode_of op"
    using m by (simp add: d member_or_def op_mode_of_def Let_def)
  show "op_description op' = trim (op_description op)" "op_to op' = trim (op_to op)"
    "meta_path meta \<or> meta_pathOptional meta \<Longrightarrow> op_path op' = trim (op_path op)"
    "op_value_text op' = (if meta_value meta then toValueText (parseLooseValue (op_value_text op)) else [])"
    "op_keep_origin op' \<longleftrightarrow> meta_keepOrigin meta \<and> op_keep_origin op"
    "meta_from meta \<Longrightarrow> op_from op' = trim (op_from op)"
    by (auto simp: d Let_def)
  show "condition_payloads op' = condition_payloads op"
    using condition_payloads_savable(2) [OF assms(1)]
    unfolding op'_def reloaded_operation_def operation_of_def Let_def condition_payloads_def operation.simps
    by (intro map_filter_inverse) (simp_all flip: condition_payloads_def del: upt_Suc)
  show "condition_payloads op \<noteq> [] \<Longrightarrow> op_logic op' = (if op_logic op = str ''AND'' then str ''AND'' else str ''OR'')"
    using up by (simp add: d js_or_def Let_def)
qed

text \<open>An operation is accepted when the texts its mode requires are there and its value passes the checks of the mode.\<close>

definition value_accepted :: "jstr \<Rightarrow> jstr \<Rightarrow> bool" where
  "value_accepted mode raw \<longleftrightarrow> (mode \<in> set VALUE_REQUIRED_MODES \<longrightarrow> raw \<noteq> [] \<and> check_value 0 mode raw = None)"

lemma checked_modes:
  "str ''return_error'' \<in> set VALUE_REQUIRED_MODES" "str ''prune_objects'' \<in> set VALUE_REQUIRED_MODES"
  "str ''pass_headers'' \<in> set VALUE_REQUIRED_MODES"
  by (simp_all add: VALUE_REQUIRED_MODES_def)

lemma validate_iff:
  "validate_operation l op = None \<longleftrightarrow>
     (meta_path (meta_of (op_mode_of op)) \<longrightarrow> trim (op_path op) \<noteq> [])
     \<and> (meta_from (meta_of (op_mode_of op)) \<longrightarrow> trim (op_from op) \<noteq> [])
     \<and> (meta_to (meta_of (op_mode_of op)) \<longrightarrow> trim (op_to op) \<noteq> [])
     \<and> value_accepted (op_mode_of op) (trim (op_value_text op))"
proof -
  have "meta_from (meta_of (op_mode_of op))" if "op_mode_of op \<in> set FROM_REQUIRED_MODES"
    using required_modes_meta(1) that by blast
  moreover have "meta_to (meta_of (op_mode_of op))" if "op_mode_of op \<in> set TO_REQUIRED_MODES"
    using required_modes_meta(2) that by blast
  moreover have "check_value 0 (op_mode_of op) raw = None" if "op_mode_of op \<notin> set VALUE_REQUIRED_MODES" for raw
    using that checked_modes by (auto simp: check_value_def)
  ultimately show ?thesis
    by (subst validate_line [of l op 0]) (unfold validate_operation_def Let_def if_Some_None value_accepted_def, blast)
qed

lemma value_accepted_reload:
  assumes "stable_text vt"
  shows "value_accepted mode (toValueText (parseLooseValue vt)) \<longleftrightarrow> value_accepted mode vt"
  using stable_reload [OF assms]
  by (simp add: value_accepted_def check_value_def check_return_error_def check_prune_objects_def check_pass_headers_def)

lemma value_accepted_other: "mode \<notin> set VALUE_REQUIRED_MODES \<Longrightarrow> value_accepted mode raw"
  by (simp add: value_accepted_def)

lemma reloaded_payload:
  assumes "savable_operation op" "validate_operation l op = None"
  shows "validate_operation l' (reloaded_operation clock seed op) = None" (is ?v)
    "operation_payload (reloaded_operation clock seed op) = operation_payload op"
    "\<not> isOperationBlank (reloaded_operation clock seed op)"
proof -
  let ?op = "reloaded_operation clock seed op" and ?meta = "meta_of (op_mode_of op)"
  note f = reloaded_fields [OF assms, of clock seed]
  have st: "stable_text (op_value_text op)" "trim (op_value_text op) = op_value_text op"
    using assms(1) by (auto simp: savable_operation_def stable_text_def)
  have "value_accepted (op_mode_of op) (trim (op_value_text ?op))"
  proof (cases "meta_value ?meta")
    case True
    then show ?thesis
      using assms(2) st stable_reload(4) [OF st(1)] value_accepted_reload [OF st(1)] by (simp add: validate_iff f(5))
  next
    case False
    then show ?thesis
      using required_modes_meta(3) by (intro value_accepted_other) blast
  qed
  then show valid: ?v
    using assms(2) unfolding validate_iff f(1) by (simp add: f(3,4,7))
  show "operation_payload ?op = operation_payload op"
    unfolding validated_payload [OF valid] validated_payload [OF assms(2)] f(8)
    using stable_reload(1) [OF st(1)] by (intro put_when_cong base_payload_cong refl) (simp_all add: f)
  have "meta_path (meta_of (str ''set''))"
    by code_simp
  then show "\<not> isOperationBlank ?op"
    using validated_fields(1) [OF valid] by (auto simp: isOperationBlank_def op_mode_of_def)
qed

fun reloaded_operations :: "clock \<Rightarrow> nat \<Rightarrow> operation list \<Rightarrow> operation list" where
  "reloaded_operations clock seed [] = []"
| "reloaded_operations clock seed (op # ops) =
     reloaded_operation clock seed op # reloaded_operations clock (Suc seed + length (condition_payloads op)) ops"

lemma normalize_reloaded_operations:
  "\<forall>op\<in>set ops. savable_operation op \<and> validate_operation 0 op = None \<Longrightarrow>
    \<exists>seed'. normalize_operations clock seed (map (\<lambda>op. Obj (operation_payload op)) ops) = Some (reloaded_operations clock seed ops, seed')"
proof (induction ops arbitrary: seed)
  case (Cons op ops)
  then show ?case
    using normalize_reloaded [of op 0 clock seed] by fastforce
qed simp

lemma reloaded_operations_payload:
  "\<forall>op\<in>set ops. savable_operation op \<and> validate_operation 0 op = None \<Longrightarrow>
    map operation_payload (reloaded_operations clock seed ops) = map operation_payload ops
    \<and> (\<forall>op\<in>set (reloaded_operations clock seed ops). validate_operation 0 op = None \<and> \<not> isOperationBlank op)"
proof (induction ops arbitrary: seed)
  case (Cons op ops)
  then show ?case
    using reloaded_payload(1) [of op 0 0 clock seed] reloaded_payload(2,3) [of op 0 clock seed] by simp
qed simp

lemma operations_text_reloaded:
  assumes "\<forall>op\<in>set ops. savable_operation op \<and> validate_operation 0 op = None"
  shows "operations_text (reloaded_operations clock seed ops) = operations_text ops"
proof -
  have "map (\<lambda>op. Obj (operation_payload op)) (reloaded_operations clock seed ops) = map (\<lambda>op. Obj (operation_payload op)) ops"
    using arg_cong [OF conjunct1 [OF reloaded_operations_payload [OF assms, of clock seed]], of "map Obj"] by (simp add: comp_def)
  then show ?thesis
    by (simp only: operations_text_def)
qed

subsection \<open>Properties\<close>

text \<open>
  C35: dropping an operation on another one moves exactly that operation: the others keep their
  order, and the moved one stands directly before the target, or directly after it.
\<close>

theorem reorder_moves_one:
  assumes "distinct (map op_id ops)" "s \<in> set ops" "t \<in> set ops" "op_id s \<noteq> op_id t" "op_id s \<noteq> []" "op_id t \<noteq> []"
  shows "\<exists>xs ys. filter (\<lambda>op. op_id op \<noteq> op_id s) ops = xs @ t # ys
    \<and> reorderOperations ops (op_id s) (op_id t) position =
        (if position = str ''after'' then xs @ t # s # ys else xs @ s # t # ys)"
proof -
  let ?rest = "filter (\<lambda>op. op_id op \<noteq> op_id s) ops"
  obtain i where i: "find_index (\<lambda>item. op_id item = op_id s) ops = Some i" "i < length ops" "ops ! i = s"
    using find_index_distinct [OF assms(1,2)] .
  have rest: "remove_at i ops = ?rest"
    using remove_at_filter [OF assms(1) i(2)] i(3) by simp
  have "distinct (map op_id ?rest)" "t \<in> set ?rest"
    using assms by (simp_all add: distinct_map_filter)
  then obtain j where j: "find_index (\<lambda>item. op_id item = op_id t) ?rest = Some j" "j < length ?rest" "?rest ! j = t"
    by (rule find_index_distinct)
  have "?rest = take j ?rest @ t # drop (Suc j) ?rest"
    using id_take_nth_drop [OF j(2)] j(3) by simp
  moreover have "take (j + 1) ?rest = take j ?rest @ [t]" "drop j ?rest = t # drop (Suc j) ?rest"
    using j by (simp_all add: take_Suc_conv_app_nth Cons_nth_drop_Suc [symmetric])
  then have "reorderOperations ops (op_id s) (op_id t) position =
      (if position = str ''after'' then take j ?rest @ t # s # drop (Suc j) ?rest else take j ?rest @ s # t # drop (Suc j) ?rest)"
    using assms(4-6) i j(1) by (simp add: reorderOperations_def rest insert_at_def Let_def)
  ultimately show ?thesis
    by blast
qed

definition demo_operation :: "nat \<Rightarrow> operation" where
  "demo_operation n = (createDefaultOperation (\<lambda>_. 0) n)\<lparr>op_path := dec_digits (int n)\<rparr>"

theorem reorder_moves_one_witness:
  "\<exists>xs ys. filter (\<lambda>op. op_id op \<noteq> op_id (demo_operation 0)) (map demo_operation [0, 1, 2]) = xs @ demo_operation 2 # ys
    \<and> reorderOperations (map demo_operation [0, 1, 2]) (op_id (demo_operation 0)) (op_id (demo_operation 2)) (str ''after'') =
        xs @ demo_operation 2 # demo_operation 0 # ys"
proof -
  have "distinct (map op_id (map demo_operation [0, 1, 2]))" "op_id (demo_operation 0) \<noteq> op_id (demo_operation 2)"
    "op_id (demo_operation 0) \<noteq> []" "op_id (demo_operation 2) \<noteq> []"
    by code_simp+
  then show ?thesis
    using reorder_moves_one [of "map demo_operation [0, 1, 2]" "demo_operation 0" "demo_operation 2" "str ''after''"] by simp
qed

text \<open>
  C33: what an accepted list of operations saves is complete: every payload has its mode, and a
  text that is not blank in each of the fields path, from and to that the mode requires, and a value
  where the mode takes one.
\<close>

theorem validated_payload_complete:
  assumes "validateOperations ops = None" "op \<in> set ops"
  shows "get_prop (str ''mode'') (Obj (operation_payload op)) = Str (op_mode_of op)
    \<and> (meta_path (meta_of (op_mode_of op)) \<longrightarrow> text_field ''path'' (Obj (operation_payload op)))
    \<and> (meta_from (meta_of (op_mode_of op)) \<longrightarrow> text_field ''from'' (Obj (operation_payload op)))
    \<and> (meta_to (meta_of (op_mode_of op)) \<longrightarrow> text_field ''to'' (Obj (operation_payload op)))
    \<and> (meta_value (meta_of (op_mode_of op)) \<longrightarrow> get_prop (str ''value'') (Obj (operation_payload op)) \<noteq> Undefined)"
proof -
  have v: "validate_operation 0 op = None"
    using assms by (simp add: validateOperations_def validate_from_all)
  show ?thesis
    using validated_fields [OF v] by (simp add: validated_payload [OF v] text_field_def map_of_base_payload)
qed

theorem validated_payload_complete_witness:
  "text_field ''path'' (Obj (operation_payload (demo_operation 7)))"
proof -
  have v: "validateOperations [demo_operation 7] = None" "meta_path (meta_of (op_mode_of (demo_operation 7)))"
    by code_simp+
  from validated_payload_complete [OF v(1), of "demo_operation 7"] v(2) show ?thesis
    by simp
qed

text \<open>
  For copying and moving headers the source means the path to stand in for a missing source
  header, but the check after it rejects every such operation.
\<close>

lemma header_alias_rejected:
  assumes "op_mode op = str ''copy_header'' \<or> op_mode op = str ''move_header''" "trim (op_from op) = []"
  shows "validateOperations (op # ops) = Some (MissingFrom 1)"
proof -
  have "\<not> meta_path (meta_of (op_mode op)) \<and> meta_from (meta_of (op_mode op)) \<and> op_mode op \<noteq> []
      \<and> op_mode op \<in> set FROM_REQUIRED_MODES"
    using assms(1) by (auto simp: meta_of_def MODE_META_def no_meta_def FROM_REQUIRED_MODES_def)
  then show ?thesis
    using assms(2) by (auto simp: validateOperations_def validate_operation_def Let_def op_mode_of_def)
qed

lemma header_alias_rejected_witness:
  "validateOperations [(demo_operation 7)\<lparr>op_mode := str ''copy_header'', op_to := str ''X-Upstream-Auth''\<rparr>] = Some (MissingFrom 1)"
proof -
  have "op_mode ((demo_operation 7)\<lparr>op_mode := str ''copy_header'', op_to := str ''X-Upstream-Auth''\<rparr>) = str ''copy_header''"
    "trim (op_from ((demo_operation 7)\<lparr>op_mode := str ''copy_header'', op_to := str ''X-Upstream-Auth''\<rparr>)) = []"
    by code_simp+
  then show ?thesis
    using header_alias_rejected by blast
qed

text \<open>
  A stored string whose text reads as JSON does not survive: the editor shows it without
  quotes, and saving parses it, so that the string comes back as a number, a boolean or an object.
\<close>

lemma quoted_value_changes:
  assumes "normalizeOperation clock seed v = Some (op, seed')" "get_prop (str ''value'') v = Str s" "json_parse s = Some w"
    and "meta_value (meta_of (op_mode_of op))"
  shows "get_prop (str ''value'') (Obj (operation_payload op)) = w"
proof -
  have "op_value_text op = s"
    using assms(1,2) by (auto simp: normalizeOperation_def operation_of_def Let_def split: if_splits option.splits)
  then show ?thesis
    using assms(4) parse_loose_quoted [OF assms(3)] by (simp add: operation_payload_def alias_when_empty_def Let_def map_of_base_payload)
qed

definition demo_stored_operation :: jsval where
  "demo_stored_operation =
     Obj [(str ''mode'', Str (str ''set_header'')), (str ''path'', Str (str ''X-Api-Version'')), (str ''value'', Str (str ''20''))]"

lemma quoted_value_changes_witness:
  "\<exists>op seed. normalizeOperation (\<lambda>_. 0) 0 demo_stored_operation = Some (op, seed)
     \<and> get_prop (str ''value'') (Obj (operation_payload op)) = Num (Fin 20)"
proof -
  have "case normalizeOperation (\<lambda>_. 0) 0 demo_stored_operation of
      None \<Rightarrow> False | Some (op, seed) \<Rightarrow> meta_value (meta_of (op_mode_of op))"
    "get_prop (str ''value'') demo_stored_operation = Str (str ''20'')" "json_parse (str ''20'') = Some (Num (Fin 20))"
    by code_simp+
  then show ?thesis
    using quoted_value_changes [of "\<lambda>_. 0" 0 demo_stored_operation _ _ "str ''20''" "Num (Fin 20)"]
    by (auto split: option.splits simp del: get_prop.simps)
qed

end
