(* ===== verification/ParamOverrideTemplates.thy ===== *)
theory ParamOverrideTemplates
  imports ParamOverrideOperations
begin

text \<open>
  The templates of the parameter override editor
  (web/src/components/table/channels/modals/ParamOverrideEditorModal.jsx) and of the channel
  affinity rules (web/src/constants/channel-affinity-template.constants.js).

  Shown here: every operation of every template passes the validation of the editor, and cloning
  a template copies it without loss.
\<close>


subsection \<open>Channel affinity\<close>

definition buildPassHeadersTemplate :: "jstr list \<Rightarrow> jsval" where
  "buildPassHeadersTemplate headers =
     Obj [(str ''operations'', Arr [Obj [(str ''mode'', Str (str ''pass_headers'')), (str ''value'', Arr (map Str headers)),
       (str ''keep_origin'', Bool True)]])]"

definition CODEX_CLI_HEADER_PASSTHROUGH_HEADERS :: "jstr list" where
  "CODEX_CLI_HEADER_PASSTHROUGH_HEADERS =
     [str ''Originator'',
      str ''Session_id'',
      str ''User-Agent'',
      str ''X-Codex-Beta-Features'',
      str ''X-Codex-Turn-Metadata'']"

definition CLAUDE_CLI_HEADER_PASSTHROUGH_HEADERS :: "jstr list" where
  "CLAUDE_CLI_HEADER_PASSTHROUGH_HEADERS =
     [str ''X-Stainless-Arch'',
      str ''X-Stainless-Lang'',
      str ''X-Stainless-Os'',
      str ''X-Stainless-Package-Version'',
      str ''X-Stainless-Retry-Count'',
      str ''X-Stainless-Runtime'',
      str ''X-Stainless-Runtime-Version'',
      str ''X-Stainless-Timeout'',
      str ''User-Agent'',
      str ''X-App'',
      str ''Anthropic-Beta'',
      str ''Anthropic-Dangerous-Direct-Browser-Access'',
      str ''Anthropic-Version'']"

definition CODEX_CLI_HEADER_PASSTHROUGH_TEMPLATE :: jsval where
  "CODEX_CLI_HEADER_PASSTHROUGH_TEMPLATE = buildPassHeadersTemplate CODEX_CLI_HEADER_PASSTHROUGH_HEADERS"

definition CLAUDE_CLI_HEADER_PASSTHROUGH_TEMPLATE :: jsval where
  "CLAUDE_CLI_HEADER_PASSTHROUGH_TEMPLATE = buildPassHeadersTemplate CLAUDE_CLI_HEADER_PASSTHROUGH_HEADERS"

definition CHANNEL_AFFINITY_RULE_TEMPLATES :: "(jstr \<times> jsval) list" where
  "CHANNEL_AFFINITY_RULE_TEMPLATES =
     [(str ''codexCli'',
       Obj
         [(str ''name'', Str (str ''codex cli trace'')),
          (str ''model_regex'', Arr
            [Str (str ''^gpt-.*$'')]),
          (str ''path_regex'', Arr
            [Str (str ''/v1/responses'')]),
          (str ''key_sources'', Arr
            [Obj
               [(str ''type'', Str (str ''gjson'')),
                (str ''path'', Str (str ''prompt_cache_key''))]]),
          (str ''param_override_template'', CODEX_CLI_HEADER_PASSTHROUGH_TEMPLATE),
          (str ''value_regex'', Str ([])),
          (str ''ttl_seconds'', Num (Fin 0)),
          (str ''skip_retry_on_failure'', Bool True),
          (str ''include_using_group'', Bool True),
          (str ''include_rule_name'', Bool True)]),
      (str ''claudeCli'',
       Obj
         [(str ''name'', Str (str ''claude cli trace'')),
          (str ''model_regex'', Arr
            [Str (str ''^claude-.*$'')]),
          (str ''path_regex'', Arr
            [Str (str ''/v1/messages'')]),
          (str ''key_sources'', Arr
            [Obj
               [(str ''type'', Str (str ''gjson'')),
                (str ''path'', Str (str ''metadata.user_id''))]]),
          (str ''param_override_template'', CLAUDE_CLI_HEADER_PASSTHROUGH_TEMPLATE),
          (str ''value_regex'', Str ([])),
          (str ''ttl_seconds'', Num (Fin 0)),
          (str ''skip_retry_on_failure'', Bool True),
          (str ''include_using_group'', Bool True),
          (str ''include_rule_name'', Bool True)])]"

text \<open>\<open>JSON.parse(JSON.stringify(template || {}))\<close>; \<open>None\<close> would be a parse error.\<close>

definition cloneChannelAffinityTemplate :: "jsval \<Rightarrow> jsval option" where
  "cloneChannelAffinityTemplate template = json_parse (json_stringify (js_or template (Obj [])))"


subsection \<open>The template library\<close>

definition LEGACY_TEMPLATE :: jsval where
  "LEGACY_TEMPLATE =
     Obj
       [(str ''temperature'', Num (Fin 0)),
        (str ''max_tokens'', Num (Fin 1000))]"

definition OPERATION_TEMPLATE :: jsval where
  "OPERATION_TEMPLATE =
     Obj
       [(str ''operations'', Arr
          [Obj
             [(str ''description'', Str (str ''Set default temperature for openai/* models.'')),
              (str ''path'', Str (str ''temperature'')),
              (str ''mode'', Str (str ''set'')),
              (str ''value'', Num (to_num (7 / 10))),
              (str ''conditions'', Arr
                [Obj
                   [(str ''path'', Str (str ''model'')),
                    (str ''mode'', Str (str ''prefix'')),
                    (str ''value'', Str (str ''openai/''))]]),
              (str ''logic'', Str (str ''AND''))]])]"

definition HEADER_PASSTHROUGH_TEMPLATE :: jsval where
  "HEADER_PASSTHROUGH_TEMPLATE =
     Obj
       [(str ''operations'', Arr
          [Obj
             [(str ''description'', Str (str ''Pass through X-Request-Id header to upstream.'')),
              (str ''mode'', Str (str ''pass_headers'')),
              (str ''value'', Arr
                [Str (str ''X-Request-Id'')]),
              (str ''keep_origin'', Bool True)]])]"

definition GEMINI_IMAGE_4K_TEMPLATE :: jsval where
  "GEMINI_IMAGE_4K_TEMPLATE =
     Obj
       [(str ''operations'', Arr
          [Obj
             [(str ''description'', Str (str ''Set imageSize to 4K when model contains gemini/image and ends with 4k.'')),
              (str ''mode'', Str (str ''set'')),
              (str ''path'', Str (str ''generationConfig.imageConfig.imageSize'')),
              (str ''value'', Str (str ''4K'')),
              (str ''conditions'', Arr
                [Obj
                   [(str ''path'', Str (str ''original_model'')),
                    (str ''mode'', Str (str ''contains'')),
                    (str ''value'', Str (str ''gemini''))],
                 Obj
                   [(str ''path'', Str (str ''original_model'')),
                    (str ''mode'', Str (str ''contains'')),
                    (str ''value'', Str (str ''image''))],
                 Obj
                   [(str ''path'', Str (str ''original_model'')),
                    (str ''mode'', Str (str ''suffix'')),
                    (str ''value'', Str (str ''4k''))]]),
              (str ''logic'', Str (str ''AND''))]])]"

definition AWS_BEDROCK_ANTHROPIC_COMPAT_TEMPLATE :: jsval where
  "AWS_BEDROCK_ANTHROPIC_COMPAT_TEMPLATE =
     Obj
       [(str ''operations'', Arr
          [Obj
             [(str ''description'', Str (str ''Normalize anthropic-beta header tokens for Bedrock compatibility.'')),
              (str ''mode'', Str (str ''set_header'')),
              (str ''path'', Str (str ''anthropic-beta'')),
              (str ''value'', Obj
                [(str ''advanced-tool-use-2025-11-20'', Str (str ''tool-search-tool-2025-10-19'')),
                 (str ''bash_20241022'', Null),
                 (str ''bash_20250124'', Null),
                 (str ''code-execution-2025-08-25'', Null),
                 (str ''compact-2026-01-12'', Str (str ''compact-2026-01-12'')),
                 (str ''computer-use-2025-01-24'', Str (str ''computer-use-2025-01-24'')),
                 (str ''computer-use-2025-11-24'', Str (str ''computer-use-2025-11-24'')),
                 (str ''context-1m-2025-08-07'', Str (str ''context-1m-2025-08-07'')),
                 (str ''context-management-2025-06-27'', Str (str ''context-management-2025-06-27'')),
                 (str ''effort-2025-11-24'', Null),
                 (str ''fast-mode-2026-02-01'', Null),
                 (str ''files-api-2025-04-14'', Null),
                 (str ''fine-grained-tool-streaming-2025-05-14'', Null),
                 (str ''interleaved-thinking-2025-05-14'', Str (str ''interleaved-thinking-2025-05-14'')),
                 (str ''mcp-client-2025-11-20'', Null),
                 (str ''mcp-client-2025-04-04'', Null),
                 (str ''mcp-servers-2025-12-04'', Null),
                 (str ''output-128k-2025-02-19'', Null),
                 (str ''structured-output-2024-03-01'', Null),
                 (str ''prompt-caching-scope-2026-01-05'', Null),
                 (str ''skills-2025-10-02'', Null),
                 (str ''structured-outputs-2025-11-13'', Null),
                 (str ''text_editor_20241022'', Null),
                 (str ''text_editor_20250124'', Null),
                 (str ''token-efficient-tools-2025-02-19'', Null),
                 (str ''tool-search-tool-2025-10-19'', Str (str ''tool-search-tool-2025-10-19'')),
                 (str ''web-fetch-2025-09-10'', Null),
                 (str ''web-search-2025-03-05'', Null),
                 (str ''oauth-2025-04-20'', Null)])],
           Obj
             [(str ''description'', Str (str ''Remove all tools[*].custom.input_examples before upstream relay.'')),
              (str ''mode'', Str (str ''delete'')),
              (str ''path'', Str (str ''tools.*.custom.input_examples''))]])]"

definition TEMPLATE_GROUP_OPTIONS :: "(jstr \<times> jstr) list" where
  "TEMPLATE_GROUP_OPTIONS =
     [([22522, 30784, 27169, 26495], str ''basic''),
      ([22330, 26223, 27169, 26495], str ''scenario'')]"

record template_preset =
  preset_group :: jstr
  preset_label :: jstr
  preset_kind :: jstr
  preset_payload :: jsval

definition TEMPLATE_PRESET_CONFIG :: "(jstr \<times> template_preset) list" where
  "TEMPLATE_PRESET_CONFIG =
     [(str ''operations_default'',
       \<lparr>preset_group = str ''basic'', preset_label = [26032, 26684, 24335, 27169, 26495, 65288, 35268, 21017, 38598, 65289],
        preset_kind = str ''operations'', preset_payload = OPERATION_TEMPLATE\<rparr>),
      (str ''legacy_default'',
       \<lparr>preset_group = str ''basic'', preset_label = [26087, 26684, 24335, 27169, 26495, 65288] @ str ''JSON '' @ [23545, 35937, 65289],
        preset_kind = str ''legacy'', preset_payload = LEGACY_TEMPLATE\<rparr>),
      (str ''pass_headers_auth'',
       \<lparr>preset_group = str ''scenario'', preset_label = [35831, 27714, 22836, 36879, 20256, 65288] @ str ''X-Request-Id'' @ [65289],
        preset_kind = str ''operations'', preset_payload = HEADER_PASSTHROUGH_TEMPLATE\<rparr>),
      (str ''gemini_image_4k'',
       \<lparr>preset_group = str ''scenario'', preset_label = str ''Gemini '' @ [22270, 29255] @ str '' 4K'',
        preset_kind = str ''operations'', preset_payload = GEMINI_IMAGE_4K_TEMPLATE\<rparr>),
      (str ''claude_cli_headers_passthrough'',
       \<lparr>preset_group = str ''scenario'', preset_label = str ''Claude CLI '' @ [35831, 27714, 22836, 36879, 20256],
        preset_kind = str ''operations'', preset_payload = CLAUDE_CLI_HEADER_PASSTHROUGH_TEMPLATE\<rparr>),
      (str ''codex_cli_headers_passthrough'',
       \<lparr>preset_group = str ''scenario'', preset_label = str ''Codex CLI '' @ [35831, 27714, 22836, 36879, 20256],
        preset_kind = str ''operations'', preset_payload = CODEX_CLI_HEADER_PASSTHROUGH_TEMPLATE\<rparr>),
      (str ''aws_bedrock_anthropic_beta_override'',
       \<lparr>preset_group = str ''scenario'', preset_label = str ''AWS Bedrock Claude '' @ [20860, 23481, 27169, 26495],
        preset_kind = str ''operations'', preset_payload = AWS_BEDROCK_ANTHROPIC_COMPAT_TEMPLATE\<rparr>)]"

text \<open>\<open>preset.payload?.operations || []\<close>\<close>

definition preset_operations :: "template_preset \<Rightarrow> jsval list" where
  "preset_operations preset = elements (js_or (get_prop (str ''operations'') (preset_payload preset)) (Arr []))"


subsection \<open>Templates are valid\<close>

text \<open>A value that reads as an accepted operation; identifiers and conditions do not matter.\<close>

definition acceptable_source :: "jsval \<Rightarrow> bool" where
  "acceptable_source v \<longleftrightarrow> v \<noteq> Null \<and> list_all (\<lambda>c. c \<noteq> Null) (elements (get_prop (str ''conditions'') v))
     \<and> validate_operation 0 (operation_of (\<lambda>_. 0) 0 v []) = None"

lemma validate_operation_of:
  "validate_operation l (operation_of clock seed v cs) = validate_operation l (operation_of clock' seed' v cs')"
  unfolding validate_operation_def operation_of_def op_mode_of_def Let_def operation.simps ..

lemma normalize_acceptable:
  assumes "acceptable_source v"
  shows "\<exists>op seed'. normalizeOperation clock seed v = Some (op, seed') \<and> validate_operation 0 op = None"
proof -
  let ?items = "elements (get_prop (str ''conditions'') v)"
  have conds: "map2 (normalizeCondition clock) ns ?items =
      map (\<lambda>x. Some (case x of (n, p) \<Rightarrow> normalizePruneRule clock n p)) (zip ns ?items)" for ns
    using assms by (auto simp: acceptable_source_def normalizeCondition_def list_all_iff dest: set_zip_rightD)
  show ?thesis
    using assms validate_operation_of [of 0 clock seed v _ "\<lambda>_. 0" 0 "[]"]
    unfolding normalizeOperation_def Let_def conds those_Some by (auto simp: acceptable_source_def)
qed

lemma normalize_acceptable_list:
  "list_all acceptable_source vs \<Longrightarrow>
    \<exists>ops seed'. normalize_operations clock seed vs = Some (ops, seed') \<and> length ops = length vs \<and> validateOperations ops = None"
proof (induction vs arbitrary: seed)
  case (Cons v vs)
  obtain op s where op: "normalizeOperation clock seed v = Some (op, s)" "validate_operation 0 op = None"
    using normalize_acceptable [of v clock seed] Cons.prems by auto
  obtain ops seed' where "normalize_operations clock s vs = Some (ops, seed')" "length ops = length vs" "validateOperations ops = None"
    using Cons.IH [of s] Cons.prems by auto
  with op show ?case
    by (auto simp: validateOperations_def validate_from_all)
qed (simp add: validateOperations_def)

lemma presets_acceptable:
  "list_all (\<lambda>p. preset_operations (snd p) \<noteq> [] \<and> list_all acceptable_source (preset_operations (snd p)))
     (filter (\<lambda>p. preset_kind (snd p) = str ''operations'') TEMPLATE_PRESET_CONFIG)"
  by code_simp

text \<open>
  Every template of the library that consists of operations can be filled in: it reads as at
  least one operation, and the validation of the editor accepts all of them.
\<close>

lemma templates_accepted:
  "list_all (\<lambda>p. case normalize_operations clock seed (preset_operations (snd p)) of
       None \<Rightarrow> False
     | Some (ops, _) \<Rightarrow> ops \<noteq> [] \<and> validateOperations ops = None)
     (filter (\<lambda>p. preset_kind (snd p) = str ''operations'') TEMPLATE_PRESET_CONFIG)"
proof -
  have "case normalize_operations clock seed vs of None \<Rightarrow> False | Some (ops, _) \<Rightarrow> ops \<noteq> [] \<and> validateOperations ops = None"
    if ok: "vs \<noteq> [] \<and> list_all acceptable_source vs" for vs
    using normalize_acceptable_list [of vs clock seed] ok by auto
  then show ?thesis
    using presets_acceptable unfolding list_all_iff by blast
qed

lemma rule_templates_wf:
  "list_all (\<lambda>p. wf_val (snd p) \<and> json_ok (snd p) \<and> truthy (snd p)) CHANNEL_AFFINITY_RULE_TEMPLATES"
  by code_simp

text \<open>Cloning a template of the channel affinity rules gives an equal value.\<close>

lemma affinity_templates_cloned:
  "map (\<lambda>p. cloneChannelAffinityTemplate (snd p)) CHANNEL_AFFINITY_RULE_TEMPLATES =
     map (\<lambda>p. Some (snd p)) CHANNEL_AFFINITY_RULE_TEMPLATES"
proof -
  have "cloneChannelAffinityTemplate v = Some v" if ok: "wf_val v \<and> json_ok v \<and> truthy v" for v
    using ok json_parse_stringify [of v] json_norm_ok [of v] by (simp add: cloneChannelAffinityTemplate_def js_or_def)
  then show ?thesis
    using rule_templates_wf by (auto simp: list_all_iff)
qed

end
