(* ===== verification/ParamOverrideEditor.thy ===== *)
theory ParamOverrideEditor
  imports ParamOverrideTemplates JS_Dict
begin

text \<open>
  The state of the parameter override editor, its effects and its handlers
  (web/src/components/table/channels/modals/ParamOverrideEditorModal.jsx).

  Messages are the keys of the translated texts; an empty error text is \<open>None\<close>. A handler that
  shows a message returns it beside the new state. Where the source reads a property of \<open>null\<close>
  and throws, the result is \<open>None\<close>. \<open>localIdSeed\<close> is the module variable behind the identifiers;
  rendering spends identifiers as well, because the argument of \<open>useState\<close> and the prune draft are
  built on every render.
\<close>


subsection \<open>State\<close>

datatype edit_mode = Visual | Json
datatype visual_mode = Operations | Legacy

datatype editor_msg =
    JsonFormatIncorrect | JsonFormatError | NotLegalJson | LegacyNotObject | InvalidOperation op_error
  | NotJsonObject | LegacyIllegalForAppend | LegacyNotObjectForAppend | SelectRuleFirst | TargetUnsupported
  | ValueNotJson | ValueFormatted

record param_editor =
  editMode :: edit_mode
  visualMode :: visual_mode
  legacyValue :: jstr
  operations :: "operation list"
  jsonText :: jstr
  jsonError :: "editor_msg option"
  operationSearch :: jstr
  selectedOperationId :: jstr
  expandedConditionMap :: "(jstr \<times> jstr list) list"
  draggedOperationId :: jstr
  dragOverOperationId :: jstr
  dragOverPosition :: jstr
  templateGroupKey :: jstr
  templatePresetKey :: jstr
  headerValueExampleVisible :: bool
  fieldGuideVisible :: bool
  fieldGuideTarget :: jstr
  fieldGuideKeyword :: jstr
  localIdSeed :: nat

definition initial_param_editor :: "clock \<Rightarrow> nat \<Rightarrow> param_editor" where
  "initial_param_editor clock seed =
     \<lparr>editMode = Visual, visualMode = Operations, legacyValue = [],
      operations = [createDefaultOperation clock seed], jsonText = [], jsonError = None, operationSearch = [],
      selectedOperationId = [], expandedConditionMap = [], draggedOperationId = [], dragOverOperationId = [],
      dragOverPosition = str ''before'', templateGroupKey = str ''basic'', templatePresetKey = str ''operations_default'',
      headerValueExampleVisible = False, fieldGuideVisible = False, fieldGuideTarget = str ''path'',
      fieldGuideKeyword = [], localIdSeed = Suc seed\<rparr>"

definition verifyJSON :: "jstr \<Rightarrow> bool" where
  "verifyJSON s \<longleftrightarrow> json_parse s \<noteq> None"

text \<open>\<open>nextState.operations[0]?.id || ''\<close>\<close>

definition first_id :: "operation list \<Rightarrow> jstr" where
  "first_id ops = (case ops of [] \<Rightarrow> [] | op # _ \<Rightarrow> op_id op)"


subsection \<open>Opening\<close>

record initial_state =
  init_editMode :: edit_mode
  init_visualMode :: visual_mode
  init_legacyValue :: jstr
  init_operations :: "operation list"
  init_jsonText :: jstr
  init_jsonError :: "editor_msg option"

definition one_default :: "clock \<Rightarrow> nat \<Rightarrow> operation list \<times> nat" where
  "one_default clock seed = ([createDefaultOperation clock seed], Suc seed)"

text \<open>The operations of a parsed list, or a default one when it is empty.\<close>

definition operations_or_default :: "clock \<Rightarrow> nat \<Rightarrow> jsval list \<Rightarrow> (operation list \<times> nat) option" where
  "operations_or_default clock seed items =
     (if items \<noteq> [] then normalize_operations clock seed items else Some (one_default clock seed))"

definition has_operations :: "jsval \<Rightarrow> bool" where
  "has_operations parsed \<longleftrightarrow> is_plain_object parsed \<and> is_array (get_prop (str ''operations'') parsed)"

definition parseInitialState :: "clock \<Rightarrow> nat \<Rightarrow> jsval \<Rightarrow> (initial_state \<times> nat) option" where
  "parseInitialState clock seed rawValue =
     (let text = string_or_empty rawValue; trimmed = trim text;
          fresh = \<lparr>init_editMode = Visual, init_visualMode = Operations, init_legacyValue = [],
                   init_operations = fst (one_default clock seed), init_jsonText = [], init_jsonError = None\<rparr>
      in if trimmed = [] then Some (fresh, Suc seed)
         else case json_parse trimmed of
                None \<Rightarrow> Some (fresh\<lparr>init_editMode := Json, init_jsonText := text, init_jsonError := Some JsonFormatIncorrect\<rparr>,
                              Suc seed)
              | Some parsed \<Rightarrow>
                  (let pretty = json_stringify2 parsed
                   in if has_operations parsed
                      then map_option (\<lambda>(ops, seed'). (fresh\<lparr>init_operations := ops, init_jsonText := pretty\<rparr>, seed'))
                             (operations_or_default clock seed (elements (get_prop (str ''operations'') parsed)))
                      else if is_plain_object parsed
                      then Some (fresh\<lparr>init_visualMode := Legacy, init_legacyValue := pretty, init_jsonText := pretty\<rparr>, Suc seed)
                      else Some (fresh\<lparr>init_editMode := Json, init_jsonText := pretty\<rparr>, Suc seed)))"

text \<open>The effect that runs when the editor becomes visible with a value.\<close>

definition open_editor :: "clock \<Rightarrow> jsval \<Rightarrow> param_editor \<Rightarrow> param_editor option" where
  "open_editor clock value st =
     map_option (\<lambda>(nextState, seed). st
        \<lparr>editMode := init_editMode nextState, visualMode := init_visualMode nextState,
         legacyValue := init_legacyValue nextState, operations := init_operations nextState,
         jsonText := init_jsonText nextState, jsonError := init_jsonError nextState, operationSearch := [],
         selectedOperationId := first_id (init_operations nextState), expandedConditionMap := [],
         draggedOperationId := [], dragOverOperationId := [], dragOverPosition := str ''before'',
         templateGroupKey := str ''basic'',
         templatePresetKey :=
           (if init_visualMode nextState = Legacy then str ''legacy_default'' else str ''operations_default''),
         headerValueExampleVisible := False, fieldGuideVisible := False, fieldGuideTarget := str ''path'',
         fieldGuideKeyword := [], localIdSeed := seed\<rparr>)
       (parseInitialState clock (localIdSeed st) value)"


subsection \<open>Values derived from the state, and the effects on them\<close>

definition repair_selected_operation :: "param_editor \<Rightarrow> param_editor" where
  "repair_selected_operation st =
     (if operations st = [] then st\<lparr>selectedOperationId := []\<rparr>
      else if \<not> list_ex (\<lambda>item. op_id item = selectedOperationId st) (operations st)
      then st\<lparr>selectedOperationId := op_id (hd (operations st))\<rparr>
      else st)"

definition templatePresetOptions :: "param_editor \<Rightarrow> (jstr \<times> jstr) list" where
  "templatePresetOptions st =
     map (\<lambda>(value, config). (value, preset_label config))
       (filter (\<lambda>(_, config). preset_group config = templateGroupKey st) TEMPLATE_PRESET_CONFIG)"

definition repair_template_preset :: "param_editor \<Rightarrow> param_editor" where
  "repair_template_preset st =
     (let options = templatePresetOptions st
      in if options = [] \<or> list_ex (\<lambda>item. fst item = templatePresetKey st) options then st
         else st\<lparr>templatePresetKey := fst (hd options)\<rparr>)"

definition operationCount :: "param_editor \<Rightarrow> nat" where
  "operationCount st = length (filter (\<lambda>item. \<not> isOperationBlank item) (operations st))"

definition filteredOperations :: "param_editor \<Rightarrow> operation list" where
  "filteredOperations st =
     (let keyword = to_lower (trim (operationSearch st))
      in if keyword = [] then operations st
         else filter (\<lambda>op.
                let searchableText = to_lower (join [32] (filter (\<lambda>s. s \<noteq> [])
                      [op_description op, op_mode op, op_path op, op_from op, op_to op, op_value_text op]))
                in includes_str searchableText keyword) (operations st))"

definition selectedOperation :: "param_editor \<Rightarrow> operation option" where
  "selectedOperation st = find (\<lambda>op. op_id op = selectedOperationId st) (operations st)"

text \<open>\<open>findIndex\<close>, with \<open>None\<close> for -1.\<close>

definition selectedOperationIndex :: "param_editor \<Rightarrow> nat option" where
  "selectedOperationIndex st = find_index (\<lambda>op. op_id op = selectedOperationId st) (operations st)"

definition returnErrorDraft :: "param_editor \<Rightarrow> return_error_draft option" where
  "returnErrorDraft st =
     (case selectedOperation st of
        Some op \<Rightarrow> if op_mode op \<noteq> str ''return_error'' then None else Some (parseReturnErrorDraft (op_value_text op))
      | None \<Rightarrow> None)"

text \<open>The draft of the selected operation and the seed after it; it is built while rendering.\<close>

definition pruneObjectsDraft :: "clock \<Rightarrow> param_editor \<Rightarrow> (prune_draft \<times> nat) option" where
  "pruneObjectsDraft clock st =
     (case selectedOperation st of
        Some op \<Rightarrow>
          if op_mode op \<noteq> str ''prune_objects'' then None
          else Some (parsePruneObjectsDraft clock (localIdSeed st) (op_value_text op))
      | None \<Rightarrow> None)"

definition topOperationModes :: "param_editor \<Rightarrow> (jstr \<times> int) list" where
  "topOperationModes st =
     (let counts = foldl (\<lambda>acc op.
            obj_put (op_mode_of op) ((case map_of acc (op_mode_of op) of Some n \<Rightarrow> n | None \<Rightarrow> 0) + 1) acc) [] (operations st)
      in slice 0 4 (sort_by (\<lambda>a b. snd b - snd a) counts))"

definition filteredFieldGuideSections :: "param_editor \<Rightarrow> (jstr \<times> guide_field list) list" where
  "filteredFieldGuideSections st =
     (let keyword = to_lower (trim (fieldGuideKeyword st))
      in if keyword = [] then BUILTIN_FIELD_SECTIONS
         else filter (\<lambda>section. snd section \<noteq> [])
                (map (\<lambda>section. (fst section,
                   filter (\<lambda>field. includes_str
                     (to_lower (join [32] (filter (\<lambda>s. s \<noteq> []) [field_key field, field_label field, field_tip field]))) keyword)
                     (snd section))) BUILTIN_FIELD_SECTIONS))"

definition fieldGuideFieldCount :: "param_editor \<Rightarrow> nat" where
  "fieldGuideFieldCount st = foldl (\<lambda>total section. total + length (snd section)) 0 (filteredFieldGuideSections st)"

definition selectedConditionKeys :: "param_editor \<Rightarrow> jstr list" where
  "selectedConditionKeys st =
     (case map_of (expandedConditionMap st) (selectedOperationId st) of Some keys \<Rightarrow> keys | None \<Rightarrow> [])"


subsection \<open>The text to save, and the two modes of editing\<close>

definition buildVisualJson :: "param_editor \<Rightarrow> editor_msg + jstr" where
  "buildVisualJson st =
     (if visualMode st = Legacy then
        (let trimmed = trim (legacyValue st)
         in if trimmed = [] then Inr []
            else case json_parse trimmed of
                   None \<Rightarrow> Inl NotLegalJson
                 | Some parsed \<Rightarrow>
                     if \<not> is_plain_object parsed then Inl LegacyNotObject else Inr (json_stringify2 parsed))
      else case buildOperationsJson (operations st) True of
             Inl e \<Rightarrow> Inl (InvalidOperation e)
           | Inr text \<Rightarrow> Inr text)"

definition unvalidated_text :: "operation list \<Rightarrow> jstr" where
  "unvalidated_text ops = (case buildOperationsJson ops False of Inr text \<Rightarrow> text | Inl _ \<Rightarrow> [])"

definition switchToJsonMode :: "param_editor \<Rightarrow> param_editor \<times> editor_msg option" where
  "switchToJsonMode st =
     (if editMode st = Json then (st, None)
      else case buildVisualJson st of
             Inr text \<Rightarrow> (st\<lparr>jsonText := text, jsonError := None, editMode := Json\<rparr>, None)
           | Inl msg \<Rightarrow>
               (st\<lparr>jsonText := (if visualMode st = Legacy then legacyValue st else unvalidated_text (operations st)),
                   jsonError := Some msg, editMode := Json\<rparr>, Some msg))"

definition switchToVisualMode :: "clock \<Rightarrow> param_editor \<Rightarrow> (param_editor \<times> editor_msg option) option" where
  "switchToVisualMode clock st =
     (let trimmed = trim (jsonText st); fallback = createDefaultOperation clock (localIdSeed st)
      in if editMode st = Visual then Some (st, None)
         else if trimmed = []
         then Some (st\<lparr>visualMode := Operations, operations := [fallback], selectedOperationId := op_id fallback,
                       legacyValue := [], jsonError := None, editMode := Visual, localIdSeed := Suc (localIdSeed st)\<rparr>, None)
         else case json_parse trimmed of
                None \<Rightarrow> Some (st, Some NotLegalJson)
              | Some parsed \<Rightarrow>
                  if has_operations parsed
                  then map_option (\<lambda>(nextOperations, seed).
                         (st\<lparr>visualMode := Operations, operations := nextOperations,
                             selectedOperationId := first_id nextOperations, legacyValue := [], jsonError := None,
                             editMode := Visual, templateGroupKey := str ''basic'',
                             templatePresetKey := str ''operations_default'', localIdSeed := seed\<rparr>, None))
                       (operations_or_default clock (localIdSeed st) (elements (get_prop (str ''operations'') parsed)))
                  else if is_plain_object parsed
                  then Some (st\<lparr>visualMode := Legacy, legacyValue := json_stringify2 parsed, operations := [fallback],
                                selectedOperationId := op_id fallback, jsonError := None, editMode := Visual,
                                templateGroupKey := str ''basic'', templatePresetKey := str ''legacy_default'',
                                localIdSeed := Suc (localIdSeed st)\<rparr>, None)
                  else Some (st, Some NotJsonObject))"

definition handleJsonChange :: "jstr \<Rightarrow> param_editor \<Rightarrow> param_editor" where
  "handleJsonChange nextValue st =
     (let trimmed = trim nextValue
      in st\<lparr>jsonText := nextValue,
            jsonError := (if trimmed = [] then None else if \<not> verifyJSON trimmed then Some JsonFormatError else None)\<rparr>)"

definition formatJson :: "param_editor \<Rightarrow> param_editor \<times> editor_msg option" where
  "formatJson st =
     (let trimmed = trim (jsonText st)
      in if trimmed = [] then (st, None)
         else case json_parse trimmed of
                None \<Rightarrow> (st, Some NotLegalJson)
              | Some parsed \<Rightarrow> (st\<lparr>jsonText := json_stringify2 parsed, jsonError := None\<rparr>, None))"

definition visualValidationError :: "param_editor \<Rightarrow> editor_msg option" where
  "visualValidationError st =
     (if editMode st \<noteq> Visual then None else case buildVisualJson st of Inl msg \<Rightarrow> Some msg | Inr _ \<Rightarrow> None)"

text \<open>The text handed to \<open>onSave\<close>, or the message shown instead.\<close>

definition handleSave :: "param_editor \<Rightarrow> editor_msg + jstr" where
  "handleSave st =
     (if editMode st = Json then
        (let trimmed = trim (jsonText st)
         in if trimmed = [] then Inr []
            else case json_parse trimmed of None \<Rightarrow> Inl NotLegalJson | Some parsed \<Rightarrow> Inr (json_stringify2 parsed))
      else buildVisualJson st)"


subsection \<open>Templates\<close>

definition fillLegacyTemplate :: "clock \<Rightarrow> jsval \<Rightarrow> param_editor \<Rightarrow> param_editor" where
  "fillLegacyTemplate clock legacyPayload st =
     (let text = json_stringify2 legacyPayload; fallback = createDefaultOperation clock (localIdSeed st)
      in st\<lparr>visualMode := Legacy, legacyValue := text, operations := [fallback], selectedOperationId := op_id fallback,
            expandedConditionMap := [], jsonText := text, jsonError := None, editMode := Visual,
            localIdSeed := Suc (localIdSeed st)\<rparr>)"

definition fillOperationsTemplate :: "clock \<Rightarrow> jsval list \<Rightarrow> param_editor \<Rightarrow> param_editor option" where
  "fillOperationsTemplate clock operationsPayload st =
     map_option (\<lambda>(finalOperations, seed).
        st\<lparr>visualMode := Operations, operations := finalOperations, selectedOperationId := first_id finalOperations,
           expandedConditionMap := [], jsonText := json_stringify2 (Obj [(str ''operations'', Arr operationsPayload)]),
           jsonError := None, editMode := Visual, localIdSeed := seed\<rparr>)
       (operations_or_default clock (localIdSeed st) operationsPayload)"

definition appendLegacyTemplate :: "clock \<Rightarrow> jsval \<Rightarrow> param_editor \<Rightarrow> param_editor \<times> editor_msg option" where
  "appendLegacyTemplate clock legacyPayload st =
     (let trimmed = trim (legacyValue st);
          current =
            (if visualMode st = Legacy \<and> trimmed \<noteq> [] then
               (case json_parse trimmed of
                  None \<Rightarrow> Inl LegacyIllegalForAppend
                | Some parsed \<Rightarrow> if \<not> is_plain_object parsed then Inl LegacyNotObjectForAppend else Inr (entries parsed))
             else Inr [])
      in case current of
           Inl msg \<Rightarrow> (st, Some msg)
         | Inr parsedCurrent \<Rightarrow>
             (let text = json_stringify2 (Obj (obj_spread (entries legacyPayload) parsedCurrent));
                  fallback = createDefaultOperation clock (localIdSeed st)
              in (st\<lparr>visualMode := Legacy, legacyValue := text, operations := [fallback],
                     selectedOperationId := op_id fallback, expandedConditionMap := [], jsonText := text,
                     jsonError := None, editMode := Visual, localIdSeed := Suc (localIdSeed st)\<rparr>, None)))"

definition appendOperationsTemplate :: "clock \<Rightarrow> jsval list \<Rightarrow> param_editor \<Rightarrow> param_editor option" where
  "appendOperationsTemplate clock operationsPayload st =
     map_option (\<lambda>(appended, seed).
        let existing = (if visualMode st = Operations then filter (\<lambda>item. \<not> isOperationBlank item) (operations st) else []);
            nextOperations = existing @ appended
        in st\<lparr>visualMode := Operations, operations := (if nextOperations \<noteq> [] then nextOperations else appended),
              selectedOperationId := (if first_id nextOperations \<noteq> [] then first_id nextOperations else first_id appended),
              expandedConditionMap := [], legacyValue := [], jsonError := None, editMode := Visual, jsonText := [],
              localIdSeed := seed\<rparr>)
       (normalize_operations clock (localIdSeed st) operationsPayload)"

definition clearValue :: "clock \<Rightarrow> param_editor \<Rightarrow> param_editor" where
  "clearValue clock st =
     (let fallback = createDefaultOperation clock (localIdSeed st)
      in st\<lparr>visualMode := Operations, legacyValue := [], operations := [fallback], selectedOperationId := op_id fallback,
            expandedConditionMap := [], jsonText := [], jsonError := None, templateGroupKey := str ''basic'',
            templatePresetKey := str ''operations_default'', localIdSeed := Suc (localIdSeed st)\<rparr>)"

definition default_preset :: template_preset where
  "default_preset = snd (hd TEMPLATE_PRESET_CONFIG)"

definition getSelectedTemplatePreset :: "param_editor \<Rightarrow> template_preset" where
  "getSelectedTemplatePreset st =
     (case map_of TEMPLATE_PRESET_CONFIG (templatePresetKey st) of Some preset \<Rightarrow> preset | None \<Rightarrow> default_preset)"

definition fillTemplateFromLibrary :: "clock \<Rightarrow> param_editor \<Rightarrow> param_editor option" where
  "fillTemplateFromLibrary clock st =
     (let preset = getSelectedTemplatePreset st
      in if preset_kind preset = str ''legacy'' then Some (fillLegacyTemplate clock (js_or (preset_payload preset) (Obj [])) st)
         else fillOperationsTemplate clock (preset_operations preset) st)"

definition appendTemplateFromLibrary :: "clock \<Rightarrow> param_editor \<Rightarrow> (param_editor \<times> editor_msg option) option" where
  "appendTemplateFromLibrary clock st =
     (let preset = getSelectedTemplatePreset st
      in if preset_kind preset = str ''legacy''
         then Some (appendLegacyTemplate clock (js_or (preset_payload preset) (Obj [])) st)
         else map_option (\<lambda>st'. (st', None)) (appendOperationsTemplate clock (preset_operations preset) st))"

definition resetEditorState :: "clock \<Rightarrow> param_editor \<Rightarrow> param_editor" where
  "resetEditorState clock st = (clearValue clock st)\<lparr>editMode := Visual\<rparr>"


subsection \<open>Operations\<close>

text \<open>The patches the form applies to an operation and to a condition or rule.\<close>

datatype operation_patch =
    PatchMode jstr | PatchPath jstr | PatchDescription jstr | PatchValueText jstr | PatchKeepOrigin bool
  | PatchFrom jstr | PatchTo jstr | PatchFromTo jstr jstr | PatchLogic jstr

fun apply_patch :: "operation_patch \<Rightarrow> operation \<Rightarrow> operation" where
  "apply_patch (PatchMode m) op = op\<lparr>op_mode := m\<rparr>"
| "apply_patch (PatchPath p) op = op\<lparr>op_path := p\<rparr>"
| "apply_patch (PatchDescription d) op = op\<lparr>op_description := d\<rparr>"
| "apply_patch (PatchValueText v) op = op\<lparr>op_value_text := v\<rparr>"
| "apply_patch (PatchKeepOrigin b) op = op\<lparr>op_keep_origin := b\<rparr>"
| "apply_patch (PatchFrom s) op = op\<lparr>op_from := s\<rparr>"
| "apply_patch (PatchTo s) op = op\<lparr>op_to := s\<rparr>"
| "apply_patch (PatchFromTo a b) op = op\<lparr>op_from := a, op_to := b\<rparr>"
| "apply_patch (PatchLogic l) op = op\<lparr>op_logic := l\<rparr>"

datatype condition_patch =
  CondPath jstr | CondMode jstr | CondValueText jstr | CondInvert bool | CondPassMissingKey bool

fun apply_cond_patch :: "condition_patch \<Rightarrow> condition \<Rightarrow> condition" where
  "apply_cond_patch (CondPath p) c = c\<lparr>cond_path := p\<rparr>"
| "apply_cond_patch (CondMode m) c = c\<lparr>cond_mode := m\<rparr>"
| "apply_cond_patch (CondValueText v) c = c\<lparr>cond_value_text := v\<rparr>"
| "apply_cond_patch (CondInvert b) c = c\<lparr>cond_invert := b\<rparr>"
| "apply_cond_patch (CondPassMissingKey b) c = c\<lparr>cond_pass_missing_key := b\<rparr>"

definition map_operation :: "jstr \<Rightarrow> (operation \<Rightarrow> operation) \<Rightarrow> param_editor \<Rightarrow> param_editor" where
  "map_operation operationId f st =
     st\<lparr>operations := map (\<lambda>item. if op_id item = operationId then f item else item) (operations st)\<rparr>"

definition updateOperation :: "jstr \<Rightarrow> operation_patch \<Rightarrow> param_editor \<Rightarrow> param_editor" where
  "updateOperation operationId patch st = map_operation operationId (apply_patch patch) st"

definition applyBuiltinField :: "jstr \<Rightarrow> jstr \<Rightarrow> param_editor \<Rightarrow> param_editor \<times> editor_msg option" where
  "applyBuiltinField fieldKey target st =
     (case selectedOperation st of
        None \<Rightarrow> (st, Some SelectRuleFirst)
      | Some op \<Rightarrow>
          (let mode = op_mode_of op; meta = meta_of mode; sync = (mode = str ''sync_fields'');
               spec = (if sync then buildSyncTargetSpec (str ''json'') fieldKey else fieldKey)
           in if target = str ''path'' \<and> (meta_path meta \<or> meta_pathOptional meta \<or> meta_pathAlias meta)
              then (updateOperation (op_id op) (PatchPath fieldKey) st, None)
              else if target = str ''from'' \<and> (meta_from meta \<or> meta_pathAlias meta \<or> sync)
              then (updateOperation (op_id op) (PatchFrom spec) st, None)
              else if target = str ''to'' \<and> (meta_to meta \<or> sync)
              then (updateOperation (op_id op) (PatchTo spec) st, None)
              else (st, Some TargetUnsupported)))"

definition openFieldGuide :: "jstr \<Rightarrow> param_editor \<Rightarrow> param_editor" where
  "openFieldGuide target st = st\<lparr>fieldGuideTarget := target, fieldGuideVisible := True\<rparr>"

definition formatSelectedOperationValueAsJson :: "param_editor \<Rightarrow> param_editor \<times> editor_msg option" where
  "formatSelectedOperationValueAsJson st =
     (case selectedOperation st of
        None \<Rightarrow> (st, None)
      | Some op \<Rightarrow>
          (let raw = trim (op_value_text op)
           in if raw = [] then (st, None)
              else case json_parse raw of
                     None \<Rightarrow> (st, Some ValueNotJson)
                   | Some parsed \<Rightarrow>
                       (updateOperation (op_id op) (PatchValueText (json_stringify2 parsed)) st, Some ValueFormatted)))"

definition find_operation :: "jstr \<Rightarrow> param_editor \<Rightarrow> operation option" where
  "find_operation operationId st = find (\<lambda>item. op_id item = operationId) (operations st)"

definition updateReturnErrorDraft ::
    "jstr \<Rightarrow> (return_error_draft \<Rightarrow> return_error_draft) \<Rightarrow> param_editor \<Rightarrow> param_editor" where
  "updateReturnErrorDraft operationId draftPatch st =
     (case find_operation operationId st of
        None \<Rightarrow> st
      | Some current \<Rightarrow>
          updateOperation operationId
            (PatchValueText (buildReturnErrorValueText (draftPatch (parseReturnErrorDraft (op_value_text current))))) st)"

text \<open>The updater gets the seed after the draft has been parsed, since it may create a rule.\<close>

definition updatePruneObjectsDraft ::
    "clock \<Rightarrow> jstr \<Rightarrow> (nat \<Rightarrow> prune_draft \<Rightarrow> prune_draft \<times> nat) \<Rightarrow> param_editor \<Rightarrow> param_editor" where
  "updatePruneObjectsDraft clock operationId updater st =
     (case find_operation operationId st of
        None \<Rightarrow> st
      | Some current \<Rightarrow>
          (case parsePruneObjectsDraft clock (localIdSeed st) (op_value_text current) of
             (draft, seed) \<Rightarrow>
               (case updater seed draft of
                  (nextDraft, seed') \<Rightarrow>
                    updateOperation operationId (PatchValueText (buildPruneObjectsValueText nextDraft))
                      (st\<lparr>localIdSeed := seed'\<rparr>))))"

definition addPruneRule :: "clock \<Rightarrow> jstr \<Rightarrow> param_editor \<Rightarrow> param_editor" where
  "addPruneRule clock operationId =
     updatePruneObjectsDraft clock operationId (\<lambda>seed draft.
       (draft\<lparr>prune_simpleMode := False, prune_rules := prune_rules draft @ [normalizePruneRule clock seed (Obj [])]\<rparr>, Suc seed))"

definition updatePruneRule :: "clock \<Rightarrow> jstr \<Rightarrow> jstr \<Rightarrow> condition_patch \<Rightarrow> param_editor \<Rightarrow> param_editor" where
  "updatePruneRule clock operationId ruleId patch =
     updatePruneObjectsDraft clock operationId (\<lambda>seed draft.
       (draft\<lparr>prune_rules := map (\<lambda>rule. if cond_id rule = ruleId then apply_cond_patch patch rule else rule) (prune_rules draft)\<rparr>,
        seed))"

definition removePruneRule :: "clock \<Rightarrow> jstr \<Rightarrow> jstr \<Rightarrow> param_editor \<Rightarrow> param_editor" where
  "removePruneRule clock operationId ruleId =
     updatePruneObjectsDraft clock operationId (\<lambda>seed draft.
       (draft\<lparr>prune_rules := filter (\<lambda>rule. cond_id rule \<noteq> ruleId) (prune_rules draft)\<rparr>, seed))"

definition addOperation :: "clock \<Rightarrow> param_editor \<Rightarrow> param_editor" where
  "addOperation clock st =
     (let created = createDefaultOperation clock (localIdSeed st)
      in st\<lparr>operations := operations st @ [created], selectedOperationId := op_id created,
            localIdSeed := Suc (localIdSeed st)\<rparr>)"

definition duplicateOperation :: "clock \<Rightarrow> jstr \<Rightarrow> param_editor \<Rightarrow> param_editor option" where
  "duplicateOperation clock operationId st =
     (case find_index (\<lambda>item. op_id item = operationId) (operations st) of
        None \<Rightarrow> Some st
      | Some index \<Rightarrow>
          (let source = operations st ! index;
               payload = Obj
                 [(str ''description'', Str (op_description source)), (str ''path'', Str (op_path source)),
                  (str ''mode'', Str (op_mode source)), (str ''value'', parseLooseValue (op_value_text source)),
                  (str ''keep_origin'', Bool (op_keep_origin source)), (str ''from'', Str (op_from source)),
                  (str ''to'', Str (op_to source)), (str ''logic'', Str (op_logic source)),
                  (str ''conditions'', Arr (map (\<lambda>c. Obj
                     [(str ''path'', Str (cond_path c)), (str ''mode'', Str (cond_mode c)),
                      (str ''value'', parseLooseValue (cond_value_text c)), (str ''invert'', Bool (cond_invert c)),
                      (str ''pass_missing_key'', Bool (cond_pass_missing_key c))]) (op_conditions source)))]
           in map_option (\<lambda>(cloned, seed).
                st\<lparr>operations := insert_at (Suc index) cloned (operations st), selectedOperationId := op_id cloned,
                   localIdSeed := seed\<rparr>)
                (normalizeOperation clock (localIdSeed st) payload)))"

definition removeOperation :: "clock \<Rightarrow> jstr \<Rightarrow> param_editor \<Rightarrow> param_editor" where
  "removeOperation clock operationId st =
     st\<lparr>operations :=
          (if length (operations st) \<le> 1 then [createDefaultOperation clock (localIdSeed st)]
           else filter (\<lambda>item. op_id item \<noteq> operationId) (operations st)),
        expandedConditionMap := obj_delete operationId (expandedConditionMap st),
        localIdSeed := (if length (operations st) \<le> 1 then Suc (localIdSeed st) else localIdSeed st)\<rparr>"


subsection \<open>Dragging\<close>

definition resetOperationDragState :: "param_editor \<Rightarrow> param_editor" where
  "resetOperationDragState st =
     st\<lparr>draggedOperationId := [], dragOverOperationId := [], dragOverPosition := str ''before''\<rparr>"

definition moveOperation :: "jstr \<Rightarrow> jstr \<Rightarrow> jstr \<Rightarrow> param_editor \<Rightarrow> param_editor" where
  "moveOperation sourceId targetId position st =
     (if sourceId = [] \<or> targetId = [] \<or> sourceId = targetId then st
      else st\<lparr>operations := reorderOperations (operations st) sourceId targetId position, selectedOperationId := sourceId\<rparr>)"

definition handleOperationDragStart :: "jstr \<Rightarrow> param_editor \<Rightarrow> param_editor" where
  "handleOperationDragStart operationId st = st\<lparr>draggedOperationId := operationId, selectedOperationId := operationId\<rparr>"

text \<open>\<open>clientY\<close> and the rectangle of the row, in pixels.\<close>

definition handleOperationDragOver :: "rat \<Rightarrow> rat \<Rightarrow> rat \<Rightarrow> jstr \<Rightarrow> param_editor \<Rightarrow> param_editor" where
  "handleOperationDragOver clientY rectTop rectHeight operationId st =
     (if draggedOperationId st = [] \<or> draggedOperationId st = operationId then st
      else st\<lparr>dragOverOperationId := operationId,
              dragOverPosition := (if clientY - rectTop > rectHeight / 2 then str ''after'' else str ''before'')\<rparr>)"

text \<open>\<open>transferred\<close> is the text the drag event carries.\<close>

definition handleOperationDrop :: "jstr \<Rightarrow> jstr \<Rightarrow> param_editor \<Rightarrow> param_editor" where
  "handleOperationDrop transferred operationId st =
     (let sourceId = (if draggedOperationId st \<noteq> [] then draggedOperationId st else transferred);
          position = (if dragOverOperationId st = operationId then dragOverPosition st else str ''before'')
      in resetOperationDragState (moveOperation sourceId operationId position st))"


subsection \<open>Conditions\<close>

definition expanded_keys :: "param_editor \<Rightarrow> jstr \<Rightarrow> jstr list" where
  "expanded_keys st operationId = (case map_of (expandedConditionMap st) operationId of Some keys \<Rightarrow> keys | None \<Rightarrow> [])"

definition set_expanded :: "jstr \<Rightarrow> jstr list \<Rightarrow> param_editor \<Rightarrow> param_editor" where
  "set_expanded operationId keys st = st\<lparr>expandedConditionMap := obj_put operationId keys (expandedConditionMap st)\<rparr>"

definition addCondition :: "clock \<Rightarrow> jstr \<Rightarrow> param_editor \<Rightarrow> param_editor" where
  "addCondition clock operationId st =
     (let createdCondition = createDefaultCondition clock (localIdSeed st)
      in (set_expanded operationId (expanded_keys st operationId @ [cond_id createdCondition])
           (map_operation operationId (\<lambda>op. op\<lparr>op_conditions := op_conditions op @ [createdCondition]\<rparr>) st))
           \<lparr>localIdSeed := Suc (localIdSeed st)\<rparr>)"

definition updateCondition :: "jstr \<Rightarrow> jstr \<Rightarrow> condition_patch \<Rightarrow> param_editor \<Rightarrow> param_editor" where
  "updateCondition operationId conditionId patch st =
     map_operation operationId (\<lambda>op. op\<lparr>op_conditions :=
       map (\<lambda>c. if cond_id c = conditionId then apply_cond_patch patch c else c) (op_conditions op)\<rparr>) st"

definition removeCondition :: "jstr \<Rightarrow> jstr \<Rightarrow> param_editor \<Rightarrow> param_editor" where
  "removeCondition operationId conditionId st =
     set_expanded operationId (filter (\<lambda>i. i \<noteq> conditionId) (expanded_keys st operationId))
       (map_operation operationId (\<lambda>op. op\<lparr>op_conditions := filter (\<lambda>c. cond_id c \<noteq> conditionId) (op_conditions op)\<rparr>) st)"

definition handleConditionCollapseChange :: "jstr \<Rightarrow> jstr list \<Rightarrow> param_editor \<Rightarrow> param_editor" where
  "handleConditionCollapseChange operationId activeKeys st = set_expanded operationId (filter (\<lambda>k. k \<noteq> []) activeKeys) st"

definition expandAllSelectedConditions :: "param_editor \<Rightarrow> param_editor" where
  "expandAllSelectedConditions st =
     (case selectedOperation st of
        None \<Rightarrow> st
      | Some op \<Rightarrow>
          if selectedOperationId st = [] then st
          else set_expanded (selectedOperationId st) (map cond_id (op_conditions op)) st)"

definition collapseAllSelectedConditions :: "param_editor \<Rightarrow> param_editor" where
  "collapseAllSelectedConditions st =
     (if selectedOperationId st = [] then st else set_expanded (selectedOperationId st) [] st)"

end
