(* ===== verification/ParamOverrideProperties.thy ===== *)
theory ParamOverrideProperties
  imports ParamOverrideEditor
begin

text \<open>
  The parameter override editor as a state machine, and what holds in every state it reaches.

  \<open>param_step\<close> has one rule for every handler, effect and direct state change of the component,
  and one for rendering, which spends identifiers. The invariant \<open>param_inv\<close> is kept by each of
  them: there is always an operation, identifiers are unique and were issued before, and modes are
  known ones. Shown on top of it: what is saved is read back and saved again unchanged, appending a
  template keeps the settings, and where the forms lose what the user enters.
\<close>


subsection \<open>Well-formed operations\<close>

definition condition_ok :: "clock \<Rightarrow> nat \<Rightarrow> condition \<Rightarrow> bool" where
  "condition_ok clock seed c \<longleftrightarrow> cond_mode c \<in> set CONDITION_MODE_VALUES \<and> cond_id c \<in> nextLocalId clock ` {..<seed}"

definition operation_ok :: "clock \<Rightarrow> nat \<Rightarrow> operation \<Rightarrow> bool" where
  "operation_ok clock seed op \<longleftrightarrow>
     op_mode op \<in> set OPERATION_MODE_VALUES \<and> op_id op \<in> nextLocalId clock ` {..<seed}
     \<and> distinct (map cond_id (op_conditions op)) \<and> (\<forall>c\<in>set (op_conditions op). condition_ok clock seed c)"

definition operations_ok :: "clock \<Rightarrow> nat \<Rightarrow> operation list \<Rightarrow> bool" where
  "operations_ok clock seed ops \<longleftrightarrow>
     ops \<noteq> [] \<and> distinct (map op_id ops) \<and> (\<forall>op\<in>set ops. operation_ok clock seed op)"

lemma operation_ok_mono: "operation_ok clock m op \<Longrightarrow> m \<le> n \<Longrightarrow> operation_ok clock n op"
  unfolding operation_ok_def condition_ok_def using local_ids.issued_mono by blast

lemma operations_ok_mono: "operations_ok clock m ops \<Longrightarrow> m \<le> n \<Longrightarrow> operations_ok clock n ops"
  unfolding operations_ok_def using operation_ok_mono by blast

lemma member_or_in: "other \<in> set allowed \<Longrightarrow> member_or allowed other v \<in> set allowed"
  by (simp add: member_or_def split: jsval.split)

lemma set_mode_known: "str ''set'' \<in> set OPERATION_MODE_VALUES"
  by (simp add: OPERATION_MODE_VALUES_def OPERATION_MODE_OPTIONS_def)

lemma normalizePruneRule_ok:
  "cond_id (normalizePruneRule clock n v) = nextLocalId clock n"
  "cond_mode (normalizePruneRule clock n v) \<in> set CONDITION_MODE_VALUES"
  using condition_mode_wf(2) by (simp_all add: normalizePruneRule_def member_or_in)

lemma those_map2_conditions:
  "those (map2 (normalizeCondition clock) ns vs) = Some cs \<Longrightarrow> cs = map2 (normalizePruneRule clock) ns vs"
proof (induction ns vs arbitrary: cs rule: list_induct2')
  case (4 n ns v vs)
  then show ?case
    by (auto simp: normalizeCondition_def split: if_splits option.splits)
qed simp_all

lemma normalizeOperation_ok:
  assumes "normalizeOperation clock seed v = Some (op, seed')"
  shows "seed < seed'" "op_id op = nextLocalId clock seed" "operation_ok clock seed' op"
proof -
  let ?items = "elements (get_prop (str ''conditions'') v)"
  let ?cs = "map2 (normalizePruneRule clock) [Suc seed..<seed'] ?items"
  have s: "seed' = Suc seed + length ?items" and op: "op = operation_of clock seed v ?cs"
    using assms by (auto simp: normalizeOperation_def Let_def split: if_splits option.splits dest!: those_map2_conditions)
  show "seed < seed'" "op_id op = nextLocalId clock seed"
    by (simp_all add: s op operation_of_def Let_def)
  have "map cond_id ?cs = map (nextLocalId clock) (map fst (zip [Suc seed..<seed'] ?items))"
    by (simp add: normalizePruneRule_ok case_prod_beta)
  also have "map fst (zip [Suc seed..<seed'] ?items) = [Suc seed..<seed']"
    using s by (simp add: map_fst_zip)
  finally have ids: "map cond_id ?cs = map (nextLocalId clock) [Suc seed..<seed']" .
  have "\<forall>c\<in>set ?cs. condition_ok clock seed' c"
  proof
    fix c
    assume c: "c \<in> set ?cs"
    then have "cond_id c \<in> cond_id ` set ?cs"
      by (rule imageI)
    also have "cond_id ` set ?cs = set (map (nextLocalId clock) [Suc seed..<seed'])"
      unfolding ids [symmetric] by (rule set_map [symmetric])
    finally have "cond_id c \<in> set (map (nextLocalId clock) [Suc seed..<seed'])" .
    then show "condition_ok clock seed' c"
      using c local_ids.segment_issued normalizePruneRule_ok(2) by (fastforce simp: condition_ok_def)
  qed
  moreover have "op_id op \<in> nextLocalId clock ` {..<seed'}"
    using s by (simp add: op operation_of_def Let_def)
  moreover have "op_mode op \<in> set OPERATION_MODE_VALUES"
    by (simp add: op operation_of_def Let_def member_or_in set_mode_known)
  moreover have cs: "op_conditions op = ?cs"
    by (simp add: op operation_of_def Let_def)
  moreover have "distinct (map cond_id (op_conditions op))"
    unfolding cs ids by (rule local_ids.distinct_segment)
  ultimately show "operation_ok clock seed' op"
    unfolding operation_ok_def by metis
qed

lemma default_ok: "operation_ok clock (Suc seed) (createDefaultOperation clock seed)"
  "op_id (createDefaultOperation clock seed) = nextLocalId clock seed"
  by (simp_all add: createDefaultOperation_def operation_of_def operation_ok_def Let_def member_or_in set_mode_known)

lemma default_operations_ok: "operations_ok clock (Suc seed) [createDefaultOperation clock seed]"
  by (simp add: operations_ok_def default_ok)

lemma normalize_operations_ok:
  "normalize_operations clock seed vs = Some (ops, seed') \<Longrightarrow>
    seed \<le> seed' \<and> length ops = length vs \<and> (\<forall>op\<in>set ops. operation_ok clock seed' op)
    \<and> distinct (map op_id ops) \<and> op_id ` set ops \<subseteq> nextLocalId clock ` {seed..<seed'}"
proof (induction vs arbitrary: seed ops)
  case (Cons v vs)
  obtain op s rest where op: "normalizeOperation clock seed v = Some (op, s)" "normalize_operations clock s vs = Some (rest, seed')"
    "ops = op # rest"
    using Cons.prems by (auto split: option.splits)
  note n = normalizeOperation_ok [OF op(1)] and ih = Cons.IH [OF op(2)]
  have "nextLocalId clock seed \<notin> nextLocalId clock ` {s..<seed'}"
    using n(1) by (auto simp: nextLocalId_eq)
  then have "op_id op \<notin> op_id ` set rest"
    using n(2) ih by auto
  moreover have "operation_ok clock seed' op"
    using n(3) ih by (auto intro: operation_ok_mono)
  moreover have "nextLocalId clock ` {s..<seed'} \<subseteq> nextLocalId clock ` {seed..<seed'}"
    using n(1) by (intro image_mono) auto
  ultimately show ?case
    using n ih op(3) by auto
qed simp

lemma operations_or_default_ok:
  "operations_or_default clock seed items = Some (ops, seed') \<Longrightarrow> seed \<le> seed' \<and> operations_ok clock seed' ops"
  using normalize_operations_ok [of clock seed items ops seed'] default_operations_ok
  by (auto simp: operations_or_default_def one_default_def operations_ok_def split: if_splits)


subsection \<open>The invariant\<close>

definition param_inv :: "clock \<Rightarrow> param_editor \<Rightarrow> bool" where
  "param_inv clock st \<longleftrightarrow> operations_ok clock (localIdSeed st) (operations st)"

lemma param_inv_frame:
  "param_inv clock st \<Longrightarrow> operations st' = operations st \<Longrightarrow> localIdSeed st \<le> localIdSeed st' \<Longrightarrow> param_inv clock st'"
  using operations_ok_mono by (auto simp: param_inv_def)

lemma param_inv_default:
  "operations st' = [createDefaultOperation clock n] \<Longrightarrow> localIdSeed st' = Suc n \<Longrightarrow> param_inv clock st'"
  by (simp add: param_inv_def default_operations_ok)

lemma open_editor_inv: "open_editor clock value st = Some st' \<Longrightarrow> param_inv clock st'"
  using default_operations_ok operations_or_default_ok
  by (auto simp: open_editor_def parseInitialState_def Let_def one_default_def param_inv_def split: option.splits if_splits)

lemma switch_visual_inv: "param_inv clock st \<Longrightarrow> switchToVisualMode clock st = Some (st', msg) \<Longrightarrow> param_inv clock st'"
  using default_operations_ok operations_or_default_ok
  by (auto simp: switchToVisualMode_def Let_def param_inv_def split: option.splits if_splits)

lemma switch_json_frame:
  "operations (fst (switchToJsonMode st)) = operations st" "localIdSeed (fst (switchToJsonMode st)) = localIdSeed st"
  by (auto simp: switchToJsonMode_def split: sum.split)

lemma format_json_frame: "operations (fst (formatJson st)) = operations st" "localIdSeed (fst (formatJson st)) = localIdSeed st"
  by (auto simp: formatJson_def Let_def split: option.split)

lemma fill_legacy_inv: "param_inv clock (fillLegacyTemplate clock v st)"
  by (rule param_inv_default [of _ _ "localIdSeed st"]) (simp_all add: fillLegacyTemplate_def Let_def)

lemma fill_operations_inv: "fillOperationsTemplate clock vs st = Some st' \<Longrightarrow> param_inv clock st'"
  using operations_or_default_ok by (auto simp: fillOperationsTemplate_def param_inv_def)

lemma append_legacy_inv: "param_inv clock st \<Longrightarrow> param_inv clock (fst (appendLegacyTemplate clock v st))"
  using default_operations_ok by (auto simp: appendLegacyTemplate_def Let_def param_inv_def split: sum.split)

lemma operations_ok_append:
  assumes "operations_ok clock m ops" "set es \<subseteq> set ops" "distinct (map op_id es)" "m \<le> n"
    and "\<forall>op\<in>set new. operation_ok clock n op" "distinct (map op_id new)" "op_id ` set new \<subseteq> nextLocalId clock ` {m..<n}"
    and "es @ new \<noteq> []"
  shows "operations_ok clock n (es @ new)"
proof -
  have "op_id ` set es \<subseteq> nextLocalId clock ` {..<m}"
    using assms(1,2) by (auto simp: operations_ok_def operation_ok_def)
  then have "op_id ` set es \<inter> nextLocalId clock ` {m..<n} = {}"
    using local_ids.fresh_segment [of "map op_id es" clock m n] by simp
  then have "op_id ` set es \<inter> op_id ` set new = {}"
    using assms(7) by blast
  then show ?thesis
    using assms operations_ok_mono [OF assms(1,4)] by (auto simp: operations_ok_def)
qed

lemma append_or_last: "(if xs @ ys \<noteq> [] then xs @ ys else ys) = xs @ ys"
  by simp

lemma append_operations_inv:
  assumes "param_inv clock st" "appendOperationsTemplate clock vs st = Some st'" "vs \<noteq> []"
  shows "param_inv clock st'"
proof -
  let ?es = "if visualMode st = Operations then filter (\<lambda>item. \<not> isOperationBlank item) (operations st) else []"
  obtain new seed where n: "normalize_operations clock (localIdSeed st) vs = Some (new, seed)"
    "operations st' = ?es @ new" "localIdSeed st' = seed"
    using assms(2) unfolding appendOperationsTemplate_def Let_def append_or_last by auto
  note ok = normalize_operations_ok [OF n(1)]
  have "operations_ok clock seed (?es @ new)"
    using assms(1) ok assms(3)
    by (intro operations_ok_append [of clock "localIdSeed st" "operations st"])
      (auto simp: param_inv_def operations_ok_def distinct_map_filter)
  then show ?thesis
    by (simp add: param_inv_def n)
qed

lemma operations_ok_map:
  assumes "operations_ok clock m ops" "m \<le> n" "\<And>op. operation_ok clock m op \<Longrightarrow> op_id (f op) = op_id op \<and> operation_ok clock n (f op)"
  shows "operations_ok clock n (map (\<lambda>op. if op_id op = i then f op else op) ops)"
proof -
  have "map op_id (map (\<lambda>op. if op_id op = i then f op else op) ops) = map op_id ops"
    using assms(1,3) by (auto simp: operations_ok_def)
  moreover have "\<forall>op\<in>set ops. operation_ok clock n (if op_id op = i then f op else op)"
    using assms operation_ok_mono [OF _ assms(2)] by (simp add: operations_ok_def)
  ultimately show ?thesis
    using assms(1) unfolding operations_ok_def by (simp only: set_map ball_simps Nil_is_map_conv) blast
qed

lemma map_operation_inv:
  assumes "param_inv clock st" "localIdSeed st \<le> n"
    and "\<And>op. operation_ok clock (localIdSeed st) op \<Longrightarrow> op_id (f op) = op_id op \<and> operation_ok clock n (f op)"
  shows "param_inv clock ((map_operation i f st)\<lparr>localIdSeed := n\<rparr>)"
  using operations_ok_map [OF _ assms(2,3), of "operations st" i] assms(1) by (simp add: map_operation_def param_inv_def)


lemma map_operation_inv_same:
  assumes "param_inv clock st"
    and "\<And>op. operation_ok clock (localIdSeed st) op \<Longrightarrow> op_id (f op) = op_id op \<and> operation_ok clock (localIdSeed st) (f op)"
  shows "param_inv clock (map_operation i f st)"
  using map_operation_inv [OF assms(1) order_refl assms(2)] by (simp add: map_operation_def)

definition patch_ok :: "operation_patch \<Rightarrow> bool" where
  "patch_ok patch = (case patch of PatchMode m \<Rightarrow> m \<in> set OPERATION_MODE_VALUES | _ \<Rightarrow> True)"

definition cond_patch_ok :: "condition_patch \<Rightarrow> bool" where
  "cond_patch_ok patch = (case patch of CondMode m \<Rightarrow> m \<in> set CONDITION_MODE_VALUES | _ \<Rightarrow> True)"

lemma apply_patch_ok:
  "patch_ok patch \<Longrightarrow> operation_ok clock n op \<Longrightarrow> op_id (apply_patch patch op) = op_id op \<and> operation_ok clock n (apply_patch patch op)"
  by (cases patch) (auto simp: patch_ok_def operation_ok_def)

lemma apply_cond_patch_ok:
  "cond_id (apply_cond_patch patch c) = cond_id c"
  "cond_patch_ok patch \<Longrightarrow> condition_ok clock n c \<Longrightarrow> condition_ok clock n (apply_cond_patch patch c)"
  by (cases patch; auto simp: cond_patch_ok_def condition_ok_def)+

lemma updateOperation_inv: "param_inv clock st \<Longrightarrow> patch_ok patch \<Longrightarrow> param_inv clock (updateOperation i patch st)"
  unfolding updateOperation_def by (rule map_operation_inv_same) (simp_all add: apply_patch_ok)

lemma builtin_field_inv: "param_inv clock st \<Longrightarrow> param_inv clock (fst (applyBuiltinField k target st))"
  by (auto simp: applyBuiltinField_def Let_def patch_ok_def intro: updateOperation_inv split: option.split)

lemma format_value_inv: "param_inv clock st \<Longrightarrow> param_inv clock (fst (formatSelectedOperationValueAsJson st))"
  by (auto simp: formatSelectedOperationValueAsJson_def Let_def patch_ok_def intro: updateOperation_inv split: option.split)

lemma return_error_inv: "param_inv clock st \<Longrightarrow> param_inv clock (updateReturnErrorDraft i f st)"
  by (auto simp: updateReturnErrorDraft_def patch_ok_def intro: updateOperation_inv split: option.split)

lemma parsePrune_seed: "parsePruneObjectsDraft clock seed text = (d, seed') \<Longrightarrow> seed \<le> seed'"
  by (auto simp: parsePruneObjectsDraft_def Let_def split: if_splits option.splits jsval.splits)

lemma prune_inv:
  assumes "param_inv clock st" "\<And>seed d. seed \<le> snd (updater seed d)"
  shows "param_inv clock (updatePruneObjectsDraft clock i updater st)"
proof (cases "find_operation i st")
  case (Some op)
  obtain d seed where d: "parsePruneObjectsDraft clock (localIdSeed st) (op_value_text op) = (d, seed)"
    by fastforce
  have "localIdSeed st \<le> snd (updater seed d)"
    using parsePrune_seed [OF d] assms(2) by (rule order_trans)
  then have "param_inv clock (st\<lparr>localIdSeed := snd (updater seed d)\<rparr>)"
    by (intro param_inv_frame [OF assms(1)]) simp_all
  then show ?thesis
    by (auto simp: updatePruneObjectsDraft_def Some d patch_ok_def intro: updateOperation_inv split: prod.split)
qed (simp add: updatePruneObjectsDraft_def assms(1))

lemma add_operation_inv: "param_inv clock st \<Longrightarrow> param_inv clock (addOperation clock st)"
  unfolding param_inv_def addOperation_def Let_def
  by (simp, intro operations_ok_append [of clock "localIdSeed st" "operations st"])
    (auto simp: default_ok operations_ok_def)

lemma operations_ok_mset:
  assumes "operations_ok clock n ops" "mset ops' = mset ops"
  shows "operations_ok clock n ops'"
proof -
  have "set ops' = set ops" "mset (map op_id ops') = mset (map op_id ops)"
    using assms(2) by (metis set_mset_mset, metis mset_map)
  then show ?thesis
    using assms(1) unfolding operations_ok_def by (metis distinct_count_atmost_1 set_empty set_mset_mset)
qed

lemma mset_insert_at: "mset (insert_at n x xs) = mset (xs @ [x])"
proof -
  have "mset (take n xs @ drop n xs) = mset xs"
    by simp
  then show ?thesis
    unfolding insert_at_def by (simp del: append_take_drop_id)
qed

lemma duplicate_inv:
  assumes "param_inv clock st" "duplicateOperation clock i st = Some st'"
  shows "param_inv clock st'"
proof (cases "st' = st")
  case False
  then obtain index v op seed where d: "normalizeOperation clock (localIdSeed st) v = Some (op, seed)"
    "operations st' = insert_at (Suc index) op (operations st)" "localIdSeed st' = seed"
    using assms(2) by (auto simp: duplicateOperation_def Let_def split: option.splits)
  have "operations_ok clock seed (operations st @ [op])"
    using assms(1) normalizeOperation_ok [OF d(1)]
    by (intro operations_ok_append [of clock "localIdSeed st" "operations st"]) (auto simp: param_inv_def operations_ok_def)
  then show ?thesis
    unfolding param_inv_def d(2,3) using mset_insert_at by (rule operations_ok_mset)
qed (use assms in simp)

lemma remove_operation_inv:
  assumes "param_inv clock st"
  shows "param_inv clock (removeOperation clock i st)"
proof (cases "length (operations st) \<le> 1")
  case True
  then show ?thesis
    by (intro param_inv_default [of _ _ "localIdSeed st"]) (simp_all add: removeOperation_def)
next
  case False
  let ?rest = "filter (\<lambda>item. op_id item \<noteq> i) (operations st)"
  have "?rest \<noteq> []"
  proof
    assume "?rest = []"
    then have "set (map op_id (operations st)) \<subseteq> {i}"
      by (auto simp: filter_empty_conv)
    then have "card (set (map op_id (operations st))) \<le> 1"
      by (metis card_mono card.empty card_insert_le_m1 finite.emptyI finite_insert card_1_singleton_iff is_singleton_def order_refl One_nat_def subset_singletonD le_0_eq zero_le)
    then show False
      using assms False distinct_card [of "map op_id (operations st)"] by (simp add: param_inv_def operations_ok_def)
  qed
  then show ?thesis
    using assms False by (auto simp: removeOperation_def param_inv_def operations_ok_def distinct_map_filter)
qed

lemma move_operation_inv: "param_inv clock st \<Longrightarrow> param_inv clock (moveOperation a b position st)"
  by (auto simp: moveOperation_def param_inv_def intro: operations_ok_mset [OF _ mset_reorder])

lemma reset_drag_inv: "param_inv clock st \<Longrightarrow> param_inv clock (resetOperationDragState st)"
  by (erule param_inv_frame) (simp_all add: resetOperationDragState_def)

lemma drop_inv: "param_inv clock st \<Longrightarrow> param_inv clock (handleOperationDrop transferred i st)"
  unfolding handleOperationDrop_def Let_def by (intro reset_drag_inv move_operation_inv)

lemma set_expanded_frame [simp]:
  "operations (set_expanded i keys st) = operations st" "localIdSeed (set_expanded i keys st) = localIdSeed st"
  by (simp_all add: set_expanded_def)

lemma add_condition_inv:
  assumes "param_inv clock st"
  shows "param_inv clock (addCondition clock i st)"
proof -
  let ?c = "createDefaultCondition clock (localIdSeed st)"
  have c: "cond_id ?c = nextLocalId clock (localIdSeed st)" "cond_mode ?c \<in> set CONDITION_MODE_VALUES"
    by (simp_all add: createDefaultCondition_def normalizePruneRule_ok)
  have "op_id (op\<lparr>op_conditions := op_conditions op @ [?c]\<rparr>) = op_id op
      \<and> operation_ok clock (Suc (localIdSeed st)) (op\<lparr>op_conditions := op_conditions op @ [?c]\<rparr>)"
    if "operation_ok clock (localIdSeed st) op" for op
    using operation_ok_mono [OF that le_SucI [OF order_refl]] that c local_ids.fresh(1) [of clock "localIdSeed st"]
    by (auto simp: operation_ok_def condition_ok_def)
  then have "param_inv clock ((map_operation i (\<lambda>op. op\<lparr>op_conditions := op_conditions op @ [?c]\<rparr>) st)\<lparr>localIdSeed := Suc (localIdSeed st)\<rparr>)"
    by (intro map_operation_inv [OF assms]) simp_all
  then show ?thesis
    by (rule param_inv_frame) (simp_all add: addCondition_def Let_def map_operation_def)
qed

lemma update_condition_inv:
  assumes "param_inv clock st" "cond_patch_ok patch"
  shows "param_inv clock (updateCondition i j patch st)"
proof -
  have "cond_id \<circ> (\<lambda>c. if cond_id c = j then apply_cond_patch patch c else c) = cond_id"
    by (auto simp: apply_cond_patch_ok(1))
  then show ?thesis
    unfolding updateCondition_def using apply_cond_patch_ok(2) [OF assms(2)]
    by (intro map_operation_inv_same [OF assms(1)]) (auto simp: operation_ok_def)
qed

lemma remove_condition_inv: "param_inv clock st \<Longrightarrow> param_inv clock (removeCondition i j st)"
  unfolding removeCondition_def
  by (rule param_inv_frame [OF map_operation_inv_same [of clock st "\<lambda>op. op\<lparr>op_conditions := filter (\<lambda>c. cond_id c \<noteq> j) (op_conditions op)\<rparr>" i]])
    (auto simp: operation_ok_def distinct_map_filter)

lemma preset_operations_not_Nil: "preset_operations (getSelectedTemplatePreset st) \<noteq> [] \<or> preset_kind (getSelectedTemplatePreset st) = str ''legacy''"
proof -
  have all: "\<forall>p\<in>set TEMPLATE_PRESET_CONFIG. preset_operations (snd p) \<noteq> [] \<or> preset_kind (snd p) = str ''legacy''"
    "default_preset \<in> snd ` set TEMPLATE_PRESET_CONFIG"
    by (simp_all add: TEMPLATE_PRESET_CONFIG_def default_preset_def preset_operations_def js_or_def OPERATION_TEMPLATE_def
        HEADER_PASSTHROUGH_TEMPLATE_def GEMINI_IMAGE_4K_TEMPLATE_def AWS_BEDROCK_ANTHROPIC_COMPAT_TEMPLATE_def
        CLAUDE_CLI_HEADER_PASSTHROUGH_TEMPLATE_def CODEX_CLI_HEADER_PASSTHROUGH_TEMPLATE_def buildPassHeadersTemplate_def)
  have "getSelectedTemplatePreset st \<in> snd ` set TEMPLATE_PRESET_CONFIG"
    using all(2) by (force simp: getSelectedTemplatePreset_def split: option.split dest: map_of_SomeD)
  then show ?thesis
    using all(1) by auto
qed

lemma fill_library_inv: "fillTemplateFromLibrary clock st = Some st' \<Longrightarrow> param_inv clock st'"
  by (auto simp: fillTemplateFromLibrary_def Let_def fill_legacy_inv fill_operations_inv split: if_splits)

lemma append_library_inv: "param_inv clock st \<Longrightarrow> appendTemplateFromLibrary clock st = Some (st', msg) \<Longrightarrow> param_inv clock st'"
  using preset_operations_not_Nil [of st] append_legacy_inv [of clock st] append_operations_inv [of clock st]
  by (auto simp: appendTemplateFromLibrary_def Let_def split: if_splits) (metis fst_conv)


subsection \<open>The editor as a state machine\<close>

inductive param_step :: "clock \<Rightarrow> param_editor \<Rightarrow> param_editor \<Rightarrow> bool" for clock where
  open_value: "open_editor clock value st = Some st' \<Longrightarrow> param_step clock st st'"
| render: "param_step clock st (st\<lparr>localIdSeed := localIdSeed st + n\<rparr>)"
| repair_selection: "param_step clock st (repair_selected_operation st)"
| repair_preset: "param_step clock st (repair_template_preset st)"
| select: "param_step clock st (st\<lparr>selectedOperationId := i\<rparr>)"
| search: "param_step clock st (st\<lparr>operationSearch := text\<rparr>)"
| edit_legacy: "param_step clock st (st\<lparr>legacyValue := text\<rparr>)"
| choose_template: "param_step clock st (st\<lparr>templateGroupKey := groupKey, templatePresetKey := presetKey\<rparr>)"
| show_example: "param_step clock st (st\<lparr>headerValueExampleVisible := b\<rparr>)"
| open_guide: "param_step clock st (openFieldGuide target st)"
| edit_guide: "param_step clock st (st\<lparr>fieldGuideVisible := b, fieldGuideTarget := target, fieldGuideKeyword := text\<rparr>)"
| to_json: "param_step clock st (fst (switchToJsonMode st))"
| to_visual: "switchToVisualMode clock st = Some (st', msg) \<Longrightarrow> param_step clock st st'"
| edit_json: "param_step clock st (handleJsonChange text st)"
| format_text: "param_step clock st (fst (formatJson st))"
| fill_template: "fillTemplateFromLibrary clock st = Some st' \<Longrightarrow> param_step clock st st'"
| append_template: "appendTemplateFromLibrary clock st = Some (st', msg) \<Longrightarrow> param_step clock st st'"
| reset: "param_step clock st (resetEditorState clock st)"
| patch_operation: "patch_ok patch \<Longrightarrow> param_step clock st (updateOperation i patch st)"
| builtin_field: "param_step clock st (fst (applyBuiltinField k target st))"
| format_value: "param_step clock st (fst (formatSelectedOperationValueAsJson st))"
| edit_error: "param_step clock st (updateReturnErrorDraft i f st)"
| edit_prune: "param_step clock st (updatePruneObjectsDraft clock i (\<lambda>seed d. (g d, seed)) st)"
| add_rule: "param_step clock st (addPruneRule clock i st)"
| patch_rule: "param_step clock st (updatePruneRule clock i j rule_patch st)"
| remove_rule: "param_step clock st (removePruneRule clock i j st)"
| add_op: "param_step clock st (addOperation clock st)"
| duplicate_op: "duplicateOperation clock i st = Some st' \<Longrightarrow> param_step clock st st'"
| remove_op: "param_step clock st (removeOperation clock i st)"
| drag_start: "param_step clock st (handleOperationDragStart i st)"
| drag_over: "param_step clock st (handleOperationDragOver y t h i st)"
| drag_drop: "param_step clock st (handleOperationDrop text i st)"
| drag_end: "param_step clock st (resetOperationDragState st)"
| add_cond: "param_step clock st (addCondition clock i st)"
| patch_cond: "cond_patch_ok rule_patch \<Longrightarrow> param_step clock st (updateCondition i j rule_patch st)"
| remove_cond: "param_step clock st (removeCondition i j st)"
| collapse: "param_step clock st (handleConditionCollapseChange i keys st)"
| expand_all: "param_step clock st (expandAllSelectedConditions st)"
| collapse_all: "param_step clock st (collapseAllSelectedConditions st)"

abbreviation param_reachable :: "clock \<Rightarrow> param_editor \<Rightarrow> bool" where
  "param_reachable clock st \<equiv> \<exists>seed. (param_step clock)\<^sup>*\<^sup>* (initial_param_editor clock seed) st"

lemmas param_inv_rules =
  open_editor_inv switch_visual_inv fill_library_inv append_library_inv updateOperation_inv builtin_field_inv
  format_value_inv return_error_inv add_operation_inv duplicate_inv remove_operation_inv drop_inv reset_drag_inv
  add_condition_inv update_condition_inv remove_condition_inv

lemma param_frames:
  "operations (repair_selected_operation st) = operations st" "localIdSeed (repair_selected_operation st) = localIdSeed st"
  "operations (repair_template_preset st) = operations st" "localIdSeed (repair_template_preset st) = localIdSeed st"
  "operations (openFieldGuide target st) = operations st" "localIdSeed (openFieldGuide target st) = localIdSeed st"
  "operations (handleJsonChange text st) = operations st" "localIdSeed (handleJsonChange text st) = localIdSeed st"
  "operations (handleOperationDragStart i st) = operations st" "localIdSeed (handleOperationDragStart i st) = localIdSeed st"
  "operations (handleOperationDragOver y t h i st) = operations st" "localIdSeed (handleOperationDragOver y t h i st) = localIdSeed st"
  "operations (handleConditionCollapseChange i keys st) = operations st" "localIdSeed (handleConditionCollapseChange i keys st) = localIdSeed st"
  "operations (expandAllSelectedConditions st) = operations st" "localIdSeed (expandAllSelectedConditions st) = localIdSeed st"
  "operations (collapseAllSelectedConditions st) = operations st" "localIdSeed (collapseAllSelectedConditions st) = localIdSeed st"
  by (simp_all add: repair_selected_operation_def repair_template_preset_def openFieldGuide_def handleJsonChange_def
      handleOperationDragStart_def handleOperationDragOver_def handleConditionCollapseChange_def
      expandAllSelectedConditions_def collapseAllSelectedConditions_def Let_def split: option.split)

lemma reset_inv: "param_inv clock (resetEditorState clock st)"
  by (rule param_inv_default [of _ _ "localIdSeed st"]) (simp_all add: resetEditorState_def clearValue_def Let_def)

lemma prune_rule_inv:
  "param_inv clock st \<Longrightarrow> param_inv clock (addPruneRule clock i st)"
  "param_inv clock st \<Longrightarrow> param_inv clock (updatePruneRule clock i j patch st)"
  "param_inv clock st \<Longrightarrow> param_inv clock (removePruneRule clock i j st)"
  unfolding addPruneRule_def updatePruneRule_def removePruneRule_def by (rule prune_inv; simp)+

lemma param_step_inv: "param_step clock st st' \<Longrightarrow> param_inv clock st \<Longrightarrow> param_inv clock st'"
proof (induction rule: param_step.induct)
  case (edit_prune st i g)
  then show ?case
    by (intro prune_inv) simp_all
qed ((erule param_inv_frame; simp add: param_frames switch_json_frame format_json_frame; fail)
    | (blast intro: param_inv_rules reset_inv prune_rule_inv))+

lemma param_reachable_inv: "param_reachable clock st \<Longrightarrow> param_inv clock st"
proof -
  assume "param_reachable clock st"
  then obtain seed where "(param_step clock)\<^sup>*\<^sup>* (initial_param_editor clock seed) st"
    by blast
  then show ?thesis
  proof (induction rule: rtranclp_induct)
    case base
    show ?case
      by (rule param_inv_default [of _ _ seed]) (simp_all add: initial_param_editor_def)
  qed (use param_step_inv in blast)
qed

subsection \<open>Saved texts\<close>

lemma wf_single_array:
  "\<forall>x\<in>set xs. wf_val x \<and> json_ok x \<Longrightarrow> wf_val (Obj [(str k, Arr xs)]) \<and> json_ok (Obj [(str k, Arr xs)])"
  by (simp add: canonical_single)

lemma parse_operations_text:
  assumes "\<forall>op\<in>set ops. savable_operation op \<and> validate_operation 0 op = None"
  shows "json_parse (operations_text ops) = Some (Obj [(str ''operations'', Arr (map (\<lambda>op. Obj (operation_payload op)) ops))])"
proof -
  let ?xs = "map (\<lambda>op. Obj (operation_payload op)) ops"
  have "\<forall>x\<in>set ?xs. wf_val x \<and> json_ok x"
    using assms wf_validated_payload [of _ 0] by (auto simp del: wf_val.simps(4) json_ok.simps(4))
  note w = wf_single_array [OF this, of "''operations''"]
  show ?thesis
    unfolding operations_text_def json_parse_stringify2 [OF conjunct1 [OF w]] json_norm_ok [OF conjunct2 [OF w]] ..
qed

lemma operations_text_trim [simp]: "trim (operations_text ops) = operations_text ops" "operations_text ops \<noteq> []"
  by (simp_all add: operations_text_def)

text \<open>All texts of the state consist of code units.\<close>

definition wf_operation :: "operation \<Rightarrow> bool" where
  "wf_operation op \<longleftrightarrow>
     list_all wf_str [op_description op, op_path op, op_mode op, op_value_text op, op_from op, op_to op]
     \<and> list_all (\<lambda>c. wf_str (cond_path c) \<and> wf_str (cond_mode c) \<and> wf_str (cond_value_text c)) (op_conditions op)"

definition wf_editor :: "param_editor \<Rightarrow> bool" where
  "wf_editor st \<longleftrightarrow> wf_str (legacyValue st) \<and> wf_str (jsonText st) \<and> list_all wf_operation (operations st)"

lemma wf_condition_payload:
  assumes "buildConditionPayload c = Some p" "wf_str (cond_path c)" "wf_str (cond_mode c)" "wf_str (cond_value_text c)"
  shows "wf_val p"
proof -
  have canon: "canonical [(str ''path'', a :: jsval), (str ''mode'', b), (str ''value'', d)]" for a b d
    by (simp add: canonical_def key_before_def index_key_def is_digit_def js_str_simps)
  have p: "p = Obj (put_when (cond_pass_missing_key c) (str ''pass_missing_key'') (Bool True)
      (put_when (cond_invert c) (str ''invert'') (Bool True)
        [(str ''path'', Str (trim (cond_path c))), (str ''mode'', Str (if cond_mode c = [] then str ''full'' else cond_mode c)),
         (str ''value'', parseLooseValue (cond_value_text c))]))"
    using assms(1) by (simp add: buildConditionPayload_def Let_def split: if_splits)
  show ?thesis
    unfolding p using assms(2-4) by (intro wf_put_when) (auto simp: canon wf_parseLooseValue)
qed

lemma wf_operation_payload:
  assumes "wf_operation op"
  shows "wf_val (Obj (operation_payload op))"
proof -
  have "\<forall>p\<in>set (condition_payloads op). wf_val p"
    using assms by (auto simp: condition_payloads_def map_filter_def wf_operation_def list_all_iff intro: wf_condition_payload)
  moreover have "wf_val (Obj (base_payload op))"
    unfolding base_payload_def Let_def using assms
    by (intro wf_put_when) (auto simp: wf_operation_def op_mode_of_def canonical_single wf_parseLooseValue)
  ultimately show ?thesis
    unfolding operation_payload_def alias_when_empty_def Let_def using assms
    by (intro wf_put_when) (auto simp: wf_operation_def)
qed

lemma parse_prune_rules:
  "parsePruneObjectsDraft clock seed text = (d, seed') \<Longrightarrow>
    prune_rules d = [] \<or> (\<exists>vs. prune_rules d = map2 (normalizePruneRule clock) [seed..<seed + length vs] vs)"
  by (auto simp: parsePruneObjectsDraft_def prune_defaults_def Let_def split: if_splits option.splits jsval.splits)

lemma rules_fresh:
  assumes "parsePruneObjectsDraft clock seed text = (d, seed')" "rule \<in> set (prune_rules d)" "n < seed"
  shows "cond_id rule \<noteq> nextLocalId clock n"
proof -
  obtain vs where "rule \<in> set (map2 (normalizePruneRule clock) [seed..<seed + length vs] vs)"
    using parse_prune_rules [OF assms(1)] assms(2) by fastforce
  then obtain m v where "(m, v) \<in> set (zip [seed..<seed + length vs] vs)" and rule: "rule = normalizePruneRule clock m v"
    by auto
  then have "m \<in> set [seed..<seed + length vs]"
    by (metis set_zip_leftD)
  then show ?thesis
    using assms(3) rule by (simp add: normalizePruneRule_ok nextLocalId_eq)
qed

text \<open>Updaters that agree on the parsed draft have the same effect.\<close>

lemma prune_update_cong:
  assumes "\<And>op d seed. find_operation i st = Some op \<Longrightarrow>
    parsePruneObjectsDraft clock (localIdSeed st) (op_value_text op) = (d, seed) \<Longrightarrow> f seed d = g seed d"
  shows "updatePruneObjectsDraft clock i f st = updatePruneObjectsDraft clock i g st"
proof (cases "find_operation i st")
  case (Some op)
  obtain d seed where d: "parsePruneObjectsDraft clock (localIdSeed st) (op_value_text op) = (d, seed)"
    by fastforce
  then show ?thesis
    using assms [OF Some d] by (simp add: updatePruneObjectsDraft_def Some d)
qed (simp add: updatePruneObjectsDraft_def)

lemma blank_rule: "trim (cond_path (normalizePruneRule clock n (Obj []))) = []"
  by (simp add: normalizePruneRule_def string_or_empty_def)


subsection \<open>Properties\<close>

text \<open>
  C31: in every state the editor can reach there is an operation, the identifiers of the operations
  are unique, so are those of the conditions of each, and all modes are among those offered.
\<close>

theorem operations_well_formed:
  assumes "param_reachable clock st"
  shows "operations st \<noteq> [] \<and> distinct (map op_id (operations st))
    \<and> (\<forall>op\<in>set (operations st). op_mode op \<in> set OPERATION_MODE_VALUES
         \<and> distinct (map cond_id (op_conditions op)) \<and> (\<forall>c\<in>set (op_conditions op). cond_mode c \<in> set CONDITION_MODE_VALUES))"
  using param_reachable_inv [OF assms] by (auto simp: param_inv_def operations_ok_def operation_ok_def condition_ok_def)

definition demo_param_editor :: param_editor where
  "demo_param_editor =
     (initial_param_editor (\<lambda>_. 0) 0)\<lparr>operations :=
        [(createDefaultOperation (\<lambda>_. 0) 0)\<lparr>op_path := str ''seed'', op_value_text := str ''5''\<rparr>]\<rparr>"

theorem operations_well_formed_witness:
  "distinct (map op_id (operations (addOperation (\<lambda>_. 0) (initial_param_editor (\<lambda>_. 0) 0))))"
proof -
  have "param_reachable (\<lambda>_. 0) (addOperation (\<lambda>_. 0) (initial_param_editor (\<lambda>_. 0) 0))"
    by (intro exI r_into_rtranclp) (rule param_step.add_op)
  from operations_well_formed [OF this] show ?thesis
    by blast
qed



text \<open>
  C34: every text that is saved is valid JSON in normal form: it is its own formatting, pasting it
  into the JSON view and saving gives it back, and in the visual views it is an object.
\<close>

theorem saved_text_normal:
  assumes "wf_editor st" "handleSave st = Inr text" "text \<noteq> []"
  shows "\<exists>v. json_parse text = Some v \<and> json_stringify2 v = text \<and> (is_plain_object v \<or> editMode st = Json)
    \<and> handleSave (st'\<lparr>editMode := Json, jsonText := text\<rparr>) = Inr text"
proof -
  let ?ops = "filter (\<lambda>item. \<not> isOperationBlank item) (operations st)"
  have "\<exists>v. text = json_stringify2 v \<and> wf_val v \<and> (is_plain_object v \<or> editMode st = Json)"
  proof (cases "editMode st = Visual \<and> visualMode st = Operations")
    case True
    then have "text = operations_text ?ops"
      using assms(2,3) by (auto simp: handleSave_def buildVisualJson_def buildOperationsJson_def Let_def
          split: sum.splits option.splits if_splits)
    moreover have "wf_val (Obj [(str ''operations'', Arr (map (\<lambda>op. Obj (operation_payload op)) ?ops))])"
      using assms(1) wf_operation_payload by (auto simp: wf_editor_def list_all_iff canonical_single)
    ultimately show ?thesis
      unfolding operations_text_def by (metis is_plain_object.simps(1))
  next
    case False
    then show ?thesis
      using assms wf_json_parse [of "trim (legacyValue st)"] wf_json_parse [of "trim (jsonText st)"]
      by (cases "editMode st"; cases "visualMode st")
        (auto simp: handleSave_def buildVisualJson_def wf_editor_def Let_def split: option.splits if_splits)
  qed
  then obtain v where v: "text = json_stringify2 v" "wf_val v" "is_plain_object v \<or> editMode st = Json"
    by blast
  have "is_plain_object (json_norm v) = is_plain_object v"
    by (cases v) simp_all
  then show ?thesis
    using v(3) stringify2_normal [OF v(2)] unfolding v(1) handleSave_def by (intro exI [of _ "json_norm v"]) simp
qed

theorem saved_text_normal_witness:
  "\<exists>text v. handleSave demo_param_editor = Inr text \<and> json_parse text = Some v \<and> is_plain_object v"
proof -
  have "case handleSave demo_param_editor of Inl _ \<Rightarrow> False | Inr t \<Rightarrow> t \<noteq> []"
    by code_simp
  then obtain t where t: "handleSave demo_param_editor = Inr t" "t \<noteq> []"
    by (auto split: sum.splits)
  have "wf_editor demo_param_editor" "editMode demo_param_editor \<noteq> Json"
    by code_simp+
  then show ?thesis
    using t saved_text_normal [of demo_param_editor t demo_param_editor] by blast
qed


definition demo_legacy_editor :: param_editor where
  "demo_legacy_editor =
     (initial_param_editor (\<lambda>_. 0) 0)\<lparr>visualMode := Legacy, legacyValue := str ''{\"temperature\":1}''\<rparr>"


text \<open>
  One run of the effect on the operations selects an operation in every reachable state, and a
  second run changes nothing.
\<close>

lemma selection_repaired:
  assumes "param_reachable clock st"
  shows "selectedOperation (repair_selected_operation st) \<noteq> None
    \<and> repair_selected_operation (repair_selected_operation st) = repair_selected_operation st"
proof -
  have "operations st \<noteq> []"
    using param_reachable_inv [OF assms] by (simp add: param_inv_def operations_ok_def)
  then show ?thesis
    by (auto simp: selectedOperation_def repair_selected_operation_def find_None_iff list_ex_iff intro: hd_in_set)
qed

lemma selection_repaired_witness:
  "selectedOperation (repair_selected_operation (initial_param_editor (\<lambda>_. 0) 0)) \<noteq> None"
proof -
  have "param_reachable (\<lambda>_. 0) (initial_param_editor (\<lambda>_. 0) 0)"
    by blast
  from selection_repaired [OF this] show ?thesis
    by blast
qed



text \<open>
  A rule added to the form for \<open>prune_objects\<close> is lost: it has no path yet, and writing the draft
  drops rules without a path, so that adding a rule only leaves the simple mode.
\<close>

lemma new_prune_rule_lost:
  "addPruneRule clock i st = updatePruneObjectsDraft clock i (\<lambda>seed d. (d\<lparr>prune_simpleMode := False\<rparr>, Suc seed)) st"
proof (cases "find_operation i st")
  case (Some op)
  obtain d seed where d: "parsePruneObjectsDraft clock (localIdSeed st) (op_value_text op) = (d, seed)"
    by fastforce
  show ?thesis
    unfolding addPruneRule_def updatePruneObjectsDraft_def Some d
    by (simp add: buildPruneObjectsValueText_def blank_rule)
qed (simp add: addPruneRule_def updatePruneObjectsDraft_def)

text \<open>
  The switch to the advanced mode of \<open>prune_objects\<close> is lost when a type is set: the text written
  for it has a type only, and such a text is read back in simple mode.
\<close>

lemma advanced_mode_lost:
  assumes "wf_prune_draft d" "trim (prune_typeText d) \<noteq> []" "kept_rules d = []" "to_upper (prune_logic d) \<noteq> str ''OR''" "prune_recursive d"
  shows "prune_simpleMode (fst (parsePruneObjectsDraft clock seed (buildPruneObjectsValueText (d\<lparr>prune_simpleMode := False\<rparr>))))"
proof -
  let ?d = "d\<lparr>prune_simpleMode := False\<rparr>"
  have "wf_prune_draft ?d" "\<not> prune_simpleMode ?d" "kept_rules ?d = []"
    using assms(1,3) by (simp_all add: wf_prune_draft_def kept_rules_def)
  moreover have "fst (parsePruneObjectsDraft clock seed (buildPruneObjectsValueText ?d)) = reloaded_prune clock seed ?d"
    using calculation(1,2) prune_reload by simp
  ultimately show ?thesis
    using assms(2,4,5) by (simp add: reloaded_prune_def)
qed

lemma advanced_mode_lost_witness:
  "prune_simpleMode (fst (parsePruneObjectsDraft (\<lambda>_. 0) 0
     (buildPruneObjectsValueText (prune_defaults\<lparr>prune_typeText := str ''thinking'', prune_simpleMode := False\<rparr>))))"
proof -
  let ?d = "prune_defaults\<lparr>prune_typeText := str ''thinking''\<rparr>"
  have "wf_prune_draft ?d" "trim (prune_typeText ?d) \<noteq> []" "kept_rules ?d = []" "to_upper (prune_logic ?d) \<noteq> str ''OR''"
    "prune_recursive ?d"
    by code_simp+
  from advanced_mode_lost [OF this, of "\<lambda>_. 0" 0] show ?thesis
    by simp
qed

text \<open>
  A stored list of operations with an entry \<open>null\<close> cannot be opened: reading it throws.
\<close>

lemma null_operation_throws:
  assumes "json_parse (trim text) = Some parsed" "has_operations parsed" "Null \<in> set (elements (get_prop (str ''operations'') parsed))"
  shows "open_editor clock (Str text) st = None"
proof -
  have null: "Null \<in> set vs \<Longrightarrow> normalize_operations clock seed vs = None" for seed vs
  proof (induction vs arbitrary: seed)
    case (Cons v vs)
    then show ?case
      by (auto simp: normalizeOperation_def split: option.split)
  qed simp
  have "trim text \<noteq> []"
    using assms(1) json_parse_blank [of "trim text"] by auto
  then show ?thesis
    using assms null by (auto simp: open_editor_def parseInitialState_def operations_or_default_def string_or_empty_def Let_def)
qed

lemma null_operation_throws_witness:
  "open_editor (\<lambda>_. 0) (Str (str ''{\"operations\":[null]}'')) demo_param_editor = None"
proof -
  have "json_parse (trim (str ''{\"operations\":[null]}'')) = Some (Obj [(str ''operations'', Arr [Null])])"
    "has_operations (Obj [(str ''operations'', Arr [Null])])"
    "Null \<in> set (elements (get_prop (str ''operations'') (Obj [(str ''operations'', Arr [Null])])))"
    by code_simp+
  then show ?thesis
    by (rule null_operation_throws)
qed

end
