(* ===== verification/VerifierEndpoint.thy ===== *)
theory VerifierEndpoint
  imports JS_JSON
begin

text \<open>
  Where the model verifier sends its requests (web/src/pages/Verifier/verifierEngine.js): the format
  guessed from a URL and a model name, and the endpoint derived from the URL the user enters.

  The patterns that cut known endings off the URL all end in \<open>$\<close>, ignore case and match a fixed
  text with an optional slash, so that they are modelled as endings (\<open>strip_tail\<close>); only the Google
  ending has a variable part, the last segment of the path (\<open>strip_generate\<close>).
\<close>


subsection \<open>Format\<close>

definition detectFormat :: "jstr \<Rightarrow> jstr \<Rightarrow> jstr" where
  "detectFormat rawUrl model =
     (let url = to_lower (trim rawUrl); m = to_lower (trim model)
      in if includes_str url (str ''generativelanguage.googleapis.com'') \<or> includes_str url (str '':generatecontent'')
           \<or> includes_str url (str ''/v1beta/models'') then str ''google''
      else if includes_str url (str ''/v1/messages'') \<or> includes_str url (str ''api.anthropic.com'') then str ''anthropic''
      else if includes_str url (str ''/v1/chat/completions'') \<or> includes_str url (str ''/chat/completions'')
           \<or> includes_str url (str ''api.openai.com'') \<or> includes_str url (str ''api.x.ai'')
           \<or> includes_str url (str ''openrouter.ai'') then str ''openai''
      else if starts_with m (str ''claude'') then str ''anthropic''
      else if starts_with m (str ''gpt'') \<or> starts_with m (str ''o1'') \<or> starts_with m (str ''o3'')
           \<or> starts_with m (str ''o4'') then str ''openai''
      else if starts_with m (str ''grok'') then str ''openai''
      else if starts_with m (str ''gemini'') then str ''openai''
      else str ''openai'')"


subsection \<open>Endpoint\<close>

text \<open>\<open>replace(/\/+$/, '')\<close>.\<close>

definition strip_slashes :: "jstr \<Rightarrow> jstr" where
  "strip_slashes s = rev (dropWhile (\<lambda>c. c = 47) (rev s))"

definition ends_with_ci :: "jstr \<Rightarrow> jstr \<Rightarrow> bool" where
  "ends_with_ci s p \<longleftrightarrow> ends_with (to_lower s) (to_lower p)"

text \<open>Cuts off an ending from a list, where a slash may follow it.\<close>

definition strip_tail :: "jstr list \<Rightarrow> jstr \<Rightarrow> jstr" where
  "strip_tail tails s =
     (case find (ends_with_ci s) (tails @ map (\<lambda>p. p @ [47]) tails) of
        None \<Rightarrow> s
      | Some p \<Rightarrow> take (length s - length p) s)"

text \<open>The last segment of a path.\<close>

definition last_segment :: "jstr \<Rightarrow> jstr" where
  "last_segment s = rev (takeWhile (\<lambda>c. c \<noteq> 47) (rev s))"

text \<open>\<open>replace(/\/v1beta\/models\/[^/]+:generateContent\/?$/i, '')\<close>.\<close>

definition strip_generate :: "jstr \<Rightarrow> jstr" where
  "strip_generate s =
     (let u = (if ends_with s [47] then butlast s else s);
          seg = last_segment u; pre = take (length u - length seg) u
      in if ends_with_ci pre (str ''/v1beta/models/'') \<and> ends_with_ci seg (str '':generateContent'')
           \<and> length (str '':generateContent'') < length seg
         then take (length pre - length (str ''/v1beta/models/'')) pre
         else s)"

definition endpoint_base :: "jstr \<Rightarrow> jstr" where
  "endpoint_base trimmed =
     strip_slashes (strip_tail [str ''/v1''] (strip_tail [str ''/v1beta''] (strip_generate
       (strip_tail [str ''/v1/messages'', str ''/v1/message''] (strip_tail [str ''/chat/completions'']
         (strip_tail [str ''/v1/chat/completions''] trimmed))))))"

text \<open>\<open>encodeURIComponent\<close>; \<open>None\<close> is the URIError for a lone surrogate.\<close>

definition uri_unreserved :: "int \<Rightarrow> bool" where
  "uri_unreserved c \<longleftrightarrow> is_digit c \<or> 65 \<le> c \<and> c \<le> 90 \<or> 97 \<le> c \<and> c \<le> 122
     \<or> c \<in> set (str ''-_.!~*()'' @ [39])"

definition percent_byte :: "int \<Rightarrow> jstr" where
  "percent_byte b =
     (let hex = (\<lambda>d. if d < 10 then 48 + d else 55 + d) in [37, hex (b div 16), hex (b mod 16)])"

definition utf8_bytes :: "int \<Rightarrow> int list" where
  "utf8_bytes c =
     (if c < 128 then [c]
      else if c < 2048 then [192 + c div 64, 128 + c mod 64]
      else if c < 65536 then [224 + c div 4096, 128 + c div 64 mod 64, 128 + c mod 64]
      else [240 + c div 262144, 128 + c div 4096 mod 64, 128 + c div 64 mod 64, 128 + c mod 64])"

definition percent_point :: "int \<Rightarrow> jstr" where
  "percent_point c = concat (map percent_byte (utf8_bytes c))"

fun encodeURIComponent :: "jstr \<Rightarrow> jstr option" where
  "encodeURIComponent [] = Some []"
| "encodeURIComponent (c # s) =
     (if uri_unreserved c then map_option ((#) c) (encodeURIComponent s)
      else if 56320 \<le> c \<and> c \<le> 57343 then None
      else if 55296 \<le> c \<and> c \<le> 56319 then
        (case s of
           [] \<Rightarrow> None
         | d # s' \<Rightarrow>
             if 56320 \<le> d \<and> d \<le> 57343
             then map_option ((@) (percent_point ((c - 55296) * 1024 + (d - 56320) + 65536))) (encodeURIComponent s')
             else None)
      else map_option ((@) (percent_point c)) (encodeURIComponent s))"

text \<open>The endpoint; the empty text where no URL is given, \<open>None\<close> where the model name cannot be encoded.\<close>

definition resolveEndpoint :: "jstr \<Rightarrow> jstr \<Rightarrow> jsval \<Rightarrow> jstr option" where
  "resolveEndpoint rawUrl model format =
     (let trimmed = strip_slashes (trim rawUrl); base = endpoint_base trimmed
      in if trimmed = [] then Some []
         else if format = Str (str ''anthropic'') then Some (base @ str ''/v1/messages'')
         else if format = Str (str ''google'') then
           map_option (\<lambda>m. base @ str ''/v1beta/models/'' @ m @ str '':generateContent'') (encodeURIComponent model)
         else Some (base @ str ''/v1/chat/completions''))"


subsection \<open>Endings are cut off\<close>

lemma dropWhile_replicate: "P x \<Longrightarrow> dropWhile P (replicate n x @ xs) = dropWhile P xs"
  by (induction n) simp_all

lemma strip_slashes_append [simp]: "strip_slashes (s @ replicate n 47) = strip_slashes s"
  by (simp add: strip_slashes_def dropWhile_replicate)

lemma strip_slashes_fixed: "s \<noteq> [] \<Longrightarrow> last s \<noteq> 47 \<Longrightarrow> strip_slashes s = s"
  by (cases s rule: rev_cases) (simp_all add: strip_slashes_def)

lemma length_strip:
  "length (strip_slashes s) \<le> length s" "length (strip_tail ps s) \<le> length s" "length (strip_generate s) \<le> length s"
  using length_dropWhile_le [of "\<lambda>c. c = 47" "rev s"]
  by (auto simp: strip_slashes_def strip_tail_def strip_generate_def Let_def split: option.split)

lemma if_not_else: "(if c then x else y) \<noteq> y \<Longrightarrow> c \<and> (if c then x else y) = x"
  by (cases c) simp_all

lemma strip_fixed:
  "length (strip_slashes s) = length s \<Longrightarrow> strip_slashes s = s"
  "length (strip_tail ps s) = length s \<Longrightarrow> strip_tail ps s = s"
  "length (strip_generate s) = length s \<Longrightarrow> strip_generate s = s"
proof -
  assume "length (strip_slashes s) = length s"
  then have "dropWhile (\<lambda>c. c = 47) (rev s) = rev s"
    by (metis append_eq_append_conv append_self_conv2 length_rev strip_slashes_def takeWhile_dropWhile_id)
  then show "strip_slashes s = s"
    by (simp add: strip_slashes_def)
next
  assume "length (strip_tail ps s) = length s"
  then show "strip_tail ps s = s"
    by (auto simp: strip_tail_def split: option.splits)
next
  assume l: "length (strip_generate s) = length s"
  let ?u = "if ends_with s [47] then butlast s else s"
  have "length (take n (take (length ?u - length (last_segment ?u)) ?u)) < length s" if "0 < length (last_segment ?u)" for n
  proof -
    have "length (last_segment ?u) \<le> length ?u" "length ?u \<le> length s"
      using length_takeWhile_le [of "\<lambda>c. c \<noteq> 47" "rev ?u"] by (simp_all add: last_segment_def)
    then show ?thesis
      using that unfolding length_take by linarith
  qed
  note short = this
  show "strip_generate s = s"
  proof (rule ccontr)
    assume "strip_generate s \<noteq> s"
    from if_not_else [OF this [unfolded strip_generate_def Let_def], folded strip_generate_def [unfolded Let_def]]
    have long: "length (str '':generateContent'') < length (last_segment ?u)" and cut:
      "strip_generate s = take (length (take (length ?u - length (last_segment ?u)) ?u) - length (str ''/v1beta/models/''))
        (take (length ?u - length (last_segment ?u)) ?u)"
      by blast+
    from long have "0 < length (last_segment ?u)"
      by (rule le_less_trans [rotated]) (rule le0)
    from short [OF this] show False
      using l cut by (metis less_irrefl_nat)
  qed
qed

text \<open>A base is stable when no ending can be cut off it.\<close>

lemma stable_base:
  assumes "endpoint_base b = b"
  shows "strip_slashes b = b" "strip_generate b = b"
    "strip_tail [str ''/v1''] b = b" "strip_tail [str ''/v1beta''] b = b"
    "strip_tail [str ''/v1/messages'', str ''/v1/message''] b = b"
    "strip_tail [str ''/chat/completions''] b = b" "strip_tail [str ''/v1/chat/completions''] b = b"
proof -
  let ?f1 = "strip_tail [str ''/v1/chat/completions'']" and ?f2 = "strip_tail [str ''/chat/completions'']"
  let ?f3 = "strip_tail [str ''/v1/messages'', str ''/v1/message'']"
  let ?f5 = "strip_tail [str ''/v1beta'']" and ?f6 = "strip_tail [str ''/v1'']"
  have e: "strip_slashes (?f6 (?f5 (strip_generate (?f3 (?f2 (?f1 b)))))) = b"
    using assms by (simp add: endpoint_base_def)
  have f: "length (?f1 b) = length b" "length (?f2 (?f1 b)) = length b" "length (?f3 (?f2 (?f1 b))) = length b"
    "length (strip_generate (?f3 (?f2 (?f1 b)))) = length b"
    "length (?f5 (strip_generate (?f3 (?f2 (?f1 b))))) = length b"
    "length (?f6 (?f5 (strip_generate (?f3 (?f2 (?f1 b)))))) = length b"
    using arg_cong [OF e, of length] length_strip(1) [of "?f6 (?f5 (strip_generate (?f3 (?f2 (?f1 b)))))"]
      length_strip(2) [of "[str ''/v1'']" "?f5 (strip_generate (?f3 (?f2 (?f1 b))))"]
      length_strip(2) [of "[str ''/v1beta'']" "strip_generate (?f3 (?f2 (?f1 b)))"]
      length_strip(3) [of "?f3 (?f2 (?f1 b))"]
      length_strip(2) [of "[str ''/v1/messages'', str ''/v1/message'']" "?f2 (?f1 b)"]
      length_strip(2) [of "[str ''/chat/completions'']" "?f1 b"]
      length_strip(2) [of "[str ''/v1/chat/completions'']" b]
    by linarith+
  show f1: "?f1 b = b"
    by (rule strip_fixed) (rule f)
  show f2: "?f2 b = b"
    using f(2) f1 by (simp add: strip_fixed)
  show f3: "?f3 b = b"
    using f(3) f1 f2 by (simp add: strip_fixed)
  show f4: "strip_generate b = b"
    using f(4) f1 f2 f3 by (simp add: strip_fixed)
  show f5: "?f5 b = b"
    using f(5) f1 f2 f3 f4 by (simp add: strip_fixed)
  show "?f6 b = b"
    using f(6) f1 f2 f3 f4 f5 by (simp add: strip_fixed)
  then show "strip_slashes b = b"
    using e f1 f2 f3 f4 f5 by simp
qed

lemma ends_with_ci_append: "ends_with_ci (b @ s) p \<longleftrightarrow> starts_with (rev (to_lower s) @ rev (to_lower b)) (rev (to_lower p))"
  by (simp add: ends_with_ci_def ends_with_def to_lower_def)

lemma strip_tail_hit:
  assumes "to_lower s = to_lower p"
  shows "strip_tail (p # ps) (b @ s) = b"
proof -
  have "ends_with_ci (b @ s) p"
    by (simp add: ends_with_ci_append assms)
  moreover have "length s = length p"
    using arg_cong [OF assms, of length] by (simp add: to_lower_def)
  ultimately show ?thesis
    by (simp add: strip_tail_def)
qed

lemma strip_tail_miss: "(\<And>p. p \<in> set ps \<Longrightarrow> \<not> ends_with_ci s p \<and> \<not> ends_with_ci s (p @ [47])) \<Longrightarrow> strip_tail ps s = s"
  using find_None_iff [of "ends_with_ci s" "ps @ map (\<lambda>p. p @ [47]) ps"] by (auto simp: strip_tail_def)

lemma stable_no_tail:
  assumes "strip_tail [p] b = b" "p \<noteq> []"
  shows "\<not> ends_with_ci b p"
proof
  assume e: "ends_with_ci b p"
  then have "b \<noteq> []"
    using assms(2) by (auto simp: ends_with_ci_def ends_with_def to_lower_def starts_with_iff)
  then show False
    using assms e by (cases b; cases p) (simp_all add: strip_tail_def)
qed

lemma tail_units:
  "rev (to_lower (str ''/v1'')) = [49, 118, 47]"
  "rev (to_lower (str ''/v1beta'')) = [97, 116, 101, 98, 49, 118, 47]"
  "rev (to_lower (str ''/v1/message'')) = [101, 103, 97, 115, 115, 101, 109, 47, 49, 118, 47]"
  "rev (to_lower (str ''/v1/messages'')) = [115, 101, 103, 97, 115, 115, 101, 109, 47, 49, 118, 47]"
  "rev (to_lower (str '':generateContent'')) = [116, 110, 101, 116, 110, 111, 99, 101, 116, 97, 114, 101, 110, 101, 103, 58]"
  "rev (to_lower (str ''/v1beta/models/'')) = [47, 115, 108, 101, 100, 111, 109, 47, 97, 116, 101, 98, 49, 118, 47]"
  "rev (to_lower (str ''/chat/completions'')) =
     [115, 110, 111, 105, 116, 101, 108, 112, 109, 111, 99, 47, 116, 97, 104, 99, 47]"
  "rev (to_lower (str ''/v1/chat/completions'')) =
     [115, 110, 111, 105, 116, 101, 108, 112, 109, 111, 99, 47, 116, 97, 104, 99, 47, 49, 118, 47]"
  by code_simp+

lemma to_lower_append: "to_lower (s @ t) = to_lower s @ to_lower t"
  by (simp add: to_lower_def)

lemma to_lower_slash: "to_lower [47] = [47]"
  by (simp add: to_lower_def to_lower_unit_def)

lemmas tail_eval = ends_with_ci_append to_lower_append to_lower_slash tail_units

text \<open>A path that does not end in \<open>:generateContent\<close> keeps its last segments.\<close>

lemma ends_with_ci_segment: "ends_with_ci (last_segment s) p \<Longrightarrow> ends_with_ci s p"
proof -
  assume "ends_with_ci (last_segment s) p"
  moreover have "s = rev (dropWhile (\<lambda>c. c \<noteq> 47) (rev s)) @ last_segment s"
    by (metis last_segment_def rev_append rev_rev_ident takeWhile_dropWhile_id)
  ultimately show "ends_with_ci s p"
    by (metis ends_with_ci_append ends_with_ci_def ends_with_def starts_with_iff append.assoc)
qed

lemma strip_generate_miss:
  assumes "\<not> ends_with_ci s (str '':generateContent'')" "\<not> ends_with s [47]"
  shows "strip_generate s = s"
  using assms ends_with_ci_segment unfolding strip_generate_def Let_def by auto

definition known_endings :: "jstr list" where
  "known_endings =
     [str ''/v1'', str ''/v1beta'', str ''/chat/completions'', str ''/v1/chat/completions'', str ''/v1/messages'', str ''/v1/message'']"

lemma ends_with_slash: "ends_with s [47] \<longleftrightarrow> ends_with_ci s [47]"
  by (cases s rule: rev_cases) (auto simp: ends_with_ci_def ends_with_def to_lower_def to_lower_unit_def)

lemma strip_tail_second:
  "to_lower s = to_lower p \<Longrightarrow> \<not> ends_with_ci (b @ s) q \<Longrightarrow> strip_tail [q, p] (b @ s) = b"
  using strip_tail_hit [of s p "[]" b] by (simp add: strip_tail_def ends_with_ci_append)

text \<open>Every known ending of a stable base is cut off, in whatever case it is written.\<close>

lemma base_cut:
  assumes b: "endpoint_base b = b" and s: "to_lower s \<in> to_lower ` set known_endings"
  shows "endpoint_base (b @ s) = b"
proof -
  note fixed = stable_base [OF b]
  note v1 = stable_no_tail [OF fixed(3)]
  have e: "to_lower s = to_lower (str ''/v1'') \<or> to_lower s = to_lower (str ''/v1beta'')
    \<or> to_lower s = to_lower (str ''/chat/completions'') \<or> to_lower s = to_lower (str ''/v1/chat/completions'')
    \<or> to_lower s = to_lower (str ''/v1/messages'') \<or> to_lower s = to_lower (str ''/v1/message'')"
    using s by (auto simp: known_endings_def)
  have chat: "strip_tail [str ''/v1/chat/completions''] (b @ s) = b @ s"
    if "to_lower s \<noteq> to_lower (str ''/v1/chat/completions'')"
    using e that v1 by (intro strip_tail_miss) (auto simp: tail_eval ends_with_ci_def ends_with_def)
  have chat2: "strip_tail [str ''/chat/completions''] (b @ s) = b @ s"
    if "to_lower s \<noteq> to_lower (str ''/v1/chat/completions'')" "to_lower s \<noteq> to_lower (str ''/chat/completions'')"
    using e that by (intro strip_tail_miss) (auto simp: tail_eval)
  have rest: "strip_tail [str ''/v1/messages'', str ''/v1/message''] (b @ s) = b @ s" "strip_generate (b @ s) = b @ s"
    if "to_lower s = to_lower (str ''/v1'') \<or> to_lower s = to_lower (str ''/v1beta'')"
    using that by (intro strip_tail_miss strip_generate_miss; auto simp: tail_eval ends_with_slash)+
  have beta: "strip_tail [str ''/v1beta''] (b @ s) = b @ s" if "to_lower s = to_lower (str ''/v1'')"
    using that by (intro strip_tail_miss) (auto simp: tail_eval)
  have "\<not> ends_with_ci (b @ s) (str ''/v1/messages'')" if "to_lower s = to_lower (str ''/v1/message'')"
    using that by (simp add: tail_eval)
  then show ?thesis
    using e fixed chat chat2 rest beta strip_tail_hit [of s] strip_tail_second [of s]
    unfolding endpoint_base_def by metis
qed

lemma last_segment_append: "47 \<notin> set s \<Longrightarrow> last_segment (a @ 47 # s) = s"
  by (simp add: last_segment_def takeWhile_append)

lemma base_cut_generate:
  assumes b: "endpoint_base b = b" and m: "m \<noteq> []" "47 \<notin> set m"
  shows "endpoint_base (b @ str ''/v1beta/models/'' @ m @ str '':generateContent'') = b"
proof -
  let ?gen = "str '':generateContent''" and ?models = "str ''/v1beta/models/''"
  let ?s = "(b @ ?models @ m) @ ?gen"
  have "strip_tail [str ''/v1/chat/completions''] ?s = ?s" "strip_tail [str ''/chat/completions''] ?s = ?s"
    "strip_tail [str ''/v1/messages'', str ''/v1/message''] ?s = ?s"
    by (rule strip_tail_miss; auto simp only: tail_eval set_simps; simp)+
  moreover have "strip_generate ?s = b"
  proof -
    have "?models = str ''/v1beta/models'' @ [47]" "47 \<notin> set ?gen"
      by code_simp+
    then have seg: "last_segment ?s = m @ ?gen"
      using last_segment_append [of "m @ ?gen" "b @ str ''/v1beta/models''"] m(2) by simp
    have "\<not> ends_with ?s [47]"
      unfolding ends_with_slash by (simp only: tail_eval) simp
    moreover have "ends_with_ci (m @ ?gen) ?gen" "ends_with_ci (b @ ?models) ?models"
      by (simp_all add: ends_with_ci_append)
    ultimately show ?thesis
      using m(1) unfolding strip_generate_def Let_def by (simp add: seg [simplified])
  qed
  ultimately show ?thesis
    using stable_base [OF b] by (simp add: endpoint_base_def)
qed

lemma printable_not_ws [simp]: "33 \<le> c \<Longrightarrow> c \<le> 126 \<Longrightarrow> \<not> is_ws c"
  by (simp add: is_ws_def)

lemma is_ws_lower: "\<not> is_ws (to_lower_unit c) \<Longrightarrow> \<not> is_ws c"
  by (cases "65 \<le> c \<and> c \<le> 90") (simp_all add: to_lower_unit_def)

text \<open>An ending ends in a letter or a digit.\<close>

lemma ending_last:
  assumes "to_lower ending \<in> to_lower ` set known_endings \<or> ending = a @ str '':generateContent''"
  shows "ending \<noteq> [] \<and> last ending \<noteq> 47 \<and> \<not> is_ws (last ending)"
proof -
  have "\<exists>c cs. rev (to_lower ending) = c # cs \<and> c \<noteq> 47 \<and> \<not> is_ws c"
    using assms by (auto simp: known_endings_def tail_eval simp del: rev_eq_Cons_iff)
  then obtain c cs where c: "rev (to_lower ending) = c # cs" "c \<noteq> 47" "\<not> is_ws c"
    by blast
  then obtain d ds where "ending = ds @ [d]" "c = to_lower_unit d"
    by (cases ending rule: rev_cases) (auto simp: to_lower_def)
  then show ?thesis
    using c(2,3) is_ws_lower [of d] by (auto simp: to_lower_unit_def)
qed

text \<open>
  The verifier reaches the same endpoint however its URL is written: a base URL, or the base
  with a known ending in any case, or a full Google URL, each with any number of slashes at the end.
\<close>

lemma endpoint_spellings:
  assumes "endpoint_base b = b" "b \<noteq> []" "trim b = b"
    and "ending = [] \<or> to_lower ending \<in> to_lower ` set known_endings
      \<or> ending = str ''/v1beta/models/'' @ m @ str '':generateContent'' \<and> m \<noteq> [] \<and> 47 \<notin> set m"
  shows "resolveEndpoint (b @ ending @ replicate n 47) model format = resolveEndpoint b model format"
proof -
  have base: "endpoint_base (b @ ending) = b"
    using assms(1,4) base_cut [of b ending] base_cut_generate [of b m] by (elim disjE) simp_all
  have l: "ending = [] \<or> last ending \<noteq> 47 \<and> \<not> is_ws (last ending)"
    using assms(4) ending_last [of ending "str ''/v1beta/models/'' @ m"] unfolding append_assoc by blast
  have slashes: "strip_slashes (b @ ending) = b @ ending"
    using l stable_base(1) [OF assms(1)] by (cases "ending = []") (auto intro!: strip_slashes_fixed)
  have ws: "\<not> is_ws (hd b)" "\<not> is_ws (last b)"
    using assms(2,3) trim_hd_last [of b] by simp_all
  have "\<not> is_ws (last (b @ ending))"
    using l ws by (cases "ending = []") auto
  then have "\<not> is_ws (last ((b @ ending) @ replicate n 47))"
    by (cases n) (simp_all del: append_assoc)
  then have "trim (b @ ending @ replicate n 47) = b @ ending @ replicate n 47"
    using assms(2) ws by (intro trim_fixed) simp
  then show ?thesis
    using base slashes assms(1-3) stable_base(1) [OF assms(1)] strip_slashes_append [of "b @ ending" n]
    by (simp add: resolveEndpoint_def Let_def)
qed

lemma endpoint_spellings_witness:
  "resolveEndpoint (str ''https://x.io/V1/'') [] Undefined = Some (str ''https://x.io/v1/chat/completions'')"
proof -
  have "endpoint_base (str ''https://x.io'') = str ''https://x.io''" "str ''https://x.io'' \<noteq> []"
    "trim (str ''https://x.io'') = str ''https://x.io''" "to_lower (str ''/V1'') \<in> to_lower ` set known_endings"
    "str ''https://x.io'' @ str ''/V1'' @ replicate 1 47 = str ''https://x.io/V1/''"
    "resolveEndpoint (str ''https://x.io'') [] Undefined = Some (str ''https://x.io/v1/chat/completions'')"
    by code_simp+
  then show ?thesis
    using endpoint_spellings [of "str ''https://x.io''" "str ''/V1''" "[]" 1 "[]" Undefined] by simp
qed

end
