(* ===== verification/VerifierProbe.thy ===== *)
theory VerifierProbe
  imports VerifierEndpoint
begin

text \<open>
  One probe of the model verifier (web/src/pages/Verifier/verifierEngine.js): the request that is
  sent for each format, and what is read from the response, as one JSON text or as a stream of
  events.

  \<open>fetch\<close> is a parameter: given the number of requests sent before and the request, it answers with
  an \<open>exchange\<close>. The answer carries the time that \<open>performance.now\<close> measures around the request, and the
  pieces of text the decoder delivers for a stream. Errors the code throws are values of
  \<open>probe_error\<close>, with the key of a translated message where the code translates one.
\<close>


subsection \<open>Prompts\<close>

definition SYMBOL_PROMPT :: jstr where
  "SYMBOL_PROMPT = [35831, 30452, 25509, 36755, 20986, 19968, 20010, 20013, 25991, 21491, 21452, 24341, 21495, 23383, 31526] @ str '' '' @ [8221] @ str '','' @ [21482, 36755, 20986, 36825, 19968, 20010, 23383, 31526] @ str '','' @ [19981, 35201, 35299, 37322] @ str '','' @ [19981, 35201, 20854, 23427, 20219, 20309, 20869, 23481, 12290]"

definition TARIFF_PROMPT :: jstr where
  "TARIFF_PROMPT = [19981, 20801, 35768, 32852, 32593, 25628, 32034, 12290, 35831, 22238, 31572] @ str '':2025'' @ [24180] @ str ''3'' @ [26376] @ str ''4'' @ [26085, 29305, 26391, 26222, 25226, 23545, 21326, 20851, 31246, 25552, 21040, 20102, 22810, 23569] @ str ''?'' @ [22914, 26524, 19981, 30830, 23450, 23601, 30452, 25509, 22238, 31572] @ str ''\"'' @ [19981, 30693, 36947] @ str ''\",'' @ [19981, 35201, 32534, 36896, 25968, 23383, 12290]"

definition PROBE_SYSTEM :: jstr where
  "PROBE_SYSTEM = str ''You are a verification probe target. Reply with ONLY the exact characters or text the user requests. No explanation, no preamble, no markdown, no code fences. Output nothing else.''"

definition PROBE_MAX_TOKENS :: int where
  "PROBE_MAX_TOKENS = 8192"


subsection \<open>Requests\<close>

record probe_request =
  rq_method :: jstr
  rq_url :: jstr
  rq_headers :: "(jstr \<times> jstr) list"
  rq_body :: jstr

record http_response =
  status :: int
  body_text :: "jstr + jstr"
  body_stream :: "(jstr list \<times> jstr option) option"

datatype fetch_outcome = Rejected jstr | Response http_response

record exchange =
  elapsed :: jsnum
  outcome :: fetch_outcome

type_synonym fetcher = "nat \<Rightarrow> probe_request \<Rightarrow> exchange"

definition response_ok :: "http_response \<Rightarrow> bool" where
  "response_ok r \<longleftrightarrow> 200 \<le> status r \<and> status r \<le> 299"

datatype probe_error =
    EndpointEmpty
  | UriMalformed
  | NetworkFailed jstr
  | HttpFailed int jstr
  | BodyFailed jstr
  | NoBody
  | InvalidJson
  | BadPayload
  | EmptyReasoning

definition message_of :: "jstr \<Rightarrow> jstr \<Rightarrow> jsval" where
  "message_of role content = Obj [(str ''role'', Str role), (str ''content'', Str content)]"

definition or_empty_label :: "jstr \<Rightarrow> jstr" where
  "or_empty_label s = (if s = [] then str ''(empty)'' else s)"

definition chat_messages :: "jstr \<Rightarrow> jstr option \<Rightarrow> jsval list" where
  "chat_messages prompt previous =
     (case previous of
        Some reply \<Rightarrow>
          [message_of (str ''user'') SYMBOL_PROMPT, message_of (str ''assistant'') (or_empty_label reply),
           message_of (str ''user'') prompt]
      | None \<Rightarrow> [message_of (str ''user'') prompt])"

definition part_of :: "jstr \<Rightarrow> jstr \<Rightarrow> jsval" where
  "part_of role content = Obj [(str ''role'', Str role), (str ''parts'', Arr [Obj [(str ''text'', Str content)]])]"

definition google_contents :: "jstr \<Rightarrow> jstr option \<Rightarrow> jsval list" where
  "google_contents prompt previous =
     (case previous of
        Some reply \<Rightarrow>
          [part_of (str ''user'') SYMBOL_PROMPT, part_of (str ''model'') (or_empty_label reply),
           part_of (str ''user'') prompt]
      | None \<Rightarrow> [part_of (str ''user'') prompt])"

definition isReasoning :: "jstr \<Rightarrow> bool" where
  "isReasoning model =
     (let m = to_lower model
      in starts_with m (str ''o1'') \<or> starts_with m (str ''o3'') \<or> starts_with m (str ''o4'')
         \<or> starts_with m (str ''gpt-5'') \<or> includes_str m (str ''thinking'') \<or> includes_str m (str ''reasoning''))"

text \<open>The options of a retry.\<close>

record retry_options =
  reasoningEffort :: "jstr option"
  maxTokens :: "int option"
  useStream :: bool

definition no_retry :: retry_options where
  "no_retry = \<lparr>reasoningEffort = None, maxTokens = None, useStream = False\<rparr>"

definition with_default :: "'a \<Rightarrow> 'a option \<Rightarrow> 'a" where
  "with_default d x = (case x of Some v \<Rightarrow> v | None \<Rightarrow> d)"

definition json_int :: "int \<Rightarrow> jsval" where
  "json_int n = Num (num_of_int n)"

definition openai_body :: "jstr \<Rightarrow> jstr \<Rightarrow> jstr option \<Rightarrow> retry_options \<Rightarrow> jsval" where
  "openai_body model prompt previous retry =
     Obj ([(str ''model'', Str model),
           (str ''messages'', Arr (message_of (str ''system'') PROBE_SYSTEM # chat_messages prompt previous)),
           (str ''stream'', Bool False)] @
          (if isReasoning model
           then [(str ''max_completion_tokens'', json_int (with_default 32768 (maxTokens retry))),
                 (str ''reasoning_effort'', Str (with_default (str ''low'') (reasoningEffort retry)))]
           else [(str ''max_tokens'', json_int PROBE_MAX_TOKENS)]))"

definition stream_body :: "jstr \<Rightarrow> jstr \<Rightarrow> jstr option \<Rightarrow> jsval" where
  "stream_body model prompt previous =
     Obj ([(str ''model'', Str model),
           (str ''messages'', Arr (message_of (str ''system'') PROBE_SYSTEM # chat_messages prompt previous)),
           (str ''stream'', Bool True)] @
          (if isReasoning model
           then [(str ''max_completion_tokens'', json_int 65536), (str ''reasoning_effort'', Str (str ''low''))]
           else [(str ''max_tokens'', json_int PROBE_MAX_TOKENS)]))"

definition anthropic_body :: "jstr \<Rightarrow> jstr \<Rightarrow> jstr option \<Rightarrow> jsval" where
  "anthropic_body model prompt previous =
     Obj [(str ''model'', Str model), (str ''messages'', Arr (chat_messages prompt previous)),
          (str ''max_tokens'', json_int PROBE_MAX_TOKENS), (str ''stream'', Bool False),
          (str ''system'', Str PROBE_SYSTEM)]"

definition google_body :: "jstr \<Rightarrow> jstr option \<Rightarrow> jsval" where
  "google_body prompt previous =
     Obj [(str ''contents'', Arr (google_contents prompt previous)),
          (str ''systemInstruction'', Obj [(str ''parts'', Arr [Obj [(str ''text'', Str PROBE_SYSTEM)]])]),
          (str ''generationConfig'', Obj [(str ''maxOutputTokens'', json_int PROBE_MAX_TOKENS)])]"

definition content_json :: "jstr \<times> jstr" where
  "content_json = (str ''content-type'', str ''application/json'')"

definition anthropic_headers :: "jstr \<Rightarrow> (jstr \<times> jstr) list" where
  "anthropic_headers apiKey =
     [content_json, (str ''anthropic-version'', str ''2023-06-01''),
      (str ''anthropic-beta'', str ''context-1m-2025-08-07''),
      (str ''anthropic-dangerous-direct-browser-access'', str ''true''), (str ''x-api-key'', apiKey)]"

definition probe_headers :: "jsval \<Rightarrow> jstr \<Rightarrow> (jstr \<times> jstr) list" where
  "probe_headers format apiKey =
     (if format = Str (str ''anthropic'') then anthropic_headers apiKey
      else if format = Str (str ''google'') then [content_json, (str ''x-goog-api-key'', apiKey)]
      else [content_json, (str ''authorization'', str ''Bearer '' @ apiKey)])"

definition probe_body :: "jsval \<Rightarrow> jstr \<Rightarrow> jstr \<Rightarrow> jstr option \<Rightarrow> retry_options \<Rightarrow> jsval" where
  "probe_body format model prompt previous retry =
     (if format = Str (str ''anthropic'') then anthropic_body model prompt previous
      else if format = Str (str ''google'') then google_body prompt previous
      else openai_body model prompt previous retry)"


subsection \<open>Responses\<close>

record protocol_hints =
  hasModel :: bool
  hasRole :: bool
  hasContentArray :: bool
  hasUsage :: bool
  hasStopReason :: bool

record probe_result =
  probe_prompt :: jstr
  responseText :: jstr
  payload :: jsval
  latencyMs :: jsnum
  inputTokens :: jsval
  outputTokens :: jsval
  totalTokens :: jsval
  tps :: jsnum
  parseOk :: bool
  protocolHints :: protocol_hints

text \<open>\<open>j?.error?.message || j?.error?.detail || j?.message || rawText\<close>, as text cut to a length.\<close>

definition error_detail :: "jstr \<Rightarrow> jstr" where
  "error_detail rawText =
     take 280 (case json_parse rawText of
        None \<Rightarrow> rawText
      | Some j \<Rightarrow>
          js_string (js_or (js_or (js_or (get_prop (str ''message'') (get_prop (str ''error'') j))
            (get_prop (str ''detail'') (get_prop (str ''error'') j))) (get_prop (str ''message'') j)) (Str rawText)))"

text \<open>A property that is a text with at least one character, as the list of that text.\<close>

definition text_prop :: "string \<Rightarrow> jsval \<Rightarrow> jstr list" where
  "text_prop k v = (case get_prop (str k) v of Str s \<Rightarrow> if s = [] then [] else [s] | _ \<Rightarrow> [])"

definition or_null :: "jsval \<Rightarrow> jsval" where
  "or_null v = js_coalesce v Null"

definition tokens_per_second :: "jsval \<Rightarrow> jsnum \<Rightarrow> jsnum" where
  "tokens_per_second out latency =
     (if truthy out \<and> num_lt (Fin 0) latency
      then string_to_num (to_fixed 1 (num_div (js_number out) (num_div latency (Fin 1000))))
      else Fin 0)"

record extraction =
  ex_text :: jstr
  ex_payload :: jsval
  ex_input :: jsval
  ex_output :: jsval
  ex_total :: jsval
  ex_hints :: protocol_hints

definition block_text :: "jsval \<Rightarrow> jstr list" where
  "block_text b =
     (if \<not> is_object b then []
      else if text_prop ''text'' b \<noteq> [] then text_prop ''text'' b
      else if text_prop ''thinking'' b \<noteq> [] then text_prop ''thinking'' b
      else text_prop ''content'' b)"

definition string_or_null :: "jsval \<Rightarrow> bool" where
  "string_or_null v \<longleftrightarrow> is_string v \<or> v = Null"

text \<open>\<open>null\<close> has no property \<open>content\<close> to read; every other parsed value can be asked.\<close>

definition extract_anthropic :: "jsval \<Rightarrow> extraction option" where
  "extract_anthropic p =
     (if p = Null then None
      else
        let joined = trim (join [10] (concat (map block_text (elements (get_prop (str ''content'') p)))));
            completion = get_prop (str ''completion'') p;
            usage = get_prop (str ''usage'') p;
            inp = or_null (get_prop (str ''input_tokens'') usage);
            out = or_null (get_prop (str ''output_tokens'') usage)
        in Some
          \<lparr>ex_text = (if joined = [] \<and> is_string completion then trim (js_string completion) else joined),
           ex_payload = p, ex_input = inp, ex_output = out,
           ex_total = (if \<not> nullish inp \<and> \<not> nullish out then js_add inp out else Null),
           ex_hints =
             \<lparr>hasModel = is_string (get_prop (str ''model'') p), hasRole = is_string (get_prop (str ''role'') p),
              hasContentArray = is_array (get_prop (str ''content'') p), hasUsage = is_object usage,
              hasStopReason = string_or_null (get_prop (str ''stop_reason'') p)\<rparr>\<rparr>)"

text \<open>\<open>parts\<close> must be an array where it is truthy, since \<open>filter\<close> is called on it.\<close>

definition extract_google :: "jsval \<Rightarrow> extraction option" where
  "extract_google p =
     (let cands = elements (get_prop (str ''candidates'') p);
          first = js_index 0 (Arr cands);
          content = get_prop (str ''content'') first;
          parts = js_or (get_prop (str ''parts'') content) (Arr []);
          usage = get_prop (str ''usageMetadata'') p
      in if \<not> is_array parts then None
         else Some
          \<lparr>ex_text = trim (join [10] (map (\<lambda>q. js_string (get_prop (str ''text'') q))
             (filter (\<lambda>q. truthy q \<and> is_string (get_prop (str ''text'') q)) (elements parts)))),
           ex_payload = p,
           ex_input = or_null (get_prop (str ''promptTokenCount'') usage),
           ex_output = or_null (get_prop (str ''candidatesTokenCount'') usage),
           ex_total = or_null (get_prop (str ''totalTokenCount'') usage),
           ex_hints =
             \<lparr>hasModel = truthy (get_prop (str ''modelVersion'') p) \<or> cands \<noteq> [],
              hasRole = is_string (get_prop (str ''role'') content), hasContentArray = True,
              hasUsage = truthy usage, hasStopReason = is_string (get_prop (str ''finishReason'') first)\<rparr>\<rparr>)"

definition message_parts :: "jsval \<Rightarrow> jstr list" where
  "message_parts msg =
     (if is_array (get_prop (str ''content'') msg)
      then concat (map (text_prop ''text'') (elements (get_prop (str ''content'') msg)))
      else text_prop ''content'' msg)
     @ text_prop ''reasoning_content'' msg @ text_prop ''reasoning'' msg
     @ concat (map (\<lambda>it. text_prop ''text'' it @ text_prop ''summary'' it) (elements (get_prop (str ''reasoning_details'') msg)))"

definition positive_number :: "jsval \<Rightarrow> bool" where
  "positive_number v = (case v of Num n \<Rightarrow> num_lt (Fin 0) n | _ \<Rightarrow> False)"

definition extract_openai :: "jsval \<Rightarrow> extraction" where
  "extract_openai p =
     (let choice = js_index 0 (get_prop (str ''choices'') p);
          message = get_prop (str ''message'') choice;
          parts = message_parts (js_or message (Obj []));
          legacy = get_prop (str ''text'') choice;
          all_parts = (if parts = [] \<and> is_string legacy then [js_string legacy] else parts);
          reply = trim (join [10] all_parts);
          usage = get_prop (str ''usage'') p;
          reasoning = get_prop (str ''reasoning_tokens'') (get_prop (str ''completion_tokens_details'') usage)
      in \<lparr>ex_text = reply,
          ex_payload =
            (if reply = [] \<and> positive_number reasoning
             then Obj (obj_put (str ''__cyEmptyReasoning'') (Bool True) (entries p)) else p),
          ex_input = or_null (get_prop (str ''prompt_tokens'') usage),
          ex_output = or_null (get_prop (str ''completion_tokens'') usage),
          ex_total = or_null (get_prop (str ''total_tokens'') usage),
          ex_hints =
            \<lparr>hasModel = is_string (get_prop (str ''model'') p), hasRole = is_string (get_prop (str ''role'') message),
             hasContentArray = is_array (get_prop (str ''choices'') p), hasUsage = is_object usage,
             hasStopReason = string_or_null (get_prop (str ''finish_reason'') choice)\<rparr>\<rparr>)"

definition extract_payload :: "jsval \<Rightarrow> jsval \<Rightarrow> extraction option" where
  "extract_payload format p =
     (if format = Str (str ''anthropic'') then extract_anthropic p
      else if format = Str (str ''google'') then extract_google p
      else Some (extract_openai p))"


subsection \<open>Streams\<close>

text \<open>
  A reader of lines: pieces of text are joined to a buffer, every complete line of it is handled, and
  the rest after the last line feed stays in the buffer.
\<close>

definition read_piece :: "(jstr \<Rightarrow> 's \<Rightarrow> 's) \<Rightarrow> jstr \<Rightarrow> jstr \<times> 's \<Rightarrow> jstr \<times> 's" where
  "read_piece handle piece r =
     (let lines = split_on 10 (fst r @ piece) in (last lines, fold handle (butlast lines) (snd r)))"

record sse =
  contentAcc :: jstr
  reasoningAcc :: jstr
  lastChunk :: jsval
  modelField :: jsval
  sse_input :: jsval
  sse_output :: jsval
  sse_total :: jsval
  sse_hasRole :: bool
  sse_hasStopReason :: bool

definition sse_start :: sse where
  "sse_start =
     \<lparr>contentAcc = [], reasoningAcc = [], lastChunk = Null, modelField = Null, sse_input = Null,
      sse_output = Null, sse_total = Null, sse_hasRole = False, sse_hasStopReason = False\<rparr>"

text \<open>The text a chunk adds to the content, and to the reasoning.\<close>

definition delta_content :: "jsval \<Rightarrow> jstr" where
  "delta_content delta =
     (if is_array (get_prop (str ''content'') delta)
      then concat (concat (map (text_prop ''text'') (elements (get_prop (str ''content'') delta))))
      else concat (text_prop ''content'' delta))"

definition number_or :: "jsval \<Rightarrow> string \<Rightarrow> jsval \<Rightarrow> jsval" where
  "number_or old k usage = (if is_number (get_prop (str k) usage) then get_prop (str k) usage else old)"

definition sse_event :: "jsval \<Rightarrow> sse \<Rightarrow> sse" where
  "sse_event j s =
     (let choice = js_index 0 (get_prop (str ''choices'') j);
          delta = js_or (js_or (get_prop (str ''delta'') choice) (get_prop (str ''message'') choice)) (Obj []);
          usage = get_prop (str ''usage'') j
      in s\<lparr>lastChunk := j,
           modelField := (if is_string (get_prop (str ''model'') j) then get_prop (str ''model'') j else modelField s),
           sse_hasRole := sse_hasRole s \<or> is_string (get_prop (str ''role'') delta),
           contentAcc := contentAcc s @ delta_content delta,
           reasoningAcc := reasoningAcc s @ concat (text_prop ''reasoning_content'' delta) @ concat (text_prop ''reasoning'' delta),
           sse_hasStopReason := sse_hasStopReason s \<or> string_or_null (get_prop (str ''finish_reason'') choice),
           sse_input := number_or (sse_input s) ''prompt_tokens'' usage,
           sse_output := number_or (sse_output s) ''completion_tokens'' usage,
           sse_total := number_or (sse_total s) ''total_tokens'' usage\<rparr>)"

text \<open>A line of the stream; chunks that are not JSON are skipped.\<close>

definition sse_line :: "jstr \<Rightarrow> sse \<Rightarrow> sse" where
  "sse_line rawLine s =
     (let line = trim rawLine; data = trim (drop 5 line)
      in if line = [] \<or> \<not> starts_with line (str ''data:'') then s
         else if data = str ''[DONE]'' then s
         else case json_parse data of None \<Rightarrow> s | Some j \<Rightarrow> sse_event j s)"

definition read_stream :: "jstr list \<Rightarrow> sse" where
  "read_stream pieces = snd (fold (read_piece sse_line) pieces ([], sse_start))"

definition stream_result :: "jstr \<Rightarrow> jsnum \<Rightarrow> sse \<Rightarrow> probe_result" where
  "stream_result prompt time s =
     \<lparr>probe_prompt = prompt,
      responseText = trim (if contentAcc s = [] then reasoningAcc s else contentAcc s),
      payload =
        Obj [(str ''__cyStreamMode'', Bool True), (str ''model'', modelField s),
             (str ''content_accumulated'', Str (contentAcc s)), (str ''reasoning_accumulated'', Str (reasoningAcc s)),
             (str ''last_chunk'', lastChunk s),
             (str ''usage'', Obj [(str ''prompt_tokens'', sse_input s), (str ''completion_tokens'', sse_output s),
                                 (str ''total_tokens'', sse_total s)])],
      latencyMs = num_round time, inputTokens = sse_input s, outputTokens = sse_output s, totalTokens = sse_total s,
      tps = tokens_per_second (sse_output s) (num_round time), parseOk = True,
      protocolHints =
        \<lparr>hasModel = truthy (modelField s), hasRole = sse_hasRole s, hasContentArray = True,
         hasUsage = sse_input s \<noteq> Null \<or> sse_output s \<noteq> Null, hasStopReason = sse_hasStopReason s\<rparr>\<rparr>"


subsection \<open>Sending a probe\<close>

text \<open>Every probe sends at most one request; the requests sent so far are threaded through.\<close>

definition stream_request :: "jstr \<Rightarrow> jstr \<Rightarrow> jstr \<Rightarrow> jstr \<Rightarrow> jstr option \<Rightarrow> probe_request" where
  "stream_request endpoint apiKey model prompt previous =
     \<lparr>rq_method = str ''POST'', rq_url = endpoint,
      rq_headers = [content_json, (str ''accept'', str ''text/event-stream''), (str ''authorization'', str ''Bearer '' @ apiKey)],
      rq_body = json_stringify (stream_body model prompt previous)\<rparr>"

definition read_stream_response :: "jstr \<Rightarrow> exchange \<Rightarrow> probe_error + probe_result" where
  "read_stream_response prompt x =
     (case outcome x of
        Rejected msg \<Rightarrow> Inl (NetworkFailed msg)
      | Response r \<Rightarrow>
          if \<not> response_ok r
          then Inl (HttpFailed (status r) (take 280 (case body_text r of Inl _ \<Rightarrow> [] | Inr t \<Rightarrow> t)))
          else case body_stream r of
              None \<Rightarrow> Inl NoBody
            | Some (pieces, Some msg) \<Rightarrow> Inl (BodyFailed msg)
            | Some (pieces, None) \<Rightarrow> Inr (stream_result prompt (elapsed x) (read_stream pieces)))"

definition sendOpenAIStreamProbe ::
    "fetcher \<Rightarrow> jstr \<Rightarrow> jstr \<Rightarrow> jstr \<Rightarrow> jstr \<Rightarrow> jstr option \<Rightarrow> probe_request list
      \<Rightarrow> probe_request list \<times> (probe_error + probe_result)" where
  "sendOpenAIStreamProbe fetch baseUrl apiKey model prompt previous sent =
     (case resolveEndpoint baseUrl model (Str (str ''openai'')) of
        None \<Rightarrow> (sent, Inl UriMalformed)
      | Some endpoint \<Rightarrow>
          if endpoint = [] then (sent, Inl EndpointEmpty)
          else let rq = stream_request endpoint apiKey model prompt previous
               in (sent @ [rq], read_stream_response prompt (fetch (length sent) rq)))"

definition probe_request_of ::
    "jstr \<Rightarrow> jstr \<Rightarrow> jstr \<Rightarrow> jstr \<Rightarrow> jstr option \<Rightarrow> jsval \<Rightarrow> retry_options \<Rightarrow> probe_request" where
  "probe_request_of endpoint apiKey model prompt previous format retry =
     \<lparr>rq_method = str ''POST'', rq_url = endpoint, rq_headers = probe_headers format apiKey,
      rq_body = json_stringify (probe_body format model prompt previous retry)\<rparr>"

definition probe_result_of :: "jstr \<Rightarrow> jsnum \<Rightarrow> extraction \<Rightarrow> probe_result" where
  "probe_result_of prompt time e =
     \<lparr>probe_prompt = prompt, responseText = ex_text e, payload = ex_payload e, latencyMs = num_round time,
      inputTokens = ex_input e, outputTokens = ex_output e, totalTokens = ex_total e,
      tps = tokens_per_second (ex_output e) (num_round time), parseOk = True, protocolHints = ex_hints e\<rparr>"

definition read_response :: "jstr \<Rightarrow> jsval \<Rightarrow> exchange \<Rightarrow> probe_error + probe_result" where
  "read_response prompt format x =
     (case outcome x of
        Rejected msg \<Rightarrow> Inl (NetworkFailed msg)
      | Response r \<Rightarrow>
          (case body_text r of
             Inl msg \<Rightarrow> Inl (BodyFailed msg)
           | Inr rawText \<Rightarrow>
               if \<not> response_ok r then Inl (HttpFailed (status r) (error_detail rawText))
               else case json_parse rawText of
                   None \<Rightarrow> Inl InvalidJson
                 | Some p \<Rightarrow>
                     (case extract_payload format p of
                        None \<Rightarrow> Inl BadPayload
                      | Some e \<Rightarrow> Inr (probe_result_of prompt (elapsed x) e))))"

definition sendProbe ::
    "fetcher \<Rightarrow> jstr \<Rightarrow> jstr \<Rightarrow> jstr \<Rightarrow> jstr \<Rightarrow> jstr option \<Rightarrow> jsval \<Rightarrow> retry_options \<Rightarrow> probe_request list
      \<Rightarrow> probe_request list \<times> (probe_error + probe_result)" where
  "sendProbe fetch baseUrl apiKey model prompt previous format retry sent =
     (case resolveEndpoint baseUrl model format of
        None \<Rightarrow> (sent, Inl UriMalformed)
      | Some endpoint \<Rightarrow>
          if endpoint = [] then (sent, Inl EndpointEmpty)
          else if useStream retry \<and> (format = Str (str ''openai'') \<or> format = Undefined)
          then sendOpenAIStreamProbe fetch baseUrl apiKey model prompt previous sent
          else let rq = probe_request_of endpoint apiKey model prompt previous format retry
               in (sent @ [rq], read_response prompt format (fetch (length sent) rq)))"



subsection \<open>Reading a stream piece by piece\<close>

lemma split_on_append_pieces: "split_on d (a @ b) = butlast (split_on d a) @ split_on d (last (split_on d a) @ b)"
proof (induction a)
  case (Cons c a)
  show ?case
  proof (cases "c = d")
    case False
    obtain w ws where w: "split_on d a = w # ws"
      using split_on_not_Nil neq_Nil_conv by metis
    show ?thesis
      using Cons False w by (cases ws) auto
  qed (simp add: Cons)
qed simp

text \<open>
  A handler of lines that does not see white space around a line. Whatever pieces the text comes in,
  the reader handles exactly its complete lines, and line feeds may be preceded by carriage returns.
\<close>

locale line_handler =
  fixes handle :: "jstr \<Rightarrow> 's \<Rightarrow> 's"
  assumes handle_trim: "handle (trim line) = handle line"
begin

lemma read_pieces:
  assumes "10 \<notin> set buf"
  shows "fold (read_piece handle) pieces (buf, s) =
    (let lines = split_on 10 (buf @ concat pieces) in (last lines, fold handle (butlast lines) s))"
  using assms
proof (induction pieces arbitrary: buf s)
  case (Cons p pieces)
  let ?l = "split_on 10 (buf @ p)"
  have "10 \<notin> set (last ?l)"
    using split_on_no_sep [of "last ?l" 10 "buf @ p"] by simp
  then show ?case
    using Cons.IH [of "last ?l" "fold handle (butlast ?l) s"] split_on_append_pieces [of 10 "buf @ p" "concat pieces"]
    by (simp add: read_piece_def Let_def butlast_append)
qed (simp add: split_on_Nil_in)

lemma handle_carriage_return: "handle (line @ [13]) = handle line"
proof -
  have "trim (line @ [13]) = trim line"
  proof (cases "trim_start line = []")
    case True
    then have "\<forall>c\<in>set line. is_ws c"
      by (simp add: trim_start_def)
    then have "\<forall>c\<in>set (line @ [13]). is_ws c"
      by (simp add: is_ws_def)
    then show ?thesis
      using \<open>\<forall>c\<in>set line. is_ws c\<close> unfolding trim_eq_Nil_iff [symmetric] by simp
  next
    case False
    then obtain c where "c \<in> set line" "\<not> is_ws c"
      by (auto simp: trim_start_def)
    then have "trim_start (line @ [13]) = trim_start line @ [13]"
      by (simp add: trim_start_def)
    then show ?thesis
      by (simp add: trim_def trim_end_def is_ws_def)
  qed
  then show ?thesis
    using handle_trim by metis
qed

lemma fold_carriage_returns: "fold handle (map (\<lambda>line. line @ [13]) lines) s = fold handle lines s"
  by (induction lines arbitrary: s) (simp_all add: handle_carriage_return)

end

interpretation sse_reader: line_handler sse_line
  by unfold_locales (simp add: sse_line_def fun_eq_iff)

lemma split_on_replace:
  "split_on 10 (replace_unit 10 [13, 10] t) =
     map (\<lambda>line. line @ [13]) (butlast (split_on 10 t)) @ [last (split_on 10 t)]"
proof (induction t)
  case (Cons c t)
  obtain w ws where w: "split_on 10 t = w # ws"
    using split_on_not_Nil neq_Nil_conv by metis
  show ?case
    using Cons w by (cases "c = 10"; cases ws) (auto simp: replace_unit_def)
qed (simp add: replace_unit_def)

text \<open>
  C39: what is read from a stream does not depend on the pieces the network delivers it in: it is the
  result of handling the complete lines of the whole text one after the other. Nor does it depend on
  whether lines end in a line feed or in a carriage return and a line feed.
\<close>

theorem stream_read_by_lines:
  "read_stream pieces = fold sse_line (butlast (split_on 10 (concat pieces))) sse_start
   \<and> read_stream [replace_unit 10 [13, 10] (concat pieces)] = read_stream pieces"
proof -
  have lines: "read_stream ps = fold sse_line (butlast (split_on 10 (concat ps))) sse_start" for ps
    using sse_reader.read_pieces [of "[]" ps sse_start] by (simp add: read_stream_def Let_def)
  show ?thesis
    unfolding lines [of pieces] lines [of "[_]"]
    by (simp add: split_on_replace sse_reader.fold_carriage_returns butlast_append)
qed

end
