(* ===== verification/VerifierRun.thy ===== *)
theory VerifierRun
  imports VerifierProbe
begin

text \<open>
  A run of the model verifier (web/src/pages/Verifier/verifierEngine.js): judging the answers, the
  checks and the score, the list of available models, and the run with its retries.

  The order of model names is a parameter \<open>localeCompare\<close>, the collation of the browser; a random
  number in [0, 1) and the text of the current time are arguments of the run.
\<close>


subsection \<open>Judging an answer\<close>

text \<open>
  The patterns of the source ignore case and consist of texts, \<open>\s*\<close>, \<open>\s\<close> and an optional unit.
\<close>

datatype pattern_item = Unit_text jstr | Spaces | Space | Maybe int

fun match_here :: "pattern_item list \<Rightarrow> jstr \<Rightarrow> bool" where
  "match_here [] s = True"
| "match_here (Unit_text w # ps) s = (starts_with (to_lower s) (to_lower w) \<and> match_here ps (drop (length w) s))"
| "match_here (Space # ps) s = (case s of [] \<Rightarrow> False | c # t \<Rightarrow> is_ws c \<and> match_here ps t)"
| "match_here (Spaces # ps) s =
     (match_here ps s \<or> (case s of [] \<Rightarrow> False | c # t \<Rightarrow> is_ws c \<and> match_here (Spaces # ps) t))"
| "match_here (Maybe u # ps) s =
     (match_here ps s \<or> (case s of [] \<Rightarrow> False | c # t \<Rightarrow> to_lower_unit c = to_lower_unit u \<and> match_here ps t))"

fun pattern_test :: "pattern_item list \<Rightarrow> jstr \<Rightarrow> bool" where
  "pattern_test p [] = match_here p []"
| "pattern_test p (c # s) = (match_here p (c # s) \<or> pattern_test p s)"

definition UNKNOWN_PATTERNS :: "pattern_item list list" where
  "UNKNOWN_PATTERNS =
     [[Unit_text ([19981, 30693, 36947])],
      [Unit_text ([19981, 28165, 26970])],
      [Unit_text ([19981, 30830, 23450])],
      [Unit_text ([26080, 27861, 30830, 23450])],
      [Unit_text ([26080, 27861, 22238, 31572])],
      [Unit_text (str ''i''), Spaces, Unit_text (str ''don''), Maybe 39, Unit_text (str ''t''), Spaces, Unit_text (str ''know'')],
      [Unit_text (str ''not''), Spaces, Unit_text (str ''sure'')],
      [Unit_text (str ''can'' @ [39] @ str ''t''), Spaces, Unit_text (str ''tell'')]]"

definition REFUSAL_PATTERNS :: "pattern_item list list" where
  "REFUSAL_PATTERNS =
     [[Unit_text (str ''cannot''), Space, Spaces, Unit_text (str ''discuss'')],
      [Unit_text (str ''can''), Maybe 39, Unit_text (str ''t''), Space, Spaces, Unit_text (str ''discuss'')],
      [Unit_text (str ''cannot''), Space, Spaces, Unit_text (str ''provide'')],
      [Unit_text (str ''can''), Maybe 39, Unit_text (str ''t''), Space, Spaces, Unit_text (str ''provide'')],
      [Unit_text (str ''cannot''), Space, Spaces, Unit_text (str ''answer'')],
      [Unit_text (str ''can''), Maybe 39, Unit_text (str ''t''), Space, Spaces, Unit_text (str ''answer'')],
      [Unit_text ([26080, 27861, 35752, 35770])],
      [Unit_text ([25298, 32477, 22238, 31572])]]"

definition isUnknownResponse :: "jstr \<Rightarrow> bool" where
  "isUnknownResponse s =
     (let n = trim s
      in if n = [] then True
         else if length (filter (\<lambda>c. \<not> is_ws c) n) < 4 then True
         else if list_ex (\<lambda>p. pattern_test p n) UNKNOWN_PATTERNS then True
         else if list_ex (\<lambda>p. pattern_test p n) REFUSAL_PATTERNS then True
         else False)"

definition isTariffAnswerValid :: "jstr \<Rightarrow> bool" where
  "isTariffAnswerValid s = isUnknownResponse s"


subsection \<open>Checks and score\<close>

datatype check_status = Pass | Warning | Fail

definition statusToScore :: "check_status \<Rightarrow> int \<Rightarrow> int" where
  "statusToScore s weight =
     (case s of Pass \<Rightarrow> weight | Warning \<Rightarrow> \<lfloor>rat_of_int weight * (1/2) + 1/2\<rfloor> | Fail \<Rightarrow> 0)"

record check =
  check_key :: jstr
  check_name :: jstr
  check_status :: check_status
  check_detail :: jstr

definition hint_bits :: "protocol_hints \<Rightarrow> bool list" where
  "hint_bits h = [hasModel h, hasRole h, hasContentArray h, hasUsage h, hasStopReason h]"

definition protocolBits :: "probe_result \<Rightarrow> probe_result option \<Rightarrow> nat" where
  "protocolBits stage1 stage2 =
     length (filter id (hint_bits (protocolHints stage1) @
       (case stage2 of Some s \<Rightarrow> hint_bits (protocolHints s) | None \<Rightarrow> replicate 5 False)))"

definition protocolStatus :: "probe_result \<Rightarrow> probe_result option \<Rightarrow> check_status" where
  "protocolStatus stage1 stage2 =
     (let bits = protocolBits stage1 stage2 in if 8 \<le> bits then Pass else if 5 \<le> bits then Warning else Fail)"

definition responseStructureStatus :: "probe_result \<Rightarrow> probe_result option \<Rightarrow> check_status" where
  "responseStructureStatus stage1 stage2 =
     (case stage2 of
        Some s \<Rightarrow> if parseOk stage1 \<and> parseOk s then Pass else Fail
      | None \<Rightarrow> if parseOk stage1 then Warning else Fail)"

definition detail_key :: "check_status \<Rightarrow> string \<Rightarrow> jstr" where
  "detail_key s k =
     str (''verifier.check.'' @ k @ (case s of Pass \<Rightarrow> ''Pass'' | Warning \<Rightarrow> ''Warn'' | Fail \<Rightarrow> ''Fail''))"

definition check_of :: "string \<Rightarrow> check_status \<Rightarrow> check" where
  "check_of k s =
     \<lparr>check_key = str k, check_name = str (''verifier.check.'' @ k), check_status = s, check_detail = detail_key s k\<rparr>"

definition buildChecks ::
    "probe_result \<Rightarrow> probe_result option \<Rightarrow> bool \<Rightarrow> bool \<Rightarrow> check list \<times> int" where
  "buildChecks stage1 stage2 stage1Pass stage2Pass =
     (let protocol = protocolStatus stage1 stage2;
          response = responseStructureStatus stage1 stage2;
          knowledge = (if \<not> stage1Pass then Fail else if stage2Pass then Pass else Fail);
          identity = (if stage1Pass then Pass else Fail);
          weighted = statusToScore identity 45 + statusToScore knowledge 35 + statusToScore protocol 12 + statusToScore response 8;
          capped = (if \<not> stage1Pass then min weighted 35 else if \<not> stage2Pass then min weighted 70 else weighted)
      in ([check_of ''identity'' identity, check_of ''knowledge'' knowledge, check_of ''protocol'' protocol,
           check_of ''response'' response],
          max 0 (min 100 capped)))"


subsection \<open>Available models\<close>

datatype models_error =
    NoEndpoint
  | NoKey
  | ModelsNetwork jstr
  | ModelsBody jstr
  | ModelsHttp int jstr
  | NotJson

definition models_url :: "jstr \<Rightarrow> jsval \<Rightarrow> jstr" where
  "models_url base format = base @ (if format = Str (str ''google'') then str ''/v1beta/models'' else str ''/v1/models'')"

definition models_headers :: "jstr \<Rightarrow> jsval \<Rightarrow> (jstr \<times> jstr) list" where
  "models_headers apiKey format =
     (if format = Str (str ''google'') then [(str ''x-goog-api-key'', apiKey)]
      else if format = Str (str ''anthropic'') then
        [(str ''x-api-key'', apiKey), (str ''anthropic-version'', str ''2023-06-01''),
         (str ''anthropic-dangerous-direct-browser-access'', str ''true'')]
      else [(str ''authorization'', str ''Bearer '' @ apiKey)])"

definition models_detail :: "jstr \<Rightarrow> jstr" where
  "models_detail rawText =
     take 200 (case json_parse rawText of
        None \<Rightarrow> rawText
      | Some j \<Rightarrow>
          js_string (js_or (js_or (get_prop (str ''message'') (get_prop (str ''error'') j)) (get_prop (str ''message'') j))
            (Str rawText)))"

definition strip_models_prefix :: "jstr \<Rightarrow> jstr" where
  "strip_models_prefix s = (if starts_with s (str ''models/'') then drop 7 s else s)"

definition model_ids :: "jsval \<Rightarrow> jsval \<Rightarrow> jstr list" where
  "model_ids format p =
     filter (\<lambda>s. s \<noteq> [])
       (if format = Str (str ''google'')
        then map (\<lambda>m. strip_models_prefix (js_string (get_prop (str ''name'') m)))
          (filter (\<lambda>m. is_string (get_prop (str ''name'') m)) (elements (get_prop (str ''models'') p)))
        else map (\<lambda>m. js_string (get_prop (str ''id'') m))
          (filter (\<lambda>m. is_string (get_prop (str ''id'') m)) (elements (get_prop (str ''data'') p))))"

definition fetchAvailableModels ::
    "(jstr \<Rightarrow> jstr \<Rightarrow> int) \<Rightarrow> fetcher \<Rightarrow> jstr \<Rightarrow> jstr \<Rightarrow> jsval \<Rightarrow> models_error + jstr list" where
  "fetchAvailableModels localeCompare fetch baseUrl apiKey format =
     (let trimmed = strip_slashes (trim baseUrl)
      in if trimmed = [] then Inl NoEndpoint
         else if apiKey = [] then Inl NoKey
         else
           case outcome (fetch 0 \<lparr>rq_method = str ''GET'', rq_url = models_url (endpoint_base trimmed) format,
                                  rq_headers = models_headers apiKey format, rq_body = []\<rparr>) of
             Rejected msg \<Rightarrow> Inl (ModelsNetwork msg)
           | Response r \<Rightarrow>
               (case body_text r of
                  Inl msg \<Rightarrow> Inl (ModelsBody msg)
                | Inr rawText \<Rightarrow>
                    if \<not> response_ok r then Inl (ModelsHttp (status r) (models_detail rawText))
                    else case json_parse rawText of
                        None \<Rightarrow> Inl NotJson
                      | Some p \<Rightarrow> Inr (sort_by localeCompare (uniq (model_ids format p)))))"


subsection \<open>The run\<close>

record report =
  report_id :: jstr
  score :: int
  checks :: "check list"
  latency :: jsnum
  report_tps :: jsnum
  report_input :: jsval
  report_output :: jsval
  stage1Reply :: jstr
  stage2Reply :: "jstr option"
  stage1Raw :: jsval
  stage2Raw :: jsval
  report_format :: jsval
  report_model :: jstr
  report_endpoint :: jstr
  timestamp :: jstr

definition high_effort :: retry_options where
  "high_effort = \<lparr>reasoningEffort = Some (str ''high''), maxTokens = Some 65536, useStream = False\<rparr>"

definition stream_retry :: retry_options where
  "stream_retry = \<lparr>reasoningEffort = None, maxTokens = None, useStream = True\<rparr>"

text \<open>The first retry, with a higher effort: its errors end the run.\<close>

definition retry_effort ::
    "fetcher \<Rightarrow> jstr \<Rightarrow> jstr \<Rightarrow> jstr \<Rightarrow> jsval \<Rightarrow> probe_request list \<times> (probe_error + probe_result)
      \<Rightarrow> probe_request list \<times> (probe_error + probe_result)" where
  "retry_effort fetch baseUrl apiKey model format r =
     (case r of
        (sent, Inl e) \<Rightarrow> (sent, Inl e)
      | (sent, Inr s) \<Rightarrow>
          if responseText s = [] \<and> truthy (get_prop (str ''__cyEmptyReasoning'') (payload s))
          then sendProbe fetch baseUrl apiKey model SYMBOL_PROMPT None format high_effort sent
          else (sent, Inr s))"

text \<open>The second retry, as a stream: when it fails the answer stays as it was.\<close>

definition retry_stream ::
    "fetcher \<Rightarrow> jstr \<Rightarrow> jstr \<Rightarrow> jstr \<Rightarrow> jsval \<Rightarrow> probe_request list \<times> (probe_error + probe_result)
      \<Rightarrow> probe_request list \<times> (probe_error + probe_result)" where
  "retry_stream fetch baseUrl apiKey model format r =
     (case r of
        (sent, Inl e) \<Rightarrow> (sent, Inl e)
      | (sent, Inr s) \<Rightarrow>
          if responseText s = [] \<and> (format = Str (str ''openai'') \<or> format = Undefined)
          then (case sendProbe fetch baseUrl apiKey model SYMBOL_PROMPT None format stream_retry sent of
                  (sent', Inl e) \<Rightarrow> (sent', Inr s)
                | (sent', Inr s') \<Rightarrow> (sent', Inr s'))
          else (sent, Inr s))"

definition stage_one ::
    "fetcher \<Rightarrow> jstr \<Rightarrow> jstr \<Rightarrow> jstr \<Rightarrow> jsval \<Rightarrow> probe_request list \<times> (probe_error + probe_result)" where
  "stage_one fetch baseUrl apiKey model format =
     retry_stream fetch baseUrl apiKey model format (retry_effort fetch baseUrl apiKey model format
       (sendProbe fetch baseUrl apiKey model SYMBOL_PROMPT None format no_retry []))"

definition num_half :: "jsnum \<Rightarrow> jsnum \<Rightarrow> jsnum" where
  "num_half a b = num_div (num_add a b) (Fin 2)"

definition report_of ::
    "rat \<Rightarrow> jstr \<Rightarrow> jstr \<Rightarrow> jstr \<Rightarrow> jsval \<Rightarrow> probe_result \<Rightarrow> probe_result option \<Rightarrow> bool \<Rightarrow> bool \<Rightarrow> report" where
  "report_of random now baseUrl model format stage1 stage2 stage1Pass stage2Pass =
     (let built = buildChecks stage1 stage2 stage1Pass stage2Pass;
          zero = (\<lambda>v. js_coalesce v (Num (Fin 0)))
      in \<lparr>report_id = 35 # num_to_string (num_floor (num_add (Fin 100000) (num_mul (Fin random) (Fin 900000)))),
          score = snd built,
          checks = fst built,
          latency = (case stage2 of Some s \<Rightarrow> num_round (num_half (latencyMs stage1) (latencyMs s)) | None \<Rightarrow> latencyMs stage1),
          report_tps = (case stage2 of Some s \<Rightarrow> string_to_num (to_fixed 1 (num_half (tps stage1) (tps s))) | None \<Rightarrow> tps stage1),
          report_input = js_add (zero (inputTokens stage1)) (case stage2 of Some s \<Rightarrow> zero (inputTokens s) | None \<Rightarrow> Num (Fin 0)),
          report_output = js_add (zero (outputTokens stage1)) (case stage2 of Some s \<Rightarrow> zero (outputTokens s) | None \<Rightarrow> Num (Fin 0)),
          stage1Reply = responseText stage1,
          stage2Reply = (case stage2 of Some s \<Rightarrow> if responseText s = [] then None else Some (responseText s) | None \<Rightarrow> None),
          stage1Raw = payload stage1,
          stage2Raw = (case stage2 of Some s \<Rightarrow> js_or (payload s) Null | None \<Rightarrow> Null),
          report_format = format, report_model = model, report_endpoint = baseUrl, timestamp = now\<rparr>)"

definition runVerification ::
    "fetcher \<Rightarrow> rat \<Rightarrow> jstr \<Rightarrow> jstr \<Rightarrow> jstr \<Rightarrow> jstr \<Rightarrow> jsval \<Rightarrow> probe_request list \<times> (probe_error + report)" where
  "runVerification fetch random now baseUrl apiKey model format =
     (case stage_one fetch baseUrl apiKey model format of
        (sent, Inl e) \<Rightarrow> (sent, Inl e)
      | (sent, Inr stage1) \<Rightarrow>
          if responseText stage1 = [] then (sent, Inl EmptyReasoning)
          else if \<not> includes_str (responseText stage1) [8221]
          then (sent, Inr (report_of random now baseUrl model format stage1 None False False))
          else
            case sendProbe fetch baseUrl apiKey model TARIFF_PROMPT (Some (responseText stage1)) format no_retry sent of
              (sent', Inl e) \<Rightarrow> (sent', Inl e)
            | (sent', Inr stage2) \<Rightarrow>
                (sent', Inr (report_of random now baseUrl model format stage1 (Some stage2) True
                   (isTariffAnswerValid (responseText stage2)))))"



subsection \<open>Requests of a run\<close>

text \<open>A probe appends at most one request, to the endpoint of the URL, and reads a result completely.\<close>

lemma openai_endpoint: "resolveEndpoint baseUrl model Undefined = resolveEndpoint baseUrl model (Str (str ''openai''))"
  by (simp add: resolveEndpoint_def Let_def)

lemma read_response_parsed: "read_response prompt format x = Inr r \<Longrightarrow> parseOk r"
  by (auto simp: read_response_def probe_result_of_def split: fetch_outcome.splits sum.splits if_splits option.splits)

lemma read_stream_parsed: "read_stream_response prompt x = Inr r \<Longrightarrow> parseOk r"
  by (auto simp: read_stream_response_def stream_result_def split: fetch_outcome.splits if_splits option.splits)

lemma sendProbe_parsed: "sendProbe fetch baseUrl apiKey model prompt previous format retry sent = (sent', Inr r) \<Longrightarrow> parseOk r"
  by (auto simp: sendProbe_def sendOpenAIStreamProbe_def Let_def split: option.splits if_splits
      dest: read_response_parsed read_stream_parsed)

definition addressed :: "jstr \<Rightarrow> jstr \<Rightarrow> jsval \<Rightarrow> probe_request \<Rightarrow> bool" where
  "addressed baseUrl model format rq \<longleftrightarrow> rq_method rq = str ''POST'' \<and> resolveEndpoint baseUrl model format = Some (rq_url rq)"

lemma sendProbe_sent:
  assumes "sendProbe fetch baseUrl apiKey model prompt previous format retry sent = (sent', res)"
  shows "\<exists>new. sent' = sent @ new \<and> length new \<le> 1 \<and> list_all (addressed baseUrl model format) new \<and> (isl res \<or> new \<noteq> [])"
  using assms openai_endpoint [of baseUrl model]
  by (auto simp: sendProbe_def sendOpenAIStreamProbe_def Let_def addressed_def probe_request_of_def stream_request_def
      split: option.splits if_splits)

lemma stage_one_sent:
  assumes "stage_one fetch baseUrl apiKey model format = (sent, res)"
  shows "length sent \<le> 3 \<and> list_all (addressed baseUrl model format) sent \<and> (isl res \<or> sent \<noteq> [])"
proof -
  obtain sent0 res0 where first: "sendProbe fetch baseUrl apiKey model SYMBOL_PROMPT None format no_retry [] = (sent0, res0)"
    by fastforce
  have 0: "length sent0 \<le> 1" "list_all (addressed baseUrl model format) sent0" "isl res0 \<or> sent0 \<noteq> []"
    using sendProbe_sent [OF first] by auto
  obtain sent1 res1 where second: "retry_effort fetch baseUrl apiKey model format (sent0, res0) = (sent1, res1)"
    by fastforce
  have 1: "length sent1 \<le> 2" "list_all (addressed baseUrl model format) sent1" "isl res1 \<or> sent1 \<noteq> []"
    using second 0 by (auto simp: retry_effort_def split: sum.splits if_splits dest!: sendProbe_sent)
  have "retry_stream fetch baseUrl apiKey model format (sent1, res1) = (sent, res)"
    using assms by (simp add: stage_one_def first second)
  then show ?thesis
    using 1 by (auto simp: retry_stream_def split: sum.splits if_splits prod.splits dest!: sendProbe_sent)
qed

lemma stage_one_parsed: "stage_one fetch baseUrl apiKey model format = (sent, Inr r) \<Longrightarrow> parseOk r"
  by (auto simp: stage_one_def retry_stream_def retry_effort_def split: sum.splits if_splits prod.splits dest!: sendProbe_parsed)


subsection \<open>Scores\<close>

lemma protocolStatus_one: "protocolStatus stage1 None \<noteq> Pass"
  by (auto simp: protocolStatus_def protocolBits_def hint_bits_def Let_def)

lemma status_scores: "statusToScore s 12 = (case s of Pass \<Rightarrow> 12 | Warning \<Rightarrow> 6 | Fail \<Rightarrow> 0)"
  "statusToScore s 8 = (case s of Pass \<Rightarrow> 8 | Warning \<Rightarrow> 4 | Fail \<Rightarrow> 0)" "statusToScore Pass w = w" "statusToScore Fail w = 0"
  by (simp_all add: statusToScore_def floor_eq_iff split: check_status.split)

lemma score_first_failed: "parseOk stage1 \<Longrightarrow> snd (buildChecks stage1 None False p) \<in> {4, 10}"
  using protocolStatus_one [of stage1]
  by (cases "protocolStatus stage1 None") (simp_all add: buildChecks_def Let_def status_scores responseStructureStatus_def)

lemma score_second_failed:
  "parseOk stage1 \<Longrightarrow> parseOk stage2 \<Longrightarrow> snd (buildChecks stage1 (Some stage2) True False) \<in> {53, 59, 65}"
  by (cases "protocolStatus stage1 (Some stage2)") (simp_all add: buildChecks_def Let_def status_scores responseStructureStatus_def)

lemma score_both_passed:
  "parseOk stage1 \<Longrightarrow> parseOk stage2 \<Longrightarrow> snd (buildChecks stage1 (Some stage2) True True) \<in> {88, 94, 100}"
  by (cases "protocolStatus stage1 (Some stage2)") (simp_all add: buildChecks_def Let_def status_scores responseStructureStatus_def)

lemma blank_answer_valid: "isTariffAnswerValid []"
  by (simp add: isTariffAnswerValid_def isUnknownResponse_def)

text \<open>The answer to the second question, empty where there is none.\<close>

definition second_answer :: "report \<Rightarrow> jstr" where
  "second_answer r = (case stage2Reply r of Some a \<Rightarrow> a | None \<Rightarrow> [])"

lemma run_score:
  assumes "runVerification fetch random now baseUrl apiKey model format = (sent, Inr r)"
  shows "score r \<in> (if \<not> includes_str (stage1Reply r) [8221] then {4, 10}
    else if isTariffAnswerValid (second_answer r) then {88, 94, 100} else {53, 59, 65})"
proof -
  obtain sent1 stage1 where one: "stage_one fetch baseUrl apiKey model format = (sent1, Inr stage1)"
    using assms by (auto simp: runVerification_def split: prod.splits sum.splits)
  have p: "parseOk stage1"
    using stage_one_parsed [OF one] .
  show ?thesis
  proof (cases "includes_str (responseText stage1) [8221]")
    case False
    then show ?thesis
      using assms score_first_failed [OF p, of False]
      by (auto simp: runVerification_def one report_of_def Let_def split: if_splits)
  next
    case True
    then obtain stage2 where two:
      "sendProbe fetch baseUrl apiKey model TARIFF_PROMPT (Some (responseText stage1)) format no_retry sent1 = (sent, Inr stage2)"
      "r = report_of random now baseUrl model format stage1 (Some stage2) True (isTariffAnswerValid (responseText stage2))"
      using assms by (auto simp: runVerification_def one split: if_splits prod.splits sum.splits)
    have "second_answer r = responseText stage2" "stage1Reply r = responseText stage1"
      "score r = snd (buildChecks stage1 (Some stage2) True (isTariffAnswerValid (responseText stage2)))"
      by (simp_all add: two(2) report_of_def second_answer_def Let_def)
    then show ?thesis
      using True score_second_failed [OF p sendProbe_parsed [OF two(1)]] score_both_passed [OF p sendProbe_parsed [OF two(1)]]
      by (cases "isTariffAnswerValid (responseText stage2)") simp_all
  qed
qed

lemma short_answer_valid: "length (filter (\<lambda>c. \<not> is_ws c) s) < 4 \<Longrightarrow> isTariffAnswerValid s"
proof -
  assume s: "length (filter (\<lambda>c. \<not> is_ws c) s) < 4"
  obtain u where u: "trim_start s = trim s @ u"
    using trim_end_prefix [of "trim_start s"] by (auto simp: trim_def)
  have "s = takeWhile is_ws s @ trim s @ u"
    using u takeWhile_dropWhile_id [of is_ws s] by (simp add: trim_start_def)
  then have "length (filter (\<lambda>c. \<not> is_ws c) (trim s)) \<le> length (filter (\<lambda>c. \<not> is_ws c) s)"
    by (metis filter_append le_add1 le_add2 length_append order_trans)
  with s have "length (filter (\<lambda>c. \<not> is_ws c) (trim s)) < 4"
    by linarith
  then show ?thesis
    unfolding isTariffAnswerValid_def isUnknownResponse_def Let_def by simp
qed


subsection \<open>Properties\<close>

definition demo_reply :: "jstr \<Rightarrow> exchange" where
  "demo_reply t = \<lparr>elapsed = Fin 1000, outcome = Response \<lparr>status = 200, body_text = Inr t, body_stream = None\<rparr>\<rparr>"

definition demo_fetch :: fetcher where
  "demo_fetch n rq =
     demo_reply (str ''{\"choices\":[{\"text\":\"'' @ (if n = 0 then [8221] else str ''20%'') @ str ''\"}]}'')"

definition demo_run :: "probe_request list \<times> (probe_error + report)" where
  "demo_run = runVerification demo_fetch 0 [] (str ''http://a'') (str ''k'') (str ''m'') (Str (str ''openai''))"

lemma demo_run_result:
  "\<exists>sent r. demo_run = (sent, Inr r) \<and> includes_str (stage1Reply r) [8221] \<and> stage2Reply r = Some (str ''20%'')"
proof -
  have "case snd demo_run of
      Inl _ \<Rightarrow> False
    | Inr r \<Rightarrow> includes_str (stage1Reply r) [8221] \<and> stage2Reply r = Some (str ''20%'')"
    by code_simp
  then obtain r where r: "snd demo_run = Inr r" "includes_str (stage1Reply r) [8221]" "stage2Reply r = Some (str ''20%'')"
    by (auto split: sum.splits)
  then have "demo_run = (fst demo_run, Inr r)"
    by (metis prod.collapse)
  with r show ?thesis
    by blast
qed

text \<open>
  C37: the score of a run lies in a band that tells the verdict: at most 10 when the first reply lacks
  the closing quote, between 53 and 65 when it has the quote but the second answer is not judged
  uncertain, and at least 88 when both are passed. Within a band only the protocol check moves it.
\<close>

theorem score_tells_verdict:
  assumes "runVerification fetch random now baseUrl apiKey model format = (sent, Inr r)"
  shows "0 \<le> score r \<and> score r \<le> 100
    \<and> score r \<in> (if \<not> includes_str (stage1Reply r) [8221] then {4, 10}
        else if isTariffAnswerValid (second_answer r) then {88, 94, 100} else {53, 59, 65})"
  using run_score [OF assms] by (auto split: if_splits)

theorem score_tells_verdict_witness: "\<exists>sent r. demo_run = (sent, Inr r) \<and> score r \<in> {53, 59, 65, 88, 94, 100}"
proof -
  obtain sent r where r: "demo_run = (sent, Inr r)" "includes_str (stage1Reply r) [8221]"
    using demo_run_result by blast
  then show ?thesis
    using score_tells_verdict [OF r(1) [unfolded demo_run_def]] by (auto split: if_splits)
qed

text \<open>
  C38: a run ends after at most four requests, retries included. Every one is a POST to the endpoint
  of the URL that was entered, and there is no report without a request.
\<close>

theorem run_requests_bounded:
  assumes "runVerification fetch random now baseUrl apiKey model format = (sent, res)"
  shows "length sent \<le> 4
    \<and> list_all (\<lambda>rq. rq_method rq = str ''POST'' \<and> resolveEndpoint baseUrl model format = Some (rq_url rq)) sent
    \<and> (isl res \<or> sent \<noteq> [])"
proof -
  obtain sent1 res1 where one: "stage_one fetch baseUrl apiKey model format = (sent1, res1)"
    by fastforce
  have "length sent \<le> 4 \<and> list_all (addressed baseUrl model format) sent \<and> (isl res \<or> sent \<noteq> [])"
    using assms stage_one_sent [OF one]
    by (auto simp: runVerification_def one split: sum.splits if_splits prod.splits dest!: sendProbe_sent)
  then show ?thesis
    by (simp add: addressed_def [abs_def])
qed

theorem run_requests_bounded_witness: "length (fst demo_run) \<le> 4 \<and> fst demo_run \<noteq> []"
proof -
  obtain sent r where r: "demo_run = (sent, Inr r)"
    using demo_run_result by blast
  then show ?thesis
    using run_requests_bounded [OF r [unfolded demo_run_def]] by (metis fst_conv isl_def sum.distinct(1))
qed

text \<open>
  An invented number can pass as an honest answer: a second answer with fewer than four
  characters besides white space, such as a percentage, is judged uncertain, and the run scores at
  least 88.
\<close>

lemma short_answer_passes:
  assumes "runVerification fetch random now baseUrl apiKey model format = (sent, Inr r)"
    and "includes_str (stage1Reply r) [8221]" "stage2Reply r = Some a" "length (filter (\<lambda>c. \<not> is_ws c) a) < 4"
  shows "88 \<le> score r"
proof -
  have "isTariffAnswerValid (second_answer r)"
    using short_answer_valid [OF assms(4)] assms(3) by (simp add: second_answer_def)
  then show ?thesis
    using run_score [OF assms(1)] assms(2) by auto
qed

lemma short_answer_passes_witness: "\<exists>sent r. demo_run = (sent, Inr r) \<and> stage2Reply r = Some (str ''20%'') \<and> 88 \<le> score r"
proof -
  obtain sent r where r: "demo_run = (sent, Inr r)" "includes_str (stage1Reply r) [8221]" "stage2Reply r = Some (str ''20%'')"
    using demo_run_result by blast
  moreover have "length (filter (\<lambda>c. \<not> is_ws c) (str ''20%'')) < 4"
    by code_simp
  ultimately show ?thesis
    using short_answer_passes [OF r(1) [unfolded demo_run_def] r(2,3)] by blast
qed

text \<open>
  The list of available models has every identifier of the response once, no empty one and
  nothing else, in the order of the collation.
\<close>

lemma available_models_listed:
  assumes "outcome (fetch 0 \<lparr>rq_method = str ''GET'', rq_url = models_url (endpoint_base (strip_slashes (trim baseUrl))) format,
      rq_headers = models_headers apiKey format, rq_body = []\<rparr>) = Response resp"
    and "response_ok resp" "body_text resp = Inr raw" "json_parse raw = Some p"
    and "strip_slashes (trim baseUrl) \<noteq> []" "apiKey \<noteq> []"
    and "\<And>a b. localeCompare a b \<le> 0 \<or> localeCompare b a \<le> 0"
    and "\<And>a b c. localeCompare a b \<le> 0 \<Longrightarrow> localeCompare b c \<le> 0 \<Longrightarrow> localeCompare a c \<le> 0"
  shows "\<exists>ids. fetchAvailableModels localeCompare fetch baseUrl apiKey format = Inr ids
    \<and> distinct ids \<and> set ids = set (model_ids format p) \<and> [] \<notin> set ids
    \<and> sorted_wrt (\<lambda>a b. localeCompare a b \<le> 0) ids"
  using assms(1-6) sorted_sort_by [where cmp = localeCompare and xs = "uniq (model_ids format p)", OF assms(7,8)]
    distinct_map_sort_by [where f = "\<lambda>x. x" and cmp = localeCompare and xs = "uniq (model_ids format p)"]
  by (auto simp: fetchAvailableModels_def Let_def model_ids_def)

lemma available_models_listed_witness:
  "\<exists>ids. fetchAvailableModels (\<lambda>a b. int (length a) - int (length b))
      (\<lambda>_ _. demo_reply (str ''{\"data\":[{\"id\":\"gpt\"},{\"id\":\"o1\"}]}'')) (str ''http://a'') (str ''k'') Undefined = Inr ids
    \<and> distinct ids"
proof -
  let ?t = "str ''{\"data\":[{\"id\":\"gpt\"},{\"id\":\"o1\"}]}''"
  let ?r = "\<lparr>status = 200, body_text = Inr ?t, body_stream = None\<rparr>" and ?cmp = "\<lambda>a b :: jstr. int (length a) - int (length b)"
  have 1: "outcome (demo_reply ?t) = Response ?r" "body_text ?r = Inr ?t"
    by (simp_all add: demo_reply_def)
  have 2: "response_ok ?r" "strip_slashes (trim (str ''http://a'')) \<noteq> []" "str ''k'' \<noteq> []"
    "json_parse ?t = Some (Obj [(str ''data'', Arr [Obj [(str ''id'', Str (str ''gpt''))], Obj [(str ''id'', Str (str ''o1''))]])])"
    by code_simp+
  let ?fetch = "\<lambda>_ _. demo_reply ?t" and ?p = "Obj [(str ''data'', Arr [Obj [(str ''id'', Str (str ''gpt''))], Obj [(str ''id'', Str (str ''o1''))]])]"
  have "\<exists>ids. fetchAvailableModels ?cmp ?fetch (str ''http://a'') (str ''k'') Undefined = Inr ids
      \<and> distinct ids \<and> set ids = set (model_ids Undefined ?p) \<and> [] \<notin> set ids \<and> sorted_wrt (\<lambda>a b. ?cmp a b \<le> 0) ids"
    by (rule available_models_listed [OF _ 2(1) 1(2) 2(4,2,3)]) (rule 1(1), linarith+)
  then show ?thesis
    by blast
qed

end
