(* ===== verification/GoText.thy ===== *)
theory GoText
  imports JS_JSON
begin

text \<open>
  What the Go sources use of their language and standard library on texts and integers.

  A Go string is represented by the UTF-16 units of its text, as the console's strings are, so that
  both sides of a request can be compared; for valid UTF-8 prefixes, suffixes, splitting at ASCII
  separators and trimming mean the same on either representation. Integers have 64 bits.
\<close>

definition in_int64 :: "int \<Rightarrow> bool" where
  "in_int64 n \<longleftrightarrow> - (2 ^ 63) \<le> n \<and> n < 2 ^ 63"

text \<open>\<open>unicode.IsSpace\<close> and \<open>strings.TrimSpace\<close>.\<close>

definition go_space :: "int \<Rightarrow> bool" where
  "go_space c \<longleftrightarrow> 9 \<le> c \<and> c \<le> 13 \<or> c = 32 \<or> c = 133 \<or> c = 160 \<or> c = 5760 \<or> 8192 \<le> c \<and> c \<le> 8202
     \<or> c = 8232 \<or> c = 8233 \<or> c = 8239 \<or> c = 8287 \<or> c = 12288"

definition TrimSpace :: "jstr \<Rightarrow> jstr" where
  "TrimSpace s = rev (dropWhile go_space (rev (dropWhile go_space s)))"

text \<open>\<open>strconv.Atoi\<close> and \<open>strconv.Itoa\<close>.\<close>

definition Atoi :: "jstr \<Rightarrow> int option" where
  "Atoi s =
     (let neg = (s \<noteq> [] \<and> hd s = 45);
          ds = (if s \<noteq> [] \<and> (hd s = 43 \<or> hd s = 45) then tl s else s);
          n = (if neg then - digits_val ds else digits_val ds)
      in if ds \<noteq> [] \<and> list_all is_digit ds \<and> in_int64 n then Some n else None)"

definition Itoa :: "int \<Rightarrow> jstr" where
  "Itoa n = (if n < 0 then 45 # dec_digits (- n) else dec_digits n)"

text \<open>\<open>int(v)\<close> of a double; out of range it is the smallest integer, as on amd64.\<close>

definition int_of_float :: "rat \<Rightarrow> int" where
  "int_of_float x =
     (let n = (if 0 \<le> x then \<lfloor>x\<rfloor> else \<lceil>x\<rceil>) in if in_int64 n then n else - (2 ^ 63))"


subsection \<open>JSON\<close>

text \<open>
  A value of type \<open>interface{}\<close> that comes from JSON is one of the values of \<open>jsval\<close>; maps are lists of
  pairs with distinct keys. \<open>json.Unmarshal\<close> accepts what the console's parser accepts, except numbers
  too large for a double; into a map it accepts an object or \<open>null\<close>.
\<close>

definition Unmarshal :: "jstr \<Rightarrow> jsval option" where
  "Unmarshal s = (case json_parse s of Some v \<Rightarrow> if json_ok v then Some v else None | None \<Rightarrow> None)"

definition UnmarshalMap :: "jstr \<Rightarrow> (jstr \<times> jsval) list option" where
  "UnmarshalMap s = (case Unmarshal s of Some (Obj ps) \<Rightarrow> Some ps | Some Null \<Rightarrow> Some [] | _ \<Rightarrow> None)"

text \<open>\<open>json.Marshal\<close> sorts the keys of a map and escapes the characters of HTML; it fails for infinities.\<close>

definition go_quote_unit :: "int \<Rightarrow> jstr" where
  "go_quote_unit c =
     (if c = 34 \<or> c = 92 then [92, c]
      else if c = 8 then [92, 98]
      else if c = 12 then [92, 102]
      else if c = 10 then [92, 110]
      else if c = 13 then [92, 114]
      else if c = 9 then [92, 116]
      else if c < 32 \<or> c = 60 \<or> c = 62 \<or> c = 38 \<or> c = 8232 \<or> c = 8233 then unicode_escape c
      else [c])"

definition go_quote :: "jstr \<Rightarrow> jstr" where
  "go_quote s = 34 # concat (map go_quote_unit s) @ [34]"

fun go_json :: "jsval \<Rightarrow> jstr" where
  "go_json Undefined = str ''null''"
| "go_json Null = str ''null''"
| "go_json (Bool b) = (if b then str ''true'' else str ''false'')"
| "go_json (Num n) = num_to_string n"
| "go_json (Str s) = go_quote s"
| "go_json (Arr xs) = 91 # join [44] (map go_json xs) @ [93]"
| "go_json (Obj ps) =
     123 # join [44] (map (\<lambda>p. go_quote (fst p) @ 58 # snd p) (sort_key fst (map (\<lambda>p. (fst p, go_json (snd p))) ps))) @ [125]"

definition Marshal :: "jsval \<Rightarrow> jstr option" where
  "Marshal v = (if json_ok v then Some (go_json v) else None)"


subsection \<open>Formatting with \<open>%v\<close>\<close>

text \<open>A double is written with the fewest digits, with an exponent when that is below -4 or at least 6.\<close>

definition exponent_text :: "int \<Rightarrow> jstr" where
  "exponent_text e =
     (let ds = dec_digits \<bar>e\<bar> in (if e < 0 then 45 else 43) # (if length ds < 2 then 48 # ds else ds))"

definition go_float_digits :: "int \<times> int \<Rightarrow> jstr" where
  "go_float_digits d =
     (let (s, e) = strip_zeros d; ds = dec_digits s; dp = int (length ds) + e
      in if dp - 1 < - 4 \<or> 6 \<le> dp - 1 then
           hd ds # (if tl ds = [] then [] else 46 # tl ds) @ 101 # exponent_text (dp - 1)
         else if dp \<le> 0 then 48 # 46 # replicate (nat (- dp)) 48 @ ds
         else if int (length ds) \<le> dp then ds @ replicate (nat e) 48
         else take (nat dp) ds @ 46 # drop (nat dp) ds)"

fun go_float :: "jsnum \<Rightarrow> jstr" where
  "go_float NaN = str ''NaN''"
| "go_float PosInf = str ''+Inf''"
| "go_float NegInf = str ''-Inf''"
| "go_float (Fin x) =
     (if x = 0 then [48] else if x < 0 then 45 # go_float_digits (shortest_decimal (- x)) else go_float_digits (shortest_decimal x))"

fun Sprint :: "jsval \<Rightarrow> jstr" where
  "Sprint Undefined = str ''<nil>''"
| "Sprint Null = str ''<nil>''"
| "Sprint (Bool b) = (if b then str ''true'' else str ''false'')"
| "Sprint (Num n) = go_float n"
| "Sprint (Str s) = s"
| "Sprint (Arr xs) = 91 # join [32] (map Sprint xs) @ [93]"
| "Sprint (Obj ps) =
     str ''map['' @ join [32] (map (\<lambda>p. fst p @ 58 # snd p) (sort_key fst (map (\<lambda>p. (fst p, Sprint (snd p))) ps))) @ [93]"


subsection \<open>Texts on both sides\<close>

lemma TrimSpace_fixed: "s = [] \<or> \<not> go_space (hd s) \<and> \<not> go_space (last s) \<Longrightarrow> TrimSpace s = s"
  by (auto simp: TrimSpace_def dropWhile_fixed hd_rev)

lemma digit_not_space [simp]: "is_digit c \<Longrightarrow> \<not> go_space c"
  by (auto simp: is_digit_def go_space_def)

text \<open>Texts whose white space is white space on both sides.\<close>

definition plain_space :: "jstr \<Rightarrow> bool" where
  "plain_space s \<longleftrightarrow> 133 \<notin> set s \<and> 65279 \<notin> set s"

lemma plain_space_eq: "plain_space s \<Longrightarrow> c \<in> set s \<Longrightarrow> go_space c = is_ws c"
  by (auto simp: plain_space_def go_space_def is_ws_def)

lemma dropWhile_space: "plain_space s \<Longrightarrow> dropWhile go_space s = dropWhile is_ws s"
  by (rule dropWhile_cong) (simp_all add: plain_space_eq)

lemma TrimSpace_trim:
  assumes "plain_space s"
  shows "TrimSpace s = trim s"
proof -
  have "plain_space (rev (dropWhile is_ws s))"
    using assms by (auto simp: plain_space_def dest: set_dropWhileD)
  then show ?thesis
    by (simp add: TrimSpace_def trim_def trim_start_def trim_end_def dropWhile_space assms)
qed

lemma Itoa_text: "0 \<le> n \<Longrightarrow> n < 10 ^ 15 \<Longrightarrow> Itoa n = int_to_string n"
  by (simp add: Itoa_def int_to_string_digits)

lemma Atoi_digits:
  "s \<noteq> [] \<Longrightarrow> \<forall>c\<in>set s. is_digit c \<Longrightarrow> Atoi s = (if digits_val s < 2 ^ 63 then Some (digits_val s) else None)"
proof -
  assume s: "s \<noteq> []" "\<forall>c\<in>set s. is_digit c"
  then have "hd s \<noteq> 43" "hd s \<noteq> 45"
    by (cases s; auto simp: is_digit_def)+
  moreover have "0 \<le> digits_val s"
    by (rule digits_val_nonneg) (rule s)
  ultimately show ?thesis
    using s by (simp add: Atoi_def Let_def in_int64_def list_all_iff)
qed

lemma Atoi_dec_digits: "0 \<le> n \<Longrightarrow> n < 2 ^ 63 \<Longrightarrow> Atoi (dec_digits n) = Some n"
  using dec_digits_not_Nil [of n] dec_digits_digit [of n] by (simp add: Atoi_digits)

text \<open>A text that is not a number for the console is none for the server, a sign apart.\<close>

lemma Atoi_not_digits: "43 \<notin> set s \<Longrightarrow> 45 \<notin> set s \<Longrightarrow> Atoi s = Some n \<Longrightarrow> s \<noteq> [] \<and> (\<forall>c\<in>set s. is_digit c)"
  by (cases s) (auto simp: Atoi_def Let_def list_all_iff split: if_splits)

lemma TrimSpace_idem [simp]: "TrimSpace (TrimSpace s) = TrimSpace s"
proof (rule TrimSpace_fixed)
  let ?y = "dropWhile go_space s"
  let ?z = "dropWhile go_space (rev ?y)"
  have t: "TrimSpace s = rev ?z"
    by (simp add: TrimSpace_def)
  have "\<not> go_space (hd (rev ?z)) \<and> \<not> go_space (last (rev ?z))" if "?z \<noteq> []"
  proof -
    have "rev ?y = takeWhile go_space (rev ?y) @ ?z"
      by simp
    then have "?y = rev ?z @ rev (takeWhile go_space (rev ?y))"
      by (metis rev_append rev_rev_ident)
    then have "hd (rev ?z) = hd ?y" "?y \<noteq> []"
      using that by (metis hd_append2 rev_is_Nil_conv, metis append_is_Nil_conv rev_is_Nil_conv)
    then show ?thesis
      using hd_dropWhile [of go_space s] hd_dropWhile [OF that] that by (simp add: last_rev)
  qed
  then show "TrimSpace s = [] \<or> \<not> go_space (hd (TrimSpace s)) \<and> \<not> go_space (last (TrimSpace s))"
    unfolding t by auto
qed

end
