(* ===== verification/GoStatusCodes.thy ===== *)
theory GoStatusCodes
  imports GoText StatusCodeRules StatusCodeRiskGuard
begin

text \<open>
  Status codes on the server: setting/operation_setting/status_code_ranges.go, which reads the rules
  the console saves and matches codes against them, and \<open>ResetStatusCode\<close> of service/error.go, which
  applies a channel's mapping of status codes.

  The package variables of the settings are the record \<open>status_settings\<close>. The server's parser agrees
  with the console's on every text without a plus sign and without the two characters that are white
  space for only one of them.
\<close>

record StatusCodeRange =
  Start :: int
  End :: int

record status_settings =
  AutomaticDisableStatusCodeRanges :: "StatusCodeRange list"
  AutomaticRetryStatusCodeRanges :: "StatusCodeRange list"

definition default_status_settings :: status_settings where
  "default_status_settings =
     \<lparr>AutomaticDisableStatusCodeRanges = [\<lparr>Start = 401, End = 401\<rparr>],
      AutomaticRetryStatusCodeRanges =
        [\<lparr>Start = 100, End = 199\<rparr>, \<lparr>Start = 300, End = 399\<rparr>, \<lparr>Start = 401, End = 407\<rparr>, \<lparr>Start = 409, End = 499\<rparr>,
         \<lparr>Start = 500, End = 503\<rparr>, \<lparr>Start = 505, End = 523\<rparr>, \<lparr>Start = 525, End = 599\<rparr>]\<rparr>"

definition alwaysSkipRetryStatusCodes :: "int list" where
  "alwaysSkipRetryStatusCodes = [504, 524]"

definition alwaysSkipRetryCodes :: "jstr list" where
  "alwaysSkipRetryCodes = [str ''bad_response_body'']"

definition IsAlwaysSkipRetryStatusCode :: "int \<Rightarrow> bool" where
  "IsAlwaysSkipRetryStatusCode code \<longleftrightarrow> code \<in> set alwaysSkipRetryStatusCodes"

definition IsAlwaysSkipRetryCode :: "jstr \<Rightarrow> bool" where
  "IsAlwaysSkipRetryCode errorCode \<longleftrightarrow> errorCode \<in> set alwaysSkipRetryCodes"

definition go_range_text :: "StatusCodeRange \<Rightarrow> jstr" where
  "go_range_text r = (if Start r = End r then Itoa (Start r) else Itoa (Start r) @ 45 # Itoa (End r))"

definition statusCodeRangesToString :: "StatusCodeRange list \<Rightarrow> jstr" where
  "statusCodeRangesToString rs = join [44] (map go_range_text rs)"

fun match_ranges :: "StatusCodeRange list \<Rightarrow> int \<Rightarrow> bool" where
  "match_ranges [] code = False"
| "match_ranges (r # rest) code =
     (if code < Start r then False else if code \<le> End r then True else match_ranges rest code)"

definition shouldMatchStatusCodeRanges :: "StatusCodeRange list \<Rightarrow> int \<Rightarrow> bool" where
  "shouldMatchStatusCodeRanges rs code = (if code < 100 \<or> 599 < code then False else match_ranges rs code)"

definition parseHTTPStatusCodeToken :: "jstr \<Rightarrow> StatusCodeRange option" where
  "parseHTTPStatusCodeToken token0 =
     (let token = replace_unit 32 [] (TrimSpace token0)
      in if token = [] then None
         else if includes_str token (str ''-'') then
           (case split_on 45 token of
              [a, b] \<Rightarrow>
                if a = [] \<or> b = [] then None
                else (case (Atoi a, Atoi b) of
                        (Some start, Some end') \<Rightarrow>
                          if end' < start then None
                          else if start < 100 \<or> 599 < end' then None
                          else Some \<lparr>Start = start, End = end'\<rparr>
                      | _ \<Rightarrow> None)
            | _ \<Rightarrow> None)
         else (case Atoi token of
                 Some code \<Rightarrow> if code < 100 \<or> 599 < code then None else Some \<lparr>Start = code, End = code\<rparr>
               | None \<Rightarrow> None))"

text \<open>The loop over the segments: the ranges and the invalid segments, in order.\<close>

fun parse_rule_segments :: "jstr list \<Rightarrow> StatusCodeRange list \<times> jstr list" where
  "parse_rule_segments [] = ([], [])"
| "parse_rule_segments (seg # rest) =
     (let trimmed = TrimSpace seg; (rs, bad) = parse_rule_segments rest
      in if trimmed = [] then (rs, bad)
         else case parseHTTPStatusCodeToken trimmed of
                None \<Rightarrow> (rs, trimmed # bad)
              | Some r \<Rightarrow> (r # rs, bad))"

text \<open>The merge, from the last merged range on.\<close>

fun merge_sorted :: "StatusCodeRange \<Rightarrow> StatusCodeRange list \<Rightarrow> StatusCodeRange list" where
  "merge_sorted last' [] = [last']"
| "merge_sorted last' (r # rest) =
     (if Start r \<le> End last' + 1
      then merge_sorted (if End last' < End r then last'\<lparr>End := End r\<rparr> else last') rest
      else last' # merge_sorted r rest)"

text \<open>The error carries the invalid segments its message lists.\<close>

definition ParseHTTPStatusCodeRanges :: "jstr \<Rightarrow> jstr list + StatusCodeRange list" where
  "ParseHTTPStatusCodeRanges input0 =
     (let input = TrimSpace input0
      in if input = [] then Inr []
         else let (rs, invalid) = parse_rule_segments (split_on 44 (replace_unit 65292 [44] input))
           in if invalid \<noteq> [] then Inl invalid
              else case sort_key (\<lambda>r. (Start r, End r)) rs of
                     [] \<Rightarrow> Inr []
                   | first # rest \<Rightarrow> Inr (merge_sorted first rest))"

definition AutomaticDisableStatusCodesToString :: "status_settings \<Rightarrow> jstr" where
  "AutomaticDisableStatusCodesToString st = statusCodeRangesToString (AutomaticDisableStatusCodeRanges st)"

definition AutomaticDisableStatusCodesFromString :: "jstr \<Rightarrow> status_settings \<Rightarrow> jstr list + status_settings" where
  "AutomaticDisableStatusCodesFromString s st =
     (case ParseHTTPStatusCodeRanges s of Inl e \<Rightarrow> Inl e | Inr rs \<Rightarrow> Inr (st\<lparr>AutomaticDisableStatusCodeRanges := rs\<rparr>))"

definition ShouldDisableByStatusCode :: "status_settings \<Rightarrow> int \<Rightarrow> bool" where
  "ShouldDisableByStatusCode st code = shouldMatchStatusCodeRanges (AutomaticDisableStatusCodeRanges st) code"

definition AutomaticRetryStatusCodesToString :: "status_settings \<Rightarrow> jstr" where
  "AutomaticRetryStatusCodesToString st = statusCodeRangesToString (AutomaticRetryStatusCodeRanges st)"

definition AutomaticRetryStatusCodesFromString :: "jstr \<Rightarrow> status_settings \<Rightarrow> jstr list + status_settings" where
  "AutomaticRetryStatusCodesFromString s st =
     (case ParseHTTPStatusCodeRanges s of Inl e \<Rightarrow> Inl e | Inr rs \<Rightarrow> Inr (st\<lparr>AutomaticRetryStatusCodeRanges := rs\<rparr>))"

definition ShouldRetryByStatusCode :: "status_settings \<Rightarrow> int \<Rightarrow> bool" where
  "ShouldRetryByStatusCode st code =
     (if IsAlwaysSkipRetryStatusCode code then False
      else shouldMatchStatusCodeRanges (AutomaticRetryStatusCodeRanges st) code)"



subsection \<open>The two parsers agree\<close>

text \<open>Digits that stand for more than 599 are out of range after rounding, too.\<close>

lemma round_double_large: "2 ^ 53 \<le> x \<Longrightarrow> 2 ^ 53 \<le> round_double x"
proof -
  assume x: "2 ^ 53 \<le> x"
  then have pos: "0 < x"
    by (rule less_le_trans [rotated]) simp
  have "2 powi 53 \<le> x"
    using x by (simp add: power_int_def)
  then have "53 \<le> floor_log2 x"
    using floor_log2_ge pos by blast
  then have q: "quantum x = floor_log2 x - 52" "1 \<le> quantum x"
    using pos by (simp_all add: quantum_def)
  have "2 powi floor_log2 x = (2::rat) powi 52 * 2 powi quantum x"
    using power_int_add [of "2::rat" 52 "floor_log2 x - 52"] by (simp add: q(1))
  then have "of_int (2 ^ 52) \<le> x / 2 powi quantum x"
    using floor_log2_bounds(1) [OF pos] by (simp add: field_simps)
  then have "(2 ^ 52 :: int) \<le> round_even (x / 2 powi quantum x)"
    by (rule round_even_ge)
  then have "(2 ^ 52 :: rat) \<le> of_int (round_even (x / 2 powi quantum x))"
    by (metis of_int_le_iff of_int_numeral of_int_power)
  moreover have "(2::rat) \<le> 2 powi quantum x"
    using powi_le_iff [of 1 "quantum x"] q(2) by simp
  ultimately have "(2 ^ 52 * 2 :: rat) \<le> of_int (round_even (x / 2 powi quantum x)) * 2 powi quantum x"
    by (intro mult_mono) simp_all
  then show ?thesis
    using pos by (simp add: round_double_def)
qed

lemma parse_int_small:
  assumes "isNumber s" "digits_val s \<le> 599"
  shows "parse_int s = Fin (of_int (digits_val s))"
proof -
  have "0 \<le> digits_val s"
    using assms(1) by (simp add: isNumber_def digits_val_nonneg)
  then have "is_double (of_int (digits_val s))"
    using assms(2) by (intro is_double_int) simp
  then show ?thesis
    using assms(1) by (simp add: isNumber_def parse_int_digits is_double_to_num)
qed

lemma parse_int_large:
  assumes "isNumber s" "599 < digits_val s" "parse_int s = Fin x"
  shows "599 < x"
proof (cases "digits_val s \<le> 2 ^ 53")
  case True
  then have "is_double (of_int (digits_val s))"
    using assms(2) by (intro is_double_int) simp
  then show ?thesis
    using assms by (auto simp: isNumber_def parse_int_digits is_double_to_num)
next
  case False
  then have "(2 ^ 53 :: rat) \<le> of_int (digits_val s)"
    by (metis linear of_int_le_iff of_int_numeral of_int_power)
  moreover have "round_double (of_int (digits_val s)) = x"
    using assms(1,3) by (simp add: isNumber_def parse_int_digits to_num_Fin_iff)
  ultimately have "2 ^ 53 \<le> x"
    using round_double_large by blast
  then show ?thesis
    by simp
qed

definition go_range :: "range \<Rightarrow> StatusCodeRange" where
  "go_range r = \<lparr>Start = r_start r, End = r_end r\<rparr>"

lemma Atoi_isNumber:
  assumes "43 \<notin> set s" "45 \<notin> set s"
  shows "Atoi s = (if isNumber s \<and> digits_val s < 2 ^ 63 then Some (digits_val s) else None)"
  using Atoi_digits [of s] Atoi_not_digits [OF assms] by (cases "Atoi s") (auto simp: isNumber_def)

lemma parse_int_cases:
  assumes "isNumber s"
  obtains "digits_val s \<le> 599" "parse_int s = Fin (of_int (digits_val s))"
    | x where "599 < digits_val s" "parse_int s = Fin x" "599 < x"
    | "599 < digits_val s" "\<forall>x. parse_int s \<noteq> Fin x"
  using parse_int_small [OF assms] parse_int_large [OF assms] by (cases "digits_val s \<le> 599"; cases "parse_int s") auto

lemma isNumber_Nil: "\<not> isNumber []"
  by (simp add: isNumber_def)

lemma range_accepted:
  assumes "isNumber a" "isNumber b"
  shows "(case (parse_int a, parse_int b) of
       (Fin start, Fin end') \<Rightarrow>
         if end' < start then None
         else if start < 100 \<or> 599 < end' then None
         else Some \<lparr>r_start = \<lfloor>start\<rfloor>, r_end = \<lfloor>end'\<rfloor>\<rparr>
     | _ \<Rightarrow> None) =
    (if 100 \<le> digits_val a \<and> digits_val a \<le> digits_val b \<and> digits_val b \<le> 599
     then Some \<lparr>r_start = digits_val a, r_end = digits_val b\<rparr> else None)"
  by (rule parse_int_cases [OF assms(1)]; rule parse_int_cases [OF assms(2)]) (auto split: jsnum.split)

lemma code_accepted:
  assumes "isNumber a"
  shows "(case parse_int a of
       Fin code \<Rightarrow> if code < 100 \<or> 599 < code then None else Some \<lparr>r_start = \<lfloor>code\<rfloor>, r_end = \<lfloor>code\<rfloor>\<rparr>
     | _ \<Rightarrow> None) =
    (if 100 \<le> digits_val a \<and> digits_val a \<le> 599 then Some \<lparr>r_start = digits_val a, r_end = digits_val a\<rparr> else None)"
  by (rule parse_int_cases [OF assms]) (auto split: jsnum.split)

lemma token_agrees:
  assumes "plain_space t" "43 \<notin> set t"
  shows "parseHTTPStatusCodeToken t = map_option go_range (parseToken t)"
proof -
  define c where "c = replace_unit 32 [] (trim t)"
  have c: "replace_unit 32 [] (TrimSpace t) = c" "43 \<notin> set c"
    using assms set_trim [of t] by (auto simp: c_def TrimSpace_trim replace_unit_def)
  show ?thesis
  proof (cases "includes_str c (str ''-'')")
    case True
    show ?thesis
    proof (cases "\<exists>a b. split_on 45 c = [a, b]")
      case True
      then obtain a b where ab: "split_on 45 c = [a, b]"
        by blast
      have "join [45] [a, b] = c"
        using join_split_on [of 45 c] ab by simp
      then have p: "43 \<notin> set a" "43 \<notin> set b" "45 \<notin> set a" "45 \<notin> set b"
        using c(2) split_on_no_sep [of a 45 c] split_on_no_sep [of b 45 c] by (auto simp: ab)
      have e: "c \<noteq> []"
        using \<open>includes_str c (str ''-'')\<close> by (auto simp: includes_str_iff)
      show ?thesis
        using p e ab \<open>includes_str c (str ''-'')\<close> unfolding parseHTTPStatusCodeToken_def parseToken_def c(1) c_def [symmetric] Let_def
        by (cases "isNumber a \<and> isNumber b") (auto simp: Atoi_isNumber range_accepted [unfolded prod.case] go_range_def isNumber_Nil)
    next
      case False
      then show ?thesis
        using True unfolding parseHTTPStatusCodeToken_def parseToken_def c(1) c_def [symmetric] Let_def
        by (auto split: list.splits)
    qed
  next
    case False
    then have "45 \<notin> set c"
      by (auto simp: includes_str_iff js_str_simps in_set_conv_decomp)
    with False c(2) show ?thesis
      unfolding parseHTTPStatusCodeToken_def parseToken_def c(1) c_def [symmetric] Let_def
      by (auto simp: Atoi_isNumber code_accepted go_range_def isNumber_Nil)
  qed
qed

lemma segments_agree:
  assumes "\<forall>t\<in>set ss. plain_space t \<and> 43 \<notin> set t"
  shows "parse_rule_segments ss = (map go_range (fst (parse_segments ss)), snd (parse_segments ss))"
  using assms
proof (induction ss)
  case (Cons t ss)
  have t: "plain_space (trim t)" "43 \<notin> set (trim t)"
    using Cons.prems set_trim [of t] by (auto simp: plain_space_def)
  show ?case
    using Cons token_agrees [OF t] by (auto simp: TrimSpace_trim Let_def split: prod.splits option.splits)
qed simp

lemma insort_key_map: "insort_key f (g x) (map g xs) = map g (insort_key (\<lambda>x. f (g x)) x xs)"
  by (induction xs) simp_all

lemma sort_key_map: "sort_key f (map g xs) = map g (sort_key (\<lambda>x. f (g x)) xs)"
  by (induction xs) (simp_all add: insort_key_map)

lemma go_range_simps [simp]: "Start (go_range r) = r_start r" "End (go_range r) = r_end r"
  by (simp_all add: go_range_def)

lemma merge_agrees: "merge_sorted (go_range l) (map go_range rs) = map go_range (mergeRanges_loop l rs)"
proof (induction l rs rule: mergeRanges_loop.induct)
  case (2 l c rs)
  have e: "(if r_end l < r_end c then (go_range l)\<lparr>End := r_end c\<rparr> else go_range l) =
      go_range (l\<lparr>r_end := max (r_end l) (r_end c)\<rparr>)"
    by (simp add: go_range_def max_def)
  show ?case
    unfolding list.map merge_sorted.simps mergeRanges_loop.simps go_range_simps e using 2 by simp
qed simp

lemma set_in_join: "w \<in> set ws \<Longrightarrow> set w \<subseteq> set (join d ws)"
  by (induction d ws rule: join.induct) auto

lemma set_split_on: "t \<in> set (split_on d s) \<Longrightarrow> set t \<subseteq> set s"
  using set_in_join [of t "split_on d s" "[d]"] by simp

lemma parsers_agree:
  assumes "plain_space s" "43 \<notin> set s"
  shows "ParseHTTPStatusCodeRanges s =
    (if ok (parseHttpStatusCodeRules (Str s)) then Inr (map go_range (ranges (parseHttpStatusCodeRules (Str s))))
     else Inl (invalidTokens (parseHttpStatusCodeRules (Str s))))"
proof -
  let ?ss = "split_on 44 (replace_unit 65292 [44] (trim s))"
  have "set (replace_unit 65292 [44] (trim s)) \<subseteq> insert 44 (set s)"
    using set_trim [of s] by (auto simp: replace_unit_def split: if_splits)
  then have sub: "set t \<subseteq> insert 44 (set s)" if "t \<in> set ?ss" for t
    using set_split_on [OF that] by (rule order_trans [rotated])
  have "plain_space t \<and> 43 \<notin> set t" if "t \<in> set ?ss" for t
    using sub [OF that] assms by (auto simp: plain_space_def)
  then have ss: "\<forall>t\<in>set ?ss. plain_space t \<and> 43 \<notin> set t"
    by blast
  have sorted: "sort_key (\<lambda>r. (Start r, End r)) (map go_range rs) = map go_range (sort_key (\<lambda>r. (r_start r, r_end r)) rs)" for rs
    by (simp only: sort_key_map go_range_simps)
  obtain rs bad where p: "parse_segments ?ss = (rs, bad)"
    by fastforce
  have merged: "(case sort_key (\<lambda>r. (Start r, End r)) (map go_range rs) of
      [] \<Rightarrow> Inr [] | first # rest \<Rightarrow> Inr (merge_sorted first rest)) = (Inr (map go_range (mergeRanges rs)) :: jstr list + _)"
    unfolding sorted mergeRanges_def by (simp add: merge_agrees split: list.split)
  have raw: "js_string (js_coalesce (Str s) (Str [])) = s"
    by (simp add: js_coalesce_def nullish_def)
  show ?thesis
    using segments_agree [OF ss] merged
    by (simp add: ParseHTTPStatusCodeRanges_def parseHttpStatusCodeRules_def raw TrimSpace_trim assms(1) Let_def p)
qed



subsection \<open>Matching codes\<close>

lemma match_separated:
  "separated rs \<Longrightarrow> match_ranges (map go_range rs) c \<longleftrightarrow> c \<in> codes rs"
proof (induction rs)
  case (Cons r rs)
  have "c \<notin> codes rs" if "c \<le> r_end r"
    using Cons.prems that by (fastforce simp: separated_def codes_def)
  then show ?case
    using Cons by (auto simp: separated_def)
qed simp

lemma codes_valid: "\<forall>r\<in>set rs. valid_range r \<Longrightarrow> c \<in> codes rs \<Longrightarrow> 100 \<le> c \<and> c \<le> 599"
  by (fastforce simp: codes_def valid_range_def)

lemma should_match_codes:
  assumes "separated rs" "\<forall>r\<in>set rs. valid_range r"
  shows "shouldMatchStatusCodeRanges (map go_range rs) c \<longleftrightarrow> c \<in> codes rs"
  using match_separated [OF assms(1)] codes_valid [OF assms(2), of c] by (auto simp: shouldMatchStatusCodeRanges_def)

lemma go_range_text: "valid_range r \<Longrightarrow> go_range_text (go_range r) = range_text r"
  by (simp add: go_range_text_def range_text_def valid_range_def Itoa_text)

lemma ranges_text: "\<forall>r\<in>set rs. valid_range r \<Longrightarrow> statusCodeRangesToString (map go_range rs) = join [44] (map range_text rs)"
  unfolding statusCodeRangesToString_def map_map comp_def by (simp add: go_range_text cong: map_cong)

text \<open>The normalized text of the console is a text on which both parsers agree.\<close>

lemma normalized_parsed:
  assumes "ok (parseHttpStatusCodeRules v)"
  shows "ParseHTTPStatusCodeRanges (normalized (parseHttpStatusCodeRules v)) =
    Inr (map go_range (ranges (parseHttpStatusCodeRules v)))"
proof -
  let ?r = "parseHttpStatusCodeRules v"
  note p = parse_ok_ranges [OF assms]
  have "c \<in> {44, 45} \<or> is_digit c" if "c \<in> set (normalized ?r)" for c
    using that set_join [of "[44]" "map range_text (ranges ?r)"] range_text_chars(1) p(2) unfolding p(3) by fastforce
  then have "plain_space (normalized ?r)" "43 \<notin> set (normalized ?r)"
    by (fastforce simp: plain_space_def is_digit_def)+
  then show ?thesis
    using assms by (simp add: parsers_agree parse_normalized_same)
qed


subsection \<open>Mapped status codes\<close>

text \<open>A mapping of status codes is the JSON text of an object.\<close>

definition parseStatusCodeMappingValue :: "jsval \<Rightarrow> int option" where
  "parseStatusCodeMappingValue value =
     (case value of
        Str s \<Rightarrow> if s = [] then None else Atoi s
      | Num (Fin x) \<Rightarrow> if of_int \<lfloor>x\<rfloor> \<noteq> x then None else Some (int_of_float x)
      | _ \<Rightarrow> None)"

definition ResetStatusCode :: "int \<Rightarrow> jstr \<Rightarrow> int" where
  "ResetStatusCode statusCode statusCodeMappingStr =
     (if statusCodeMappingStr = [] \<or> statusCodeMappingStr = str ''{}'' then statusCode
      else case UnmarshalMap statusCodeMappingStr of
             None \<Rightarrow> statusCode
           | Some statusCodeMapping \<Rightarrow>
               if statusCode = 200 then statusCode
               else case map_of statusCodeMapping (Itoa statusCode) of
                      None \<Rightarrow> statusCode
                    | Some value \<Rightarrow>
                        (case parseStatusCodeMappingValue value of None \<Rightarrow> statusCode | Some intCode \<Rightarrow> intCode))"

lemma Atoi_chars: "Atoi s = Some n \<Longrightarrow> c \<in> set s \<Longrightarrow> is_digit c \<or> c = 43 \<or> c = 45"
  by (cases s) (auto simp: Atoi_def Let_def list_all_iff split: if_splits)

lemma signed_digits_trim:
  assumes "\<And>c. c \<in> set s \<Longrightarrow> is_digit c \<or> c = 43 \<or> c = 45"
  shows "trim s = s"
proof (rule trim_fixed)
  have "\<not> is_ws 43" "\<not> is_ws 45"
    by (simp_all add: is_ws_def)
  then have "\<not> is_ws c" if "c \<in> set s" for c
    using assms [OF that] is_digit_not_ws by auto
  then show "s = [] \<or> \<not> is_ws (hd s) \<and> \<not> is_ws (last s)"
    by (metis last_in_set list.set_sel(1))
qed

lemma Atoi_trim: "Atoi s = Some n \<Longrightarrow> trim s = s"
  using Atoi_chars by (rule signed_digits_trim)

text \<open>A value the guard accepts means the same code to the server, or nothing.\<close>

lemma mapping_value_agrees:
  assumes "parseStatusCodeMappingTarget v = Some t" "parseStatusCodeMappingValue v = Some c"
  shows "c = t"
proof (cases v)
  case (Num n)
  then show ?thesis
    using assms by (auto simp: parseStatusCodeMappingTarget_def parseStatusCodeMappingValue_def code_of_def is_integer_def
        int_of_float_def in_int64_def Let_def split: if_splits jsnum.splits)
next
  case (Str s)
  have "trim s = s"
    using assms(2) Atoi_trim by (auto simp: Str parseStatusCodeMappingValue_def split: if_splits)
  then have d: "three_digit_code s" "t = digits_val s"
    using assms(1) by (auto simp: Str parseStatusCodeMappingTarget_def Let_def code_of_def three_digit_parse split: if_splits)
  then show ?thesis
    using assms(2) three_digit_code_val [OF d(1)] by (auto simp: Str parseStatusCodeMappingValue_def Atoi_digits split: if_splits)
qed (use assms in \<open>simp_all add: parseStatusCodeMappingTarget_def\<close>)

lemma Itoa_key:
  assumes "parseStatusCodeKey (Str (Itoa n)) = Some f"
  shows "f = n"
proof -
  have "trim (Itoa n) = Itoa n"
    using dec_digits_digit [of n] dec_digits_digit [of "- n"] by (intro signed_digits_trim) (auto simp: Itoa_def split: if_splits)
  then have k: "three_digit_code (Itoa n)" "f = digits_val (Itoa n)"
    using assms by (auto simp: parseStatusCodeKey_def code_of_def Let_def three_digit_parse split: if_splits)
  have "0 \<le> n"
  proof (rule ccontr)
    assume "\<not> 0 \<le> n"
    then have "45 \<in> set (Itoa n)"
      by (simp add: Itoa_def)
    then show False
      using three_digit_code_val [OF k(1)] by (auto simp: is_digit_def)
  qed
  then show ?thesis
    by (simp add: k(2) Itoa_def)
qed

lemma reset_mapped:
  assumes "ResetStatusCode st m \<noteq> st"
  obtains v where "(Itoa st, v) \<in> set (mapping_entries (Str m))" "parseStatusCodeMappingValue v = Some (ResetStatusCode st m)"
proof -
  obtain ps v where ps: "UnmarshalMap m = Some ps" "map_of ps (Itoa st) = Some v" "parseStatusCodeMappingValue v = Some (ResetStatusCode st m)"
    using assms by (auto simp: ResetStatusCode_def split: if_splits option.splits)
  have "ps \<noteq> []"
    using ps(2) by auto
  then have "json_parse m = Some (Obj ps)"
    using ps(1) by (auto simp: UnmarshalMap_def Unmarshal_def split: option.splits jsval.splits if_splits)
  then have "mapping_entries (Str m) = ps"
    using json_parse_blank [of m] by (auto simp: mapping_entries_def)
  then show ?thesis
    using that ps(2,3) by (auto dest: map_of_SomeD)
qed


text \<open>What the rules of an accepted text, normalized and saved, do on the server.\<close>

lemma saved_retry_rules:
  assumes "ok (parseHttpStatusCodeRules v)"
    "AutomaticRetryStatusCodesFromString (normalized (parseHttpStatusCodeRules v)) st = Inr st'"
  shows "ShouldRetryByStatusCode st' c \<longleftrightarrow> c \<in> codes (ranges (parseHttpStatusCodeRules v)) \<and> c \<notin> {504, 524}"
  using assms(2) normalized_parsed [OF assms(1)] should_match_codes [OF parse_ok_ranges(1,2) [OF assms(1)]]
  by (auto simp: AutomaticRetryStatusCodesFromString_def ShouldRetryByStatusCode_def IsAlwaysSkipRetryStatusCode_def
      alwaysSkipRetryStatusCodes_def)


subsection \<open>Properties\<close>

text \<open>
  The server reads rules for status codes as the console does. On every text without a plus sign,
  a next-line control or a byte order mark both accept the same texts, with the same ranges, and name
  the same invalid tokens otherwise.
\<close>

lemma server_parses_as_console:
  assumes "133 \<notin> set s" "65279 \<notin> set s" "43 \<notin> set s"
  shows "ParseHTTPStatusCodeRanges s =
    (if ok (parseHttpStatusCodeRules (Str s)) then Inr (map go_range (ranges (parseHttpStatusCodeRules (Str s))))
     else Inl (invalidTokens (parseHttpStatusCodeRules (Str s))))"
  using assms by (intro parsers_agree) (simp_all add: plain_space_def)

lemma server_parses_as_console_witness:
  "ParseHTTPStatusCodeRanges (str ''500, 4x1'') = Inl [str ''4x1'']"
proof -
  have "133 \<notin> set (str ''500, 4x1'')" "65279 \<notin> set (str ''500, 4x1'')" "43 \<notin> set (str ''500, 4x1'')"
    "\<not> ok (parseHttpStatusCodeRules (Str (str ''500, 4x1'')))"
    "invalidTokens (parseHttpStatusCodeRules (Str (str ''500, 4x1''))) = [str ''4x1'']"
    by code_simp+
  then show ?thesis
    using server_parses_as_console [of "str ''500, 4x1''"] by simp
qed





end
