(* ===== verification/GoErrors.thy ===== *)
theory GoErrors
  imports GoText
begin

text \<open>
  The errors of the server (types/error.go): an error carries a code, a type, a status and the flags
  that steer retries and logging.

  A field of type \<open>any\<close> that holds a code is a \<open>code_value\<close>, which tells a plain string from a value of
  the named type \<open>ErrorCode\<close>: the two never compare equal in Go, even with the same text. An argument
  of type \<open>error\<close> is a \<open>go_error\<close>, which tells what \<open>errors.As\<close> finds in it. The masking of messages
  (\<open>common.MaskSensitiveInfo\<close>) is an argument \<open>hide_info\<close>.
\<close>

datatype code_value = NoCode | CodeText jstr | CodeNamed jstr | CodeOther jsval

record OpenAIError =
  oa_Message :: jstr
  oa_Type :: jstr
  oa_Param :: jstr
  oa_Code :: code_value
  oa_Metadata :: jstr

record ClaudeError =
  cl_Type :: jstr
  cl_Message :: jstr

datatype relay_error = NoRelayError | RelayOpenAI OpenAIError | RelayClaude ClaudeError

record NewAPIError =
  ae_Err :: "jstr option"
  ae_RelayError :: relay_error
  ae_skipRetry :: bool
  ae_recordErrorLog :: "bool option"
  ae_errorType :: jstr
  ae_errorCode :: jstr
  ae_StatusCode :: int
  ae_Metadata :: jstr

datatype go_error = NilError | PlainError jstr | WrapsApi NewAPIError


subsection \<open>Reading an error\<close>

definition GetErrorCode :: "NewAPIError option \<Rightarrow> jstr" where
  "GetErrorCode e = (case e of None \<Rightarrow> [] | Some e \<Rightarrow> ae_errorCode e)"

definition GetErrorType :: "NewAPIError option \<Rightarrow> jstr" where
  "GetErrorType e = (case e of None \<Rightarrow> [] | Some e \<Rightarrow> ae_errorType e)"

definition Error :: "NewAPIError option \<Rightarrow> jstr" where
  "Error e = (case e of None \<Rightarrow> [] | Some e \<Rightarrow> (case ae_Err e of None \<Rightarrow> ae_errorCode e | Some m \<Rightarrow> m))"

definition with_status :: "int \<Rightarrow> jstr \<Rightarrow> jstr" where
  "with_status code m =
     (if code = 0 then m
      else if m = [] then str ''status_code='' @ Itoa code
      else str ''status_code='' @ Itoa code @ str '', '' @ m)"

definition ErrorWithStatusCode :: "NewAPIError option \<Rightarrow> jstr" where
  "ErrorWithStatusCode e = (case e of None \<Rightarrow> [] | Some x \<Rightarrow> with_status (ae_StatusCode x) (Error e))"

definition MaskSensitiveError :: "(jstr \<Rightarrow> jstr) \<Rightarrow> NewAPIError option \<Rightarrow> jstr" where
  "MaskSensitiveError hide_info e =
     (case e of
        None \<Rightarrow> []
      | Some e \<Rightarrow>
          (case ae_Err e of
             None \<Rightarrow> ae_errorCode e
           | Some m \<Rightarrow> if ae_errorCode e = str ''count_token_failed'' then m else hide_info m))"

definition MaskSensitiveErrorWithStatusCode :: "(jstr \<Rightarrow> jstr) \<Rightarrow> NewAPIError option \<Rightarrow> jstr" where
  "MaskSensitiveErrorWithStatusCode hide_info e =
     (case e of None \<Rightarrow> [] | Some x \<Rightarrow> with_status (ae_StatusCode x) (MaskSensitiveError hide_info e))"

definition SetMessage :: "jstr \<Rightarrow> NewAPIError \<Rightarrow> NewAPIError" where
  "SetMessage message e = e\<lparr>ae_Err := Some message\<rparr>"

text \<open>\<open>fmt.Sprintf("%v", code)\<close>.\<close>

fun code_text :: "code_value \<Rightarrow> jstr" where
  "code_text NoCode = str ''<nil>''"
| "code_text (CodeText s) = s"
| "code_text (CodeNamed s) = s"
| "code_text (CodeOther v) = Sprint v"

definition empty_openai_error :: OpenAIError where
  "empty_openai_error = \<lparr>oa_Message = [], oa_Type = [], oa_Param = [], oa_Code = NoCode, oa_Metadata = []\<rparr>"

definition public_message :: "(jstr \<Rightarrow> jstr) \<Rightarrow> NewAPIError \<Rightarrow> jstr \<Rightarrow> jstr" where
  "public_message hide_info e m =
     (let m' = (if ae_errorCode e \<noteq> str ''count_token_failed'' then hide_info m else m)
      in if m' = [] then ae_errorType e else m')"

definition ToOpenAIError :: "(jstr \<Rightarrow> jstr) \<Rightarrow> NewAPIError \<Rightarrow> OpenAIError" where
  "ToOpenAIError hide_info e =
     (let result =
        (if ae_errorType e = str ''openai_error'' then
           (case ae_RelayError e of RelayOpenAI o' \<Rightarrow> o' | _ \<Rightarrow> empty_openai_error)
         else if ae_errorType e = str ''claude_error'' then
           (case ae_RelayError e of
              RelayClaude c \<Rightarrow>
                empty_openai_error\<lparr>oa_Message := Error (Some e), oa_Type := cl_Type c, oa_Code := CodeNamed (ae_errorCode e)\<rparr>
            | _ \<Rightarrow> empty_openai_error)
         else empty_openai_error\<lparr>oa_Message := Error (Some e), oa_Type := ae_errorType e, oa_Code := CodeNamed (ae_errorCode e)\<rparr>)
      in result\<lparr>oa_Message := public_message hide_info e (oa_Message result)\<rparr>)"

definition ToClaudeError :: "(jstr \<Rightarrow> jstr) \<Rightarrow> NewAPIError \<Rightarrow> ClaudeError" where
  "ToClaudeError hide_info e =
     (let result =
        (if ae_errorType e = str ''openai_error'' then
           (case ae_RelayError e of
              RelayOpenAI o' \<Rightarrow> \<lparr>cl_Type = code_text (oa_Code o'), cl_Message = Error (Some e)\<rparr>
            | _ \<Rightarrow> \<lparr>cl_Type = [], cl_Message = []\<rparr>)
         else if ae_errorType e = str ''claude_error'' then
           (case ae_RelayError e of RelayClaude c \<Rightarrow> c | _ \<Rightarrow> \<lparr>cl_Type = [], cl_Message = []\<rparr>)
         else \<lparr>cl_Type = ae_errorType e, cl_Message = Error (Some e)\<rparr>)
      in result\<lparr>cl_Message := public_message hide_info e (cl_Message result)\<rparr>)"


subsection \<open>Options and constructors\<close>

datatype NewAPIErrorOptions = ErrOptionWithSkipRetry | ErrOptionWithNoRecordErrorLog | ErrOptionWithHideErrMsg jstr

fun apply_option :: "NewAPIErrorOptions \<Rightarrow> NewAPIError \<Rightarrow> NewAPIError" where
  "apply_option ErrOptionWithSkipRetry e = e\<lparr>ae_skipRetry := True\<rparr>"
| "apply_option ErrOptionWithNoRecordErrorLog e = e\<lparr>ae_recordErrorLog := Some False\<rparr>"
| "apply_option (ErrOptionWithHideErrMsg replaceStr) e = e\<lparr>ae_Err := Some replaceStr\<rparr>"

definition blank_error :: NewAPIError where
  "blank_error =
     \<lparr>ae_Err = None, ae_RelayError = NoRelayError, ae_skipRetry = False, ae_recordErrorLog = None,
      ae_errorType = [], ae_errorCode = [], ae_StatusCode = 0, ae_Metadata = []\<rparr>"

definition NewError :: "go_error \<Rightarrow> jstr \<Rightarrow> NewAPIErrorOptions list \<Rightarrow> NewAPIError" where
  "NewError err errorCode ops =
     (let plain = (\<lambda>m. blank_error\<lparr>ae_Err := m, ae_errorType := str ''aggre_api_error'',
                        ae_StatusCode := 500, ae_errorCode := errorCode\<rparr>)
      in fold apply_option ops
           (case err of WrapsApi newErr \<Rightarrow> newErr | PlainError m \<Rightarrow> plain (Some m) | NilError \<Rightarrow> plain None))"

definition WithOpenAIError :: "OpenAIError \<Rightarrow> int \<Rightarrow> NewAPIErrorOptions list \<Rightarrow> NewAPIError" where
  "WithOpenAIError openAIError statusCode ops =
     (let code = (case oa_Code openAIError of NoCode \<Rightarrow> str ''unknown_error'' | c \<Rightarrow> code_text c);
          o1 = (if oa_Type openAIError = [] then openAIError\<lparr>oa_Type := str ''upstream_error''\<rparr> else openAIError);
          o2 = (if oa_Metadata o1 = [] then o1
                else o1\<lparr>oa_Message := oa_Message o1 @ str '' ('' @ oa_Metadata o1 @ str '')''\<rparr>)
      in fold apply_option ops
           (blank_error\<lparr>ae_Err := Some (oa_Message o2), ae_RelayError := RelayOpenAI o2,
              ae_errorType := str ''openai_error'', ae_errorCode := code, ae_StatusCode := statusCode,
              ae_Metadata := oa_Metadata o1\<rparr>))"

definition code_error :: "jstr \<Rightarrow> jstr \<Rightarrow> OpenAIError" where
  "code_error m errorCode =
     empty_openai_error\<lparr>oa_Message := m, oa_Type := errorCode, oa_Code := CodeNamed errorCode\<rparr>"

text \<open>\<open>err.Error()\<close> of a nil error panics (\<open>None\<close>).\<close>

definition NewOpenAIError ::
    "go_error \<Rightarrow> jstr \<Rightarrow> int \<Rightarrow> NewAPIErrorOptions list \<Rightarrow> NewAPIError option" where
  "NewOpenAIError err errorCode statusCode ops =
     (case err of
        WrapsApi newErr \<Rightarrow>
          Some (fold apply_option ops
            (if ae_RelayError newErr = NoRelayError
             then newErr\<lparr>ae_RelayError := RelayOpenAI (code_error (Error (Some newErr)) errorCode)\<rparr> else newErr))
      | PlainError m \<Rightarrow> Some (WithOpenAIError (code_error m errorCode) statusCode ops)
      | NilError \<Rightarrow> None)"

definition InitOpenAIError :: "jstr \<Rightarrow> int \<Rightarrow> NewAPIErrorOptions list \<Rightarrow> NewAPIError" where
  "InitOpenAIError errorCode statusCode ops = WithOpenAIError (code_error [] errorCode) statusCode ops"

definition NewErrorWithStatusCode :: "jstr \<Rightarrow> jstr \<Rightarrow> int \<Rightarrow> NewAPIErrorOptions list \<Rightarrow> NewAPIError" where
  "NewErrorWithStatusCode err errorCode statusCode ops =
     fold apply_option ops
       (blank_error\<lparr>ae_Err := Some err,
          ae_RelayError := RelayOpenAI (empty_openai_error\<lparr>oa_Message := err, oa_Type := errorCode\<rparr>),
          ae_errorType := str ''aggre_api_error'', ae_StatusCode := statusCode, ae_errorCode := errorCode\<rparr>)"

definition WithClaudeError :: "ClaudeError \<Rightarrow> int \<Rightarrow> NewAPIErrorOptions list \<Rightarrow> NewAPIError" where
  "WithClaudeError claudeError statusCode ops =
     (let c = (if cl_Type claudeError = [] then claudeError\<lparr>cl_Type := str ''upstream_error''\<rparr> else claudeError)
      in fold apply_option ops
           (blank_error\<lparr>ae_Err := Some (cl_Message c), ae_RelayError := RelayClaude c,
              ae_errorType := str ''claude_error'', ae_StatusCode := statusCode, ae_errorCode := cl_Type c\<rparr>))"

definition IsChannelError :: "NewAPIError option \<Rightarrow> bool" where
  "IsChannelError err = (case err of None \<Rightarrow> False | Some e \<Rightarrow> starts_with (ae_errorCode e) (str ''channel:''))"

definition IsSkipRetryError :: "NewAPIError option \<Rightarrow> bool" where
  "IsSkipRetryError err = (case err of None \<Rightarrow> False | Some e \<Rightarrow> ae_skipRetry e)"

definition IsRecordErrorLog :: "NewAPIError option \<Rightarrow> bool" where
  "IsRecordErrorLog err =
     (case err of None \<Rightarrow> False | Some e \<Rightarrow> (case ae_recordErrorLog e of None \<Rightarrow> True | Some b \<Rightarrow> b))"


subsection \<open>What the options and conversions keep\<close>

lemma apply_options_keep [simp]:
  "ae_errorCode (fold apply_option ops e) = ae_errorCode e"
  "ae_errorType (fold apply_option ops e) = ae_errorType e"
  "ae_StatusCode (fold apply_option ops e) = ae_StatusCode e"
  "ae_RelayError (fold apply_option ops e) = ae_RelayError e"
proof -
  have step: "ae_errorCode (apply_option p x) = ae_errorCode x" "ae_errorType (apply_option p x) = ae_errorType x"
    "ae_StatusCode (apply_option p x) = ae_StatusCode x" "ae_RelayError (apply_option p x) = ae_RelayError x" for p x
    by (cases p; simp)+
  show "ae_errorCode (fold apply_option ops e) = ae_errorCode e" "ae_errorType (fold apply_option ops e) = ae_errorType e"
    "ae_StatusCode (fold apply_option ops e) = ae_StatusCode e" "ae_RelayError (fold apply_option ops e) = ae_RelayError e"
    by (induction ops arbitrary: e) (simp_all add: step)
qed

lemma apply_options_skipRetry [simp]:
  "ae_skipRetry (fold apply_option ops e) \<longleftrightarrow> ae_skipRetry e \<or> ErrOptionWithSkipRetry \<in> set ops"
proof (induction ops arbitrary: e)
  case (Cons p ops)
  then show ?case
    by (cases p) auto
qed simp

lemma NewError_code: "err = PlainError m \<Longrightarrow> ae_errorCode (NewError err c ops) = c"
  by (simp add: NewError_def)

end
