(* ===== verification/ChannelSelect.thy ===== *)
theory ChannelSelect
  imports GoErrors
begin

text \<open>
  How the server chooses a channel: the cache of channels and the weighted choice in
  model/channel_cache.go, the same choice from the database in model/ability.go, and the choice of a
  group and a priority for a retry in service/channel_select.go.

  A random number \<open>rand.Intn(n)\<close> is the result of an argument \<open>intn\<close>. A pointer to a number is an
  option. \<open>sort.Slice\<close> does not promise the order of channels with one priority; the model keeps it.
  \<open>GetRandomSatisfiedChannel\<close> and \<open>IsModelServableInGroup\<close> are modelled with the memory cache enabled;
  without it they call \<open>GetChannel\<close>. The rotation among several keys of one channel is left out.
\<close>

record Channel =
  ch_Id :: int
  ch_Type :: int
  ch_Status :: int
  ch_Group :: jstr
  ch_Models :: jstr
  ch_Priority :: "int option"
  ch_Weight :: "nat option"
  ch_AutoBan :: "int option"

definition GetAutoBan :: "Channel \<Rightarrow> bool" where
  "GetAutoBan channel \<longleftrightarrow> ch_AutoBan channel = Some 1"

definition GetPriority :: "Channel \<Rightarrow> int" where
  "GetPriority channel = (case ch_Priority channel of None \<Rightarrow> 0 | Some p \<Rightarrow> p)"

definition GetWeight :: "Channel \<Rightarrow> int" where
  "GetWeight channel = (case ch_Weight channel of None \<Rightarrow> 0 | Some w \<Rightarrow> int w)"

record channel_cache =
  group2model2channels :: "jstr \<Rightarrow> (jstr \<Rightarrow> int list) option"
  channelsIDM :: "int \<Rightarrow> Channel option"

text \<open>
  Reading from a missing map gives no channels. Writing to one panics, which happens in
  \<open>InitChannelCache\<close> for a channel of a group without abilities (\<open>None\<close>).
\<close>

definition cached_ids :: "channel_cache \<Rightarrow> jstr \<Rightarrow> jstr \<Rightarrow> int list" where
  "cached_ids cache grp model =
     (case group2model2channels cache grp of None \<Rightarrow> [] | Some m \<Rightarrow> m model)"

definition add_channel_id ::
    "int \<Rightarrow> jstr \<times> jstr \<Rightarrow> (jstr \<Rightarrow> (jstr \<Rightarrow> int list) option) option \<Rightarrow> (jstr \<Rightarrow> (jstr \<Rightarrow> int list) option) option" where
  "add_channel_id i gm acc =
     (case acc of
        None \<Rightarrow> None
      | Some t \<Rightarrow>
          (case t (fst gm) of
             None \<Rightarrow> None
           | Some m \<Rightarrow> Some (t(fst gm \<mapsto> m(snd gm := m (snd gm) @ [i])))))"

definition channel_entries :: "Channel \<Rightarrow> (jstr \<times> jstr) list" where
  "channel_entries channel =
     concat (map (\<lambda>grp. map (\<lambda>model. (grp, model)) (split_on 44 (ch_Models channel))) (split_on 44 (ch_Group channel)))"

definition collect_channels ::
    "jstr list \<Rightarrow> Channel list \<Rightarrow> (jstr \<Rightarrow> (jstr \<Rightarrow> int list) option) option" where
  "collect_channels groups channels =
     fold (\<lambda>channel acc.
             if ch_Status channel \<noteq> 1 then acc
             else fold (add_channel_id (ch_Id channel)) (channel_entries channel) acc)
       channels (Some (\<lambda>grp. if grp \<in> set groups then Some (\<lambda>_. []) else None))"

definition id_map :: "Channel list \<Rightarrow> int \<Rightarrow> Channel option" where
  "id_map channels i = find (\<lambda>channel. ch_Id channel = i) (rev channels)"

definition priority_of :: "(int \<Rightarrow> Channel option) \<Rightarrow> int \<Rightarrow> int" where
  "priority_of idm i = (case idm i of None \<Rightarrow> 0 | Some channel \<Rightarrow> GetPriority channel)"

definition InitChannelCache :: "Channel list \<Rightarrow> jstr list \<Rightarrow> channel_cache option" where
  "InitChannelCache channels groups =
     map_option (\<lambda>t.
         \<lparr>group2model2channels =
            (\<lambda>grp. map_option (\<lambda>m model. sort_key (\<lambda>i. - priority_of (id_map channels) i) (m model)) (t grp)),
          channelsIDM = id_map channels\<rparr>)
       (collect_channels groups channels)"


subsection \<open>Names of models\<close>

definition handleThinkingBudgetModel :: "jstr \<Rightarrow> jstr \<Rightarrow> jstr \<Rightarrow> jstr" where
  "handleThinkingBudgetModel name prefix wildcard =
     (if starts_with name prefix \<and> includes_str name (str ''-thinking-'') then wildcard else name)"

definition FormatMatchingModelName :: "jstr \<Rightarrow> jstr" where
  "FormatMatchingModelName name0 =
     (let name1 =
        (if starts_with name0 (str ''gemini-2.5-flash-lite'')
         then handleThinkingBudgetModel name0 (str ''gemini-2.5-flash-lite'') (str ''gemini-2.5-flash-lite-thinking-*'')
         else if starts_with name0 (str ''gemini-2.5-flash'')
         then handleThinkingBudgetModel name0 (str ''gemini-2.5-flash'') (str ''gemini-2.5-flash-thinking-*'')
         else if starts_with name0 (str ''gemini-2.5-pro'')
         then handleThinkingBudgetModel name0 (str ''gemini-2.5-pro'') (str ''gemini-2.5-pro-thinking-*'')
         else name0);
          name2 = (if starts_with name1 (str ''gpt-4-gizmo'') then str ''gpt-4-gizmo-*'' else name1)
      in if starts_with name2 (str ''gpt-4o-gizmo'') then str ''gpt-4o-gizmo-*'' else name2)"

definition servable_ids :: "channel_cache \<Rightarrow> jstr \<Rightarrow> jstr \<Rightarrow> int list" where
  "servable_ids cache grp model =
     (if cached_ids cache grp model = [] then cached_ids cache grp (FormatMatchingModelName model)
      else cached_ids cache grp model)"

definition IsModelServableInGroup :: "channel_cache \<Rightarrow> jstr \<Rightarrow> jstr \<Rightarrow> bool" where
  "IsModelServableInGroup cache grp modelName \<longleftrightarrow>
     cached_ids cache grp modelName \<noteq> [] \<or> cached_ids cache grp (FormatMatchingModelName modelName) \<noteq> []"


subsection \<open>The weighted choice\<close>

datatype select_error = Inconsistent int | NoChannelFound | ChannelNotFound | NoPriority | AutoGroupsDisabled

text \<open>The distinct priorities, the highest first, and the one for a retry.\<close>

definition sorted_priorities :: "Channel list \<Rightarrow> int list" where
  "sorted_priorities channels = rev (sort (remdups (map GetPriority channels)))"

definition target_priority :: "Channel list \<Rightarrow> nat \<Rightarrow> int" where
  "target_priority channels retry =
     (let ps = sorted_priorities channels in ps ! (if length ps \<le> retry then length ps - 1 else retry))"

definition target_channels :: "Channel list \<Rightarrow> nat \<Rightarrow> Channel list" where
  "target_channels channels retry = filter (\<lambda>channel. GetPriority channel = target_priority channels retry) channels"

definition sum_weight :: "Channel list \<Rightarrow> int" where
  "sum_weight channels = sum_list (map GetWeight channels)"

definition smoothing :: "Channel list \<Rightarrow> int \<times> int" where
  "smoothing targets =
     (if sum_weight targets = 0 then (1, 100)
      else if sum_weight targets div int (length targets) < 10 then (100, 0) else (1, 0))"

definition total_weight :: "Channel list \<Rightarrow> int" where
  "total_weight targets =
     (if sum_weight targets = 0 then int (length targets) * 100 else sum_weight targets) * fst (smoothing targets)"

fun pick_channel :: "int \<times> int \<Rightarrow> Channel list \<Rightarrow> int \<Rightarrow> Channel option" where
  "pick_channel sm [] randomWeight = None"
| "pick_channel sm (channel # channels) randomWeight =
     (let r = randomWeight - (GetWeight channel * fst sm + snd sm)
      in if r < 0 then Some channel else pick_channel sm channels r)"

fun channels_of_ids :: "(int \<Rightarrow> Channel option) \<Rightarrow> int list \<Rightarrow> select_error + Channel list" where
  "channels_of_ids idm [] = Inr []"
| "channels_of_ids idm (i # is) =
     (case idm i of
        None \<Rightarrow> Inl (Inconsistent i)
      | Some channel \<Rightarrow>
          (case channels_of_ids idm is of Inl e \<Rightarrow> Inl e | Inr cs \<Rightarrow> Inr (channel # cs)))"

definition GetRandomSatisfiedChannel ::
    "(int \<Rightarrow> int) \<Rightarrow> channel_cache \<Rightarrow> jstr \<Rightarrow> jstr \<Rightarrow> nat \<Rightarrow> select_error + Channel option" where
  "GetRandomSatisfiedChannel intn cache grp model retry =
     (case servable_ids cache grp model of
        [] \<Rightarrow> Inr None
      | [i] \<Rightarrow> (case channelsIDM cache i of None \<Rightarrow> Inl (Inconsistent i) | Some channel \<Rightarrow> Inr (Some channel))
      | is \<Rightarrow>
          (case channels_of_ids (channelsIDM cache) is of
             Inl e \<Rightarrow> Inl e
           | Inr channels \<Rightarrow>
               (let targets = target_channels channels retry
                in if targets = [] then Inl NoChannelFound
                   else case pick_channel (smoothing targets) targets (intn (total_weight targets)) of
                          None \<Rightarrow> Inl ChannelNotFound
                        | Some channel \<Rightarrow> Inr (Some channel))))"


subsection \<open>The choice from the database\<close>

record Ability =
  ab_Group :: jstr
  ab_Model :: jstr
  ab_ChannelId :: int
  ab_Enabled :: bool
  ab_Priority :: int
  ab_Weight :: nat

definition enabled_abilities :: "Ability list \<Rightarrow> jstr \<Rightarrow> jstr \<Rightarrow> Ability list" where
  "enabled_abilities table grp model =
     filter (\<lambda>a. ab_Group a = grp \<and> ab_Model a = model \<and> ab_Enabled a) table"

definition getPriority :: "Ability list \<Rightarrow> jstr \<Rightarrow> jstr \<Rightarrow> nat \<Rightarrow> select_error + int" where
  "getPriority table grp model retry =
     (let ps = rev (sort (remdups (map ab_Priority (enabled_abilities table grp model))))
      in if ps = [] then Inl NoPriority
         else if length ps \<le> retry then Inr (ps ! (length ps - 1)) else Inr (ps ! retry))"

definition getChannelQuery :: "Ability list \<Rightarrow> jstr \<Rightarrow> jstr \<Rightarrow> nat \<Rightarrow> select_error + Ability list" where
  "getChannelQuery table grp model retry =
     (let as = enabled_abilities table grp model
      in if retry \<noteq> 0 then
           (case getPriority table grp model retry of
              Inl e \<Rightarrow> Inl e
            | Inr p \<Rightarrow> Inr (filter (\<lambda>a. ab_Priority a = p) as))
         else Inr (filter (\<lambda>a. ab_Priority a = Max (set (map ab_Priority as))) as))"

fun pick_ability :: "Ability list \<Rightarrow> int \<Rightarrow> int" where
  "pick_ability [] weight = 0"
| "pick_ability (a # as) weight =
     (let w = weight - (int (ab_Weight a) + 10) in if w \<le> 0 then ab_ChannelId a else pick_ability as w)"

definition ability_weight_sum :: "Ability list \<Rightarrow> int" where
  "ability_weight_sum as = sum_list (map (\<lambda>a. int (ab_Weight a) + 10) as)"

text \<open>The channel is then read from the database; here its number is the result.\<close>

definition GetChannel ::
    "(int \<Rightarrow> int) \<Rightarrow> Ability list \<Rightarrow> jstr \<Rightarrow> jstr \<Rightarrow> nat \<Rightarrow> select_error + int option" where
  "GetChannel intn table grp model retry =
     (case getChannelQuery table grp model retry of
        Inl e \<Rightarrow> Inl e
      | Inr as \<Rightarrow>
          (let abilities = sort_key (\<lambda>a. - int (ab_Weight a)) as
           in if abilities = [] then Inr None
              else Inr (Some (pick_ability abilities (intn (ability_weight_sum abilities))))))"


subsection \<open>Groups and retries\<close>

record group_settings =
  userUsableGroups :: "(jstr \<times> jstr) list"
  GroupSpecialUsableGroup :: "jstr \<Rightarrow> (jstr \<times> jstr) list option"
  autoGroups :: "jstr list"

definition apply_special_group :: "(jstr \<times> jstr) list \<Rightarrow> jstr \<times> jstr \<Rightarrow> (jstr \<times> jstr) list" where
  "apply_special_group groups special =
     (if starts_with (fst special) (str ''-:'') then obj_delete (drop 2 (fst special)) groups
      else if starts_with (fst special) (str ''+:'') then obj_put (drop 2 (fst special)) (snd special) groups
      else obj_put (fst special) (snd special) groups)"

text \<open>The description the server gives to a user's own group is represented by the text \<open>user group\<close>.\<close>

definition GetUserUsableGroups :: "group_settings \<Rightarrow> jstr \<Rightarrow> (jstr \<times> jstr) list" where
  "GetUserUsableGroups cfg userGroup =
     (if userGroup = [] then userUsableGroups cfg
      else let groups = (case GroupSpecialUsableGroup cfg userGroup of
                           None \<Rightarrow> userUsableGroups cfg
                         | Some specials \<Rightarrow> foldl apply_special_group (userUsableGroups cfg) specials)
           in if map_of groups userGroup = None then obj_put userGroup (str ''user group'') groups else groups)"

definition GetUserAutoGroup :: "group_settings \<Rightarrow> jstr \<Rightarrow> jstr list" where
  "GetUserAutoGroup cfg userGroup =
     filter (\<lambda>grp. map_of (GetUserUsableGroups cfg userGroup) grp \<noteq> None) (autoGroups cfg)"

record RetryParam =
  rp_TokenGroup :: jstr
  rp_ModelName :: jstr
  rp_Retry :: "nat option"
  rp_resetNextTry :: bool

definition GetRetry :: "RetryParam \<Rightarrow> nat" where
  "GetRetry p = (case rp_Retry p of None \<Rightarrow> 0 | Some n \<Rightarrow> n)"

definition SetRetry :: "nat \<Rightarrow> RetryParam \<Rightarrow> RetryParam" where
  "SetRetry retry p = p\<lparr>rp_Retry := Some retry\<rparr>"

definition IncreaseRetry :: "RetryParam \<Rightarrow> RetryParam" where
  "IncreaseRetry p =
     (if rp_resetNextTry p then p\<lparr>rp_resetNextTry := False\<rparr> else p\<lparr>rp_Retry := Some (Suc (GetRetry p))\<rparr>)"

definition ResetRetryNextTry :: "RetryParam \<Rightarrow> RetryParam" where
  "ResetRetryNextTry p = p\<lparr>rp_resetNextTry := True\<rparr>"

text \<open>The keys of the request context that the choice reads and writes.\<close>

record select_context =
  cx_UserGroup :: jstr
  cx_TokenCrossGroupRetry :: bool
  cx_AutoGroup :: "jstr option"
  cx_AutoGroupIndex :: "nat option"
  cx_AutoGroupRetryIndex :: "nat option"

type_synonym selection = "Channel option \<times> jstr \<times> RetryParam \<times> select_context"

text \<open>The loop over the groups from position \<open>i\<close> on; \<open>start\<close> is the first position of this call.\<close>

fun auto_select ::
    "(int \<Rightarrow> int) \<Rightarrow> channel_cache \<Rightarrow> int \<Rightarrow> nat \<Rightarrow> nat \<Rightarrow> jstr list \<Rightarrow> RetryParam \<Rightarrow> select_context \<Rightarrow> selection" where
  "auto_select intn cache retryTimes start i [] p cx = (None, rp_TokenGroup p, p, cx)"
| "auto_select intn cache retryTimes start i (grp # grps) p cx =
     (let priorityRetry = (if start < i then 0 else GetRetry p)
      in case GetRandomSatisfiedChannel intn cache grp (rp_ModelName p) priorityRetry of
           Inr (Some channel) \<Rightarrow>
             (let cx1 = cx\<lparr>cx_AutoGroup := Some grp\<rparr>
              in if cx_TokenCrossGroupRetry cx \<and> retryTimes \<le> int priorityRetry
                 then (Some channel, grp, ResetRetryNextTry (SetRetry 0 p), cx1\<lparr>cx_AutoGroupIndex := Some (Suc i)\<rparr>)
                 else (Some channel, grp, p, cx1\<lparr>cx_AutoGroupIndex := Some i\<rparr>))
         | _ \<Rightarrow>
             auto_select intn cache retryTimes start (Suc i) grps (SetRetry 0 p)
               (cx\<lparr>cx_AutoGroupIndex := Some (Suc i), cx_AutoGroupRetryIndex := Some 0\<rparr>))"

definition CacheGetRandomSatisfiedChannel ::
    "(int \<Rightarrow> int) \<Rightarrow> channel_cache \<Rightarrow> group_settings \<Rightarrow> int \<Rightarrow> RetryParam \<Rightarrow> select_context \<Rightarrow> select_error + selection" where
  "CacheGetRandomSatisfiedChannel intn cache cfg retryTimes p cx =
     (if rp_TokenGroup p = str ''auto'' then
        (if autoGroups cfg = [] then Inl AutoGroupsDisabled
         else let start = (case cx_AutoGroupIndex cx of None \<Rightarrow> 0 | Some i \<Rightarrow> i)
              in Inr (auto_select intn cache retryTimes start start (drop start (GetUserAutoGroup cfg (cx_UserGroup cx))) p cx))
      else case GetRandomSatisfiedChannel intn cache (rp_TokenGroup p) (rp_ModelName p) (GetRetry p) of
             Inl e \<Rightarrow> Inl e
           | Inr channel \<Rightarrow> Inr (channel, rp_TokenGroup p, p, cx))"


subsection \<open>Shares of the channels\<close>

definition effective_weight :: "int \<times> int \<Rightarrow> Channel \<Rightarrow> int" where
  "effective_weight sm channel = GetWeight channel * fst sm + snd sm"

lemma GetWeight_nonneg [simp]: "0 \<le> GetWeight c"
  by (simp add: GetWeight_def split: option.split)

lemma smoothing_nonneg [simp]: "0 < fst (smoothing cs)" "0 \<le> snd (smoothing cs)"
  by (simp_all add: smoothing_def)

lemma effective_weight_nonneg [simp]: "0 \<le> effective_weight (smoothing cs) c"
  using smoothing_nonneg [of cs] GetWeight_nonneg [of c] by (simp add: effective_weight_def less_imp_le)

lemma pick_channel_Cons:
  "pick_channel sm (c # cs) r =
     (if r < effective_weight sm c then Some c else pick_channel sm cs (r - effective_weight sm c))"
  by (simp add: Let_def effective_weight_def)

lemma pick_channel_interval:
  assumes "\<And>x. 0 \<le> effective_weight sm x" "distinct cs" "c \<in> set cs"
  shows "\<exists>a\<ge>0. a + effective_weight sm c \<le> sum_list (map (effective_weight sm) cs)
    \<and> (\<forall>r\<ge>0. pick_channel sm cs r = Some c \<longleftrightarrow> a \<le> r \<and> r < a + effective_weight sm c)"
  using assms(2,3)
proof (induction cs)
  case (Cons x cs)
  let ?w = "effective_weight sm"
  have nonneg: "0 \<le> sum_list (map ?w cs)"
    by (rule sum_list_nonneg) (use assms(1) in auto)
  have none: "pick_channel sm ys r \<noteq> Some c" if "c \<notin> set ys" for ys r
    using that by (induction ys arbitrary: r) (auto simp: pick_channel_Cons simp del: pick_channel.simps(2))
  show ?case
  proof (cases "c = x")
    case True
    then show ?thesis
      using Cons.prems none [of cs] nonneg by (intro exI [of _ 0]) (auto simp: pick_channel_Cons simp del: pick_channel.simps(2))
  next
    case False
    then obtain a where a: "0 \<le> a" "a + ?w c \<le> sum_list (map ?w cs)"
      "\<forall>r\<ge>0. pick_channel sm cs r = Some c \<longleftrightarrow> a \<le> r \<and> r < a + ?w c"
      using Cons.IH Cons.prems by auto
    have "pick_channel sm (x # cs) r = Some c \<longleftrightarrow> ?w x + a \<le> r \<and> r < ?w x + a + ?w c" if "0 \<le> r" for r
      using a False assms(1) [of x] by (auto simp: pick_channel_Cons simp del: pick_channel.simps(2))
    then show ?thesis
      using a(1,2) assms(1) [of x] by (intro exI [of _ "?w x + a"] conjI) simp_all
  qed
qed simp

lemma pick_channel_total:
  "0 \<le> r \<Longrightarrow> r < sum_list (map (effective_weight sm) cs) \<Longrightarrow> \<exists>c\<in>set cs. pick_channel sm cs r = Some c"
  by (induction cs arbitrary: r) (auto simp: pick_channel_Cons simp del: pick_channel.simps(2))

lemma sum_weight_zero: "sum_weight cs = 0 \<longleftrightarrow> (\<forall>c\<in>set cs. GetWeight c = 0)"
  unfolding sum_weight_def by (subst sum_list_nonneg_eq_0_iff) auto

lemma total_weight_sum: "total_weight cs = sum_list (map (effective_weight (smoothing cs)) cs)"
proof (cases "sum_weight cs = 0")
  case True
  then have "map (effective_weight (smoothing cs)) cs = replicate (length cs) 100"
    by (auto simp: sum_weight_zero smoothing_def effective_weight_def map_replicate_const [symmetric])
  then show ?thesis
    using True by (simp add: total_weight_def smoothing_def sum_list_replicate)
next
  case False
  then have "effective_weight (smoothing cs) = (\<lambda>c. GetWeight c * fst (smoothing cs))"
    by (intro ext) (simp add: smoothing_def effective_weight_def)
  then show ?thesis
    using False by (simp add: total_weight_def sum_weight_def sum_list_mult_const)
qed

lemma share_of_channel:
  assumes "distinct cs" "c \<in> set cs"
  shows "card {r. 0 \<le> r \<and> r < total_weight cs \<and> pick_channel (smoothing cs) cs r = Some c} = nat (effective_weight (smoothing cs) c)"
proof -
  let ?w = "effective_weight (smoothing cs)"
  have "\<exists>a\<ge>0. a + ?w c \<le> total_weight cs
    \<and> (\<forall>r\<ge>0. pick_channel (smoothing cs) cs r = Some c \<longleftrightarrow> a \<le> r \<and> r < a + ?w c)"
    unfolding total_weight_sum by (rule pick_channel_interval [OF effective_weight_nonneg assms])
  then obtain a where a: "0 \<le> a" "a + ?w c \<le> total_weight cs"
    "\<And>r. 0 \<le> r \<Longrightarrow> pick_channel (smoothing cs) cs r = Some c \<longleftrightarrow> a \<le> r \<and> r < a + ?w c"
    by auto
  have "{r. 0 \<le> r \<and> r < total_weight cs \<and> pick_channel (smoothing cs) cs r = Some c} = {a..<a + ?w c}"
    using a(1,2) by (auto simp: a(3))
  then show ?thesis
    by simp
qed

lemma channels_of_ids_ok:
  "\<forall>i\<in>set is. idm i \<noteq> None \<Longrightarrow> channels_of_ids idm is = Inr (map (\<lambda>i. the (idm i)) is)"
  by (induction "is") auto

lemma target_channels_not_Nil:
  assumes "channels \<noteq> []"
  shows "target_channels channels retry \<noteq> []"
proof -
  let ?ps = "sorted_priorities channels"
  have "set ?ps \<noteq> {}"
    using assms by (simp add: sorted_priorities_def)
  then have "?ps \<noteq> []"
    by auto
  then have "target_priority channels retry \<in> set ?ps"
    by (auto simp: target_priority_def Let_def)
  then show ?thesis
    by (auto simp: sorted_priorities_def target_channels_def filter_empty_conv)
qed

lemma choice_from_cache:
  assumes "2 \<le> length (servable_ids cache g m)" "\<forall>i\<in>set (servable_ids cache g m). channelsIDM cache i \<noteq> None"
  shows "GetRandomSatisfiedChannel intn cache g m retry =
    (let targets = target_channels (map (\<lambda>i. the (channelsIDM cache i)) (servable_ids cache g m)) retry
     in case pick_channel (smoothing targets) targets (intn (total_weight targets)) of
          None \<Rightarrow> Inl ChannelNotFound | Some channel \<Rightarrow> Inr (Some channel))"
proof -
  obtain i j js where ids: "servable_ids cache g m = i # j # js"
    using assms(1) by (cases "servable_ids cache g m" rule: list.exhaust [case_product list.exhaust]; auto simp: Suc_le_length_iff numeral_2_eq_2)
  show ?thesis
    using channels_of_ids_ok [OF assms(2)] target_channels_not_Nil
    unfolding GetRandomSatisfiedChannel_def ids by (simp add: Let_def)
qed

lemma distinct_channels:
  assumes "distinct is" "\<forall>i\<in>set is. \<exists>c. idm i = Some c \<and> ch_Id c = i"
  shows "distinct (map (\<lambda>i. the (idm i)) is)"
proof -
  have "inj_on (\<lambda>i. the (idm i)) (set is)"
    using assms(2) by (intro inj_on_inverseI [of _ ch_Id]) fastforce
  then show ?thesis
    using assms(1) by (simp add: distinct_map)
qed

lemma effective_weight_share:
  "c \<in> set cs \<Longrightarrow> effective_weight (smoothing cs) c * (if sum_weight cs = 0 then int (length cs) else sum_weight cs) =
     (if sum_weight cs = 0 then 1 else GetWeight c) * total_weight cs"
  by (auto simp: effective_weight_def total_weight_def smoothing_def sum_weight_zero)

lemma total_weight_pos: "cs \<noteq> [] \<Longrightarrow> 0 < total_weight cs"
proof -
  assume "cs \<noteq> []"
  moreover have "0 \<le> sum_weight cs"
    unfolding sum_weight_def by (rule sum_list_nonneg) auto
  ultimately show ?thesis
    using smoothing_nonneg(1) [of cs] by (auto simp: total_weight_def)
qed


subsection \<open>The choice from the database\<close>

lemma pick_ability_first:
  "ab_ChannelId a \<notin> ab_ChannelId ` set as \<Longrightarrow> r < ability_weight_sum (a # as) \<Longrightarrow>
     pick_ability (a # as) r = ab_ChannelId a \<longleftrightarrow> r \<le> int (ab_Weight a) + 10"
proof -
  have rest: "pick_ability as r \<in> ab_ChannelId ` set as" if "r < ability_weight_sum as" "0 \<le> r" for r
    using that by (induction as arbitrary: r) (auto simp: ability_weight_sum_def Let_def)
  show "ab_ChannelId a \<notin> ab_ChannelId ` set as \<Longrightarrow> r < ability_weight_sum (a # as) \<Longrightarrow> ?thesis"
    using rest [of "r - (int (ab_Weight a) + 10)"] by (auto simp: Let_def ability_weight_sum_def)
qed

lemma pick_ability_last:
  "as \<noteq> [] \<Longrightarrow> ab_ChannelId z \<notin> ab_ChannelId ` set as \<Longrightarrow> r < ability_weight_sum (as @ [z]) \<Longrightarrow>
     pick_ability (as @ [z]) r = ab_ChannelId z \<longleftrightarrow> ability_weight_sum as < r"
proof (induction as arbitrary: r)
  case (Cons a as)
  have nonneg: "0 \<le> ability_weight_sum as"
    unfolding ability_weight_sum_def by (rule sum_list_nonneg) auto
  show ?case
  proof (cases "as = []")
    case False
    then show ?thesis
      using Cons nonneg by (auto simp: Let_def ability_weight_sum_def)
  qed (use Cons.prems in \<open>auto simp: Let_def ability_weight_sum_def\<close>)
qed simp


subsection \<open>Properties\<close>

text \<open>Two channels of group \<open>a\<close> that serve model \<open>m\<close>, with weights 3 and 1.\<close>

definition weighted_channel :: "int \<Rightarrow> nat \<Rightarrow> Channel" where
  "weighted_channel i w =
     \<lparr>ch_Id = i, ch_Type = 1, ch_Status = 1, ch_Group = str ''a'', ch_Models = str ''m'', ch_Priority = None,
      ch_Weight = Some w, ch_AutoBan = Some 1\<rparr>"

definition two_channels :: channel_cache where
  "two_channels =
     \<lparr>group2model2channels = (\<lambda>g. if g = str ''a'' then Some (\<lambda>m. if m = str ''m'' then [1, 2] else []) else None),
      channelsIDM = (\<lambda>i. if i = 1 then Some (weighted_channel 1 3) else if i = 2 then Some (weighted_channel 2 1) else None)\<rparr>"

definition two_abilities :: "Ability list" where
  "two_abilities =
     map (\<lambda>i. \<lparr>ab_Group = str ''a'', ab_Model = str ''m'', ab_ChannelId = i, ab_Enabled = True, ab_Priority = 0, ab_Weight = 0\<rparr>) [1, 2]"

text \<open>
  C11: channels are chosen in proportion to their weights. When several channels serve a model, each
  value of the random number gives a channel of the priority that the retry asks for, and the share
  of the values that give a channel is its share of the weights, or an equal share when all weights
  are zero. The smoothing of small weights has no influence on the shares.
\<close>

theorem weighted_shares:
  fixes cache :: channel_cache and g m :: jstr and retry :: nat
  defines "T \<equiv> target_channels (map (\<lambda>i. the (channelsIDM cache i)) (servable_ids cache g m)) retry"
  assumes "2 \<le> length (servable_ids cache g m)" "distinct (servable_ids cache g m)"
    and "\<forall>i\<in>set (servable_ids cache g m). \<exists>c. channelsIDM cache i = Some c \<and> ch_Id c = i"
  shows "0 < total_weight T
    \<and> (\<forall>r. 0 \<le> r \<and> r < total_weight T \<longrightarrow>
         (\<exists>c\<in>set T. GetRandomSatisfiedChannel (\<lambda>_. r) cache g m retry = Inr (Some c)))
    \<and> (\<forall>c\<in>set T.
         int (card {r. 0 \<le> r \<and> r < total_weight T \<and> GetRandomSatisfiedChannel (\<lambda>_. r) cache g m retry = Inr (Some c)})
           * (if sum_weight T = 0 then int (length T) else sum_weight T) =
         (if sum_weight T = 0 then 1 else GetWeight c) * total_weight T)"
proof -
  have known: "\<forall>i\<in>set (servable_ids cache g m). channelsIDM cache i \<noteq> None"
    using assms(4) by fastforce
  have pick: "GetRandomSatisfiedChannel (\<lambda>_. r) cache g m retry = Inr (Some c) \<longleftrightarrow> pick_channel (smoothing T) T r = Some c" for r c
    unfolding choice_from_cache [OF assms(2) known] T_def [symmetric] by (auto simp: Let_def split: option.splits)
  have "servable_ids cache g m \<noteq> []"
    using assms(2) by auto
  then have T: "T \<noteq> []" "distinct T"
    using distinct_channels [OF assms(3,4)] unfolding T_def
    by (simp_all add: target_channels_not_Nil) (simp add: target_channels_def)
  show ?thesis
    unfolding pick using T total_weight_pos [OF T(1)] pick_channel_total [of _ "smoothing T" T] share_of_channel [OF T(2)]
      effective_weight_share [of _ T]
    by (auto simp: total_weight_sum)
qed

theorem weighted_shares_witness:
  "int (card {r. 0 \<le> r \<and> r < 400 \<and> GetRandomSatisfiedChannel (\<lambda>_. r) two_channels (str ''a'') (str ''m'') 0 = Inr (Some (weighted_channel 1 3))}) = 300"
proof -
  let ?T = "[weighted_channel 1 3, weighted_channel 2 1]"
  have ids: "servable_ids two_channels (str ''a'') (str ''m'') = [1, 2]"
    by code_simp
  have T: "target_channels (map (\<lambda>i. the (channelsIDM two_channels i)) [1, 2]) 0 = ?T" "total_weight ?T = 400" "sum_weight ?T = 4"
    "GetWeight (weighted_channel 1 3) = 3"
    by code_simp+
  have "\<forall>i\<in>set [1, 2]. \<exists>c. channelsIDM two_channels i = Some c \<and> ch_Id c = i"
    by (simp add: two_channels_def weighted_channel_def)
  then show ?thesis
    using weighted_shares [of two_channels "str ''a''" "str ''m''" 0] unfolding ids T by (simp add: T)
qed

text \<open>
  C26: without the cache the choice is off by one. When the channel of a priority is chosen from the
  database, the first one gets one value of the random number more than its weight allows and the
  last one gets one less.
\<close>

theorem database_choice_off_by_one:
  fixes table :: "Ability list" and g m :: jstr and retry :: nat and a z :: Ability and bs as :: "Ability list"
  defines "S \<equiv> ability_weight_sum (a # bs @ [z])"
  assumes "getChannelQuery table g m retry = Inr as" "sort_key (\<lambda>x. - int (ab_Weight x)) as = a # bs @ [z]"
    and "distinct (map ab_ChannelId (a # bs @ [z]))"
  shows "card {r. 0 \<le> r \<and> r < S \<and> GetChannel (\<lambda>_. r) table g m retry = Inr (Some (ab_ChannelId a))} = ab_Weight a + 10 + 1
    \<and> card {r. 0 \<le> r \<and> r < S \<and> GetChannel (\<lambda>_. r) table g m retry = Inr (Some (ab_ChannelId z))} = ab_Weight z + 10 - 1"
proof -
  have pos: "0 \<le> ability_weight_sum xs" for xs
    unfolding ability_weight_sum_def by (rule sum_list_nonneg) auto
  have S: "S = (int (ab_Weight a) + 10) + (ability_weight_sum bs + (int (ab_Weight z) + 10))"
    "S = ability_weight_sum (a # bs) + (int (ab_Weight z) + 10)"
    by (simp_all add: S_def ability_weight_sum_def)
  have get: "GetChannel (\<lambda>_. r) table g m retry = Inr (Some i) \<longleftrightarrow> pick_ability (a # bs @ [z]) r = i" for r i
    using assms(2,3) by (simp add: GetChannel_def Let_def)
  have first: "pick_ability (a # bs @ [z]) r = ab_ChannelId a \<longleftrightarrow> r \<le> int (ab_Weight a) + 10" if "r < S" for r
    using pick_ability_first [of a "bs @ [z]"] assms(4) that by (auto simp: S_def)
  have last: "pick_ability (a # bs @ [z]) r = ab_ChannelId z \<longleftrightarrow> ability_weight_sum (a # bs) < r" if "r < S" for r
    using pick_ability_last [of "a # bs" z] assms(4) that by (auto simp: S_def)
  have "{r. 0 \<le> r \<and> r < S \<and> pick_ability (a # bs @ [z]) r = ab_ChannelId a} = {0..int (ab_Weight a) + 10}"
    using pos [of bs] S(1) by (auto simp: first simp del: pick_ability.simps)
  moreover have "{r. 0 \<le> r \<and> r < S \<and> pick_ability (a # bs @ [z]) r = ab_ChannelId z}
      = {ability_weight_sum (a # bs) + 1..<ability_weight_sum (a # bs) + (int (ab_Weight z) + 10)}"
    using pos [of "a # bs"] S(2) by (auto simp: last simp del: pick_ability.simps)
  ultimately show ?thesis
    unfolding get by (simp add: nat_eq_iff)
qed

theorem database_choice_off_by_one_witness:
  "card {r. 0 \<le> r \<and> r < 20 \<and> GetChannel (\<lambda>_. r) two_abilities (str ''a'') (str ''m'') 0 = Inr (Some 1)} = 11
    \<and> card {r. 0 \<le> r \<and> r < 20 \<and> GetChannel (\<lambda>_. r) two_abilities (str ''a'') (str ''m'') 0 = Inr (Some 2)} = 9"
proof -
  let ?a = "\<lambda>i. \<lparr>ab_Group = str ''a'', ab_Model = str ''m'', ab_ChannelId = i, ab_Enabled = True, ab_Priority = 0, ab_Weight = 0\<rparr>"
  have "getChannelQuery two_abilities (str ''a'') (str ''m'') 0 = Inr [?a 1, ?a 2]"
    "sort_key (\<lambda>x. - int (ab_Weight x)) [?a 1, ?a 2] = ?a 1 # [] @ [?a 2]"
    "distinct (map ab_ChannelId (?a 1 # [] @ [?a 2]))" "ability_weight_sum (?a 1 # [] @ [?a 2]) = 20"
    by code_simp+
  then show ?thesis
    using database_choice_off_by_one [of two_abilities "str ''a''" "str ''m''" 0 "[?a 1, ?a 2]" "?a 1" "[]" "?a 2"] by simp
qed

end
