(* ===== verification/RelayRetry.thy ===== *)
theory RelayRetry
  imports ChannelSelect GoStatusCodes "HOL-Library.While_Combinator"
begin

text \<open>
  What the server does after a failed request: whether it disables the channel (service/channel.go),
  tries another one (controller/relay.go), or treats the failure as a violation of usage rules
  (service/violation_fee.go), and the loop of \<open>Relay\<close> over these decisions.

  The record \<open>relay_env\<close> holds the settings and what comes from outside: the random numbers, the
  outcomes of the attempts and of preparing them, and the multi-pattern search of the package
  ahocorasick. The loop is a \<open>while_option\<close>, so that not ending would be the value \<open>None\<close>.
\<close>

subsection \<open>Violations\<close>

definition CSAMViolationMarker :: jstr where
  "CSAMViolationMarker = str ''Failed check: SAFETY_CHECK_TYPE''"

definition ContentViolatesUsageMarker :: jstr where
  "ContentViolatesUsageMarker = str ''Content violates usage guidelines''"

definition IsViolationFeeCode :: "jstr \<Rightarrow> bool" where
  "IsViolationFeeCode code \<longleftrightarrow> starts_with code (str ''violation_fee.'')"

definition HasCSAMViolationMarker :: "(jstr \<Rightarrow> jstr) \<Rightarrow> NewAPIError \<Rightarrow> bool" where
  "HasCSAMViolationMarker hide_info err \<longleftrightarrow>
     includes_str (Error (Some err)) CSAMViolationMarker \<or> includes_str (Error (Some err)) ContentViolatesUsageMarker
     \<or> includes_str (oa_Message (ToOpenAIError hide_info err)) CSAMViolationMarker
     \<or> includes_str (Error (Some err)) ContentViolatesUsageMarker"

definition WrapAsViolationFeeGrokCSAM :: "(jstr \<Rightarrow> jstr) \<Rightarrow> NewAPIError \<Rightarrow> NewAPIError" where
  "WrapAsViolationFeeGrokCSAM hide_info err =
     (let code = str ''violation_fee.grok.csam''
      in WithOpenAIError ((ToOpenAIError hide_info err)\<lparr>oa_Type := code, oa_Code := CodeText code\<rparr>) (ae_StatusCode err)
           [ErrOptionWithSkipRetry])"

definition NormalizeViolationFeeError :: "(jstr \<Rightarrow> jstr) \<Rightarrow> NewAPIError \<Rightarrow> NewAPIError" where
  "NormalizeViolationFeeError hide_info err =
     (if HasCSAMViolationMarker hide_info err then WrapAsViolationFeeGrokCSAM hide_info err
      else if IsViolationFeeCode (ae_errorCode err)
      then WithOpenAIError (ToOpenAIError hide_info err) (ae_StatusCode err) [ErrOptionWithSkipRetry]
      else err)"

definition shouldChargeViolationFee :: "(jstr \<Rightarrow> jstr) \<Rightarrow> NewAPIError option \<Rightarrow> bool" where
  "shouldChargeViolationFee hide_info err =
     (case err of
        None \<Rightarrow> False
      | Some e \<Rightarrow> ae_errorCode e = str ''violation_fee.grok.csam'' \<or> HasCSAMViolationMarker hide_info e)"


subsection \<open>Settings and the outside\<close>

record relay_env =
  RetryTimes :: int
  AutomaticDisableChannelEnabled :: bool
  AutomaticEnableChannelEnabled :: bool
  AutomaticDisableKeywords :: "jstr list"
  status_env :: status_settings
  cache_env :: channel_cache
  group_env :: group_settings
  skip_after_affinity :: bool
  specific_channel :: bool
  hide_env :: "jstr \<Rightarrow> jstr"
  machine :: "jstr list \<Rightarrow> (jstr \<Rightarrow> jstr list) option"
  intn_env :: "nat \<Rightarrow> int \<Rightarrow> int"
  setup_env :: "nat \<Rightarrow> Channel \<Rightarrow> NewAPIError option"
  body_env :: "nat \<Rightarrow> (bool \<times> jstr) option"
  attempt_env :: "nat \<Rightarrow> Channel \<Rightarrow> NewAPIError option"

text \<open>A dictionary of blank words has no machine. The cache of built machines is not modelled.\<close>

definition AcSearch :: "relay_env \<Rightarrow> jstr \<Rightarrow> jstr list \<Rightarrow> bool" where
  "AcSearch env findText dict \<longleftrightarrow>
     dict \<noteq> [] \<and> findText \<noteq> [] \<and> (\<exists>w\<in>set dict. to_lower (TrimSpace w) \<noteq> [])
     \<and> (case machine env (map (\<lambda>w. TrimSpace (to_lower w)) dict) of None \<Rightarrow> False | Some search \<Rightarrow> search findText \<noteq> [])"


subsection \<open>Disabling and retrying\<close>

definition disabling_codes :: "jstr list" where
  "disabling_codes =
     [str ''invalid_api_key'', str ''account_deactivated'', str ''billing_not_active'',
      str ''pre_consume_token_quota_failed'', str ''Arrearage'']"

definition disabling_types :: "jstr list" where
  "disabling_types =
     [str ''insufficient_quota'', str ''insufficient_user_quota'', str ''authentication_error'',
      str ''permission_error'', str ''forbidden'']"

text \<open>A case of the switch on \<open>oaiErr.Code\<close> is a string, which a value of type \<open>ErrorCode\<close> never equals.\<close>

definition has_disabling_code :: "OpenAIError \<Rightarrow> bool" where
  "has_disabling_code e = (case oa_Code e of CodeText s \<Rightarrow> s \<in> set disabling_codes | _ \<Rightarrow> False)"

definition ShouldDisableChannel :: "relay_env \<Rightarrow> int \<Rightarrow> NewAPIError option \<Rightarrow> bool" where
  "ShouldDisableChannel env channelType err =
     (if \<not> AutomaticDisableChannelEnabled env then False
      else case err of
        None \<Rightarrow> False
      | Some e \<Rightarrow>
          if IsChannelError err then True
          else if IsSkipRetryError err then False
          else if ShouldDisableByStatusCode (status_env env) (ae_StatusCode e) then True
          else if ae_StatusCode e = 403 \<and> channelType = 24 then True
          else let oaiErr = ToOpenAIError (hide_env env) e
               in if has_disabling_code oaiErr then True
                  else if oa_Type oaiErr \<in> set disabling_types then True
                  else AcSearch env (to_lower (Error err)) (AutomaticDisableKeywords env))"

definition ShouldEnableChannel :: "relay_env \<Rightarrow> NewAPIError option \<Rightarrow> int \<Rightarrow> bool" where
  "ShouldEnableChannel env newAPIError status \<longleftrightarrow>
     AutomaticEnableChannelEnabled env \<and> newAPIError = None \<and> status = 3"

definition shouldRetry :: "relay_env \<Rightarrow> NewAPIError option \<Rightarrow> int \<Rightarrow> bool" where
  "shouldRetry env openaiErr retryTimes =
     (case openaiErr of
        None \<Rightarrow> False
      | Some e \<Rightarrow>
          if skip_after_affinity env then False
          else if IsChannelError openaiErr then True
          else if IsSkipRetryError openaiErr then False
          else if retryTimes \<le> 0 then False
          else if specific_channel env then False
          else let code = ae_StatusCode e
               in if 200 \<le> code \<and> code < 300 then False
                  else if code < 100 \<or> 599 < code then True
                  else if IsAlwaysSkipRetryCode (GetErrorCode openaiErr) then False
                  else ShouldRetryByStatusCode (status_env env) code)"

record TaskError =
  te_StatusCode :: int
  te_LocalError :: bool

definition shouldRetryTaskRelay :: "relay_env \<Rightarrow> TaskError option \<Rightarrow> int \<Rightarrow> bool" where
  "shouldRetryTaskRelay env taskErr retryTimes =
     (case taskErr of
        None \<Rightarrow> False
      | Some e \<Rightarrow>
          (let code = te_StatusCode e
           in if skip_after_affinity env then False
              else if retryTimes \<le> 0 then False
              else if specific_channel env then False
              else if code = 429 then True
              else if code = 307 then True
              else if code div 100 = 5 then \<not> IsAlwaysSkipRetryStatusCode code
              else if code = 400 then False
              else if code = 408 then False
              else if te_LocalError e then False
              else code div 100 \<noteq> 2))"


subsection \<open>The loop\<close>

record relay_state =
  rs_param :: RetryParam
  rs_cx :: select_context
  rs_meta :: bool
  rs_first :: Channel
  rs_RetryIndex :: nat
  rs_LastError :: "NewAPIError option"
  rs_newAPIError :: "NewAPIError option"
  rs_used :: "int list"
  rs_disabled :: "(int \<times> jstr) list"
  rs_attempts :: nat
  rs_running :: bool

definition channel_failed :: "jstr \<Rightarrow> NewAPIError" where
  "channel_failed m = NewError (PlainError m) (str ''get_channel_failed'') [ErrOptionWithSkipRetry]"

text \<open>
  The first attempt takes the channel of the request context, later ones choose one. The texts of
  the two failures, which name the group and the model, are represented by keys.
\<close>

definition getChannel :: "relay_env \<Rightarrow> relay_state \<Rightarrow> (NewAPIError + Channel) \<times> relay_state" where
  "getChannel env st =
     (if \<not> rs_meta st then (Inr (rs_first st), st)
      else case CacheGetRandomSatisfiedChannel (intn_env env (rs_attempts st)) (cache_env env) (group_env env) (RetryTimes env)
                  (rs_param st) (rs_cx st) of
             Inl e \<Rightarrow> (Inl (channel_failed (str ''get channel failed'')), st)
           | Inr (channel, selectGroup, p, cx) \<Rightarrow>
               (let st' = st\<lparr>rs_param := p, rs_cx := cx\<rparr>
                in case channel of
                     None \<Rightarrow> (Inl (channel_failed (str ''no available channel'')), st')
                   | Some ch \<Rightarrow>
                       (case setup_env env (rs_attempts st) ch of Some e \<Rightarrow> (Inl e, st') | None \<Rightarrow> (Inr ch, st'))))"

definition body_error :: "bool \<times> jstr \<Rightarrow> NewAPIError" where
  "body_error b =
     NewErrorWithStatusCode (snd b) (str ''read_request_body_failed'') (if fst b then 413 else 400) [ErrOptionWithSkipRetry]"

definition processChannelError :: "relay_env \<Rightarrow> Channel \<Rightarrow> NewAPIError \<Rightarrow> (int \<times> jstr) list \<Rightarrow> (int \<times> jstr) list" where
  "processChannelError env channel err disabled =
     (if ShouldDisableChannel env (ch_Type channel) (Some err) \<and> GetAutoBan channel
      then disabled @ [(ch_Id channel, ErrorWithStatusCode (Some err))] else disabled)"

text \<open>The part of an iteration after a channel has been found.\<close>

definition relay_attempt :: "relay_env \<Rightarrow> Channel \<Rightarrow> relay_state \<Rightarrow> relay_state" where
  "relay_attempt env channel st0 =
     (let n = rs_attempts st0; st = st0\<lparr>rs_used := rs_used st0 @ [ch_Id channel]\<rparr>
      in case body_env env n of
           Some b \<Rightarrow> st\<lparr>rs_newAPIError := Some (body_error b), rs_running := False\<rparr>
         | None \<Rightarrow>
             (case attempt_env env n channel of
                None \<Rightarrow>
                  st\<lparr>rs_newAPIError := None, rs_LastError := None, rs_meta := True, rs_attempts := Suc n, rs_running := False\<rparr>
              | Some e0 \<Rightarrow>
                  (let e = NormalizeViolationFeeError (hide_env env) e0;
                       st1 = st\<lparr>rs_newAPIError := Some e, rs_LastError := Some e, rs_meta := True, rs_attempts := Suc n,
                               rs_disabled := processChannelError env channel e (rs_disabled st)\<rparr>
                   in if shouldRetry env (Some e) (RetryTimes env - int (GetRetry (rs_param st1)))
                      then st1\<lparr>rs_param := IncreaseRetry (rs_param st1)\<rparr>
                      else st1\<lparr>rs_running := False\<rparr>)))"

definition relay_iteration :: "relay_env \<Rightarrow> relay_state \<Rightarrow> relay_state" where
  "relay_iteration env st0 =
     (let st = st0\<lparr>rs_RetryIndex := GetRetry (rs_param st0)\<rparr>
      in case getChannel env st of
           (Inl e, st') \<Rightarrow> st'\<lparr>rs_newAPIError := Some e, rs_running := False\<rparr>
         | (Inr channel, st') \<Rightarrow> relay_attempt env channel st')"

definition relay_continues :: "relay_env \<Rightarrow> relay_state \<Rightarrow> bool" where
  "relay_continues env st \<longleftrightarrow> rs_running st \<and> int (GetRetry (rs_param st)) \<le> RetryTimes env"

definition relay_start :: "jstr \<Rightarrow> jstr \<Rightarrow> Channel \<Rightarrow> select_context \<Rightarrow> relay_state" where
  "relay_start tokenGroup modelName channel cx =
     \<lparr>rs_param = \<lparr>rp_TokenGroup = tokenGroup, rp_ModelName = modelName, rp_Retry = Some 0, rp_resetNextTry = False\<rparr>,
      rs_cx = cx, rs_meta = False, rs_first = channel, rs_RetryIndex = 0, rs_LastError = None, rs_newAPIError = None,
      rs_used = [], rs_disabled = [], rs_attempts = 0, rs_running = True\<rparr>"

definition Relay :: "relay_env \<Rightarrow> relay_state \<Rightarrow> relay_state option" where
  "Relay env = while_option (relay_continues env) (relay_iteration env)"


subsection \<open>The loop ends\<close>

definition group_index :: "select_context \<Rightarrow> nat" where
  "group_index cx = (case cx_AutoGroupIndex cx of None \<Rightarrow> 0 | Some i \<Rightarrow> i)"

definition user_groups :: "relay_env \<Rightarrow> select_context \<Rightarrow> nat" where
  "user_groups env cx = length (GetUserAutoGroup (group_env env) (cx_UserGroup cx))"

text \<open>The attempts that are left: all of them for each group to come, and the rest of the current group.\<close>

definition attempts_left :: "relay_env \<Rightarrow> relay_state \<Rightarrow> nat" where
  "attempts_left env st =
     (let per_group = nat (RetryTimes env + 1)
      in (if rp_TokenGroup (rs_param st) = str ''auto'' then (user_groups env (rs_cx st) - group_index (rs_cx st)) * per_group else 0)
         + (per_group - GetRetry (rs_param st)))"

lemma GetRetry_simps [simp]:
  "GetRetry (SetRetry n p) = n" "GetRetry (ResetRetryNextTry p) = GetRetry p" "GetRetry (p\<lparr>rp_resetNextTry := b\<rparr>) = GetRetry p"
  "rp_resetNextTry (SetRetry n p) = rp_resetNextTry p" "rp_resetNextTry (ResetRetryNextTry p)"
  "rp_TokenGroup (SetRetry n p) = rp_TokenGroup p" "rp_TokenGroup (ResetRetryNextTry p) = rp_TokenGroup p"
  "rp_TokenGroup (IncreaseRetry p) = rp_TokenGroup p" "\<not> rp_resetNextTry (IncreaseRetry p)"
  "GetRetry (IncreaseRetry p) = (if rp_resetNextTry p then GetRetry p else Suc (GetRetry p))"
  by (simp_all add: GetRetry_def SetRetry_def ResetRetryNextTry_def IncreaseRetry_def)

text \<open>Where a choice among the groups ends up: at position \<open>j\<close>, or past it when its retries are used up.\<close>

lemma auto_select_position:
  assumes "auto_select intn cache R start i grps p cx = (Some ch, g, p', cx')" "\<not> rp_resetNextTry p" "start \<le> i"
    "start < i \<longrightarrow> GetRetry p = 0"
  shows "rp_TokenGroup p' = rp_TokenGroup p \<and> cx_UserGroup cx' = cx_UserGroup cx
    \<and> (\<exists>j\<ge>i. j < i + length grps
        \<and> (let r = (if start < j then 0 else GetRetry p)
           in if rp_resetNextTry p' then R \<le> int r \<and> GetRetry p' = 0 \<and> group_index cx' = Suc j
              else GetRetry p' = r \<and> group_index cx' = j))"
  using assms
proof (induction grps arbitrary: i p cx)
  case (Cons grp grps)
  let ?r = "if start < i then 0 else GetRetry p"
  let ?sel = "GetRandomSatisfiedChannel intn cache grp (rp_ModelName p) ?r"
  show ?case
  proof (cases "\<exists>c. ?sel = Inr (Some c)")
    case True
    then show ?thesis
      using Cons.prems by (auto simp: Let_def group_index_def intro!: exI [of _ i] split: if_splits)
  next
    case False
    then have "auto_select intn cache R start (Suc i) grps (SetRetry 0 p)
        (cx\<lparr>cx_AutoGroupIndex := Some (Suc i), cx_AutoGroupRetryIndex := Some 0\<rparr>) = (Some ch, g, p', cx')"
      using Cons.prems(1) by (auto simp: Let_def split: sum.splits option.splits)
    from Cons.IH [OF this] Cons.prems(2,3) obtain j where
      "rp_TokenGroup p' = rp_TokenGroup p" "cx_UserGroup cx' = cx_UserGroup cx" "Suc i \<le> j" "j < Suc i + length grps"
      "let r = (if start < j then 0 else GetRetry (SetRetry 0 p))
           in if rp_resetNextTry p' then R \<le> int r \<and> GetRetry p' = 0 \<and> group_index cx' = Suc j
              else GetRetry p' = r \<and> group_index cx' = j"
      by auto
    then show ?thesis
      using Cons.prems(3) by (intro conjI exI [of _ j]) (simp_all add: Let_def)
  qed
qed simp

lemma left_after_switch:
  fixes G R r s j :: nat
  assumes "s \<le> j" "j < G" "r \<le> R" "R \<le> (if s < j then 0 else r)"
  shows "(G - Suc j) * Suc R + Suc R < (G - s) * Suc R + (Suc R - r)"
proof (cases "s < j")
  case True
  then have "R = 0"
    using assms(4) by simp
  then show ?thesis
    using assms True by simp
next
  case False
  then have "j = s" "r = R"
    using assms by simp_all
  moreover have "(G - Suc s) * Suc R + Suc R = (G - s) * Suc R"
    using assms(2) \<open>j = s\<close> by (simp add: Suc_diff_Suc [symmetric] del: mult_Suc_right)
  ultimately show ?thesis
    by simp
qed

lemma left_after_stay:
  fixes G R r s j :: nat
  assumes "s \<le> j" "j < G" "r \<le> R"
  shows "(G - j) * Suc R + (Suc R - Suc (if s < j then 0 else r)) < (G - s) * Suc R + (Suc R - r)"
proof (cases "s < j")
  case True
  then have "Suc (G - j) * Suc R \<le> (G - s) * Suc R"
    using assms by (intro mult_le_mono1) simp
  then show ?thesis
    using True assms by simp
qed (use assms in simp)

text \<open>A found channel leaves fewer attempts once the counter is advanced.\<close>

lemma getChannel_left:
  assumes "getChannel env st = (Inr ch, st')" "\<not> rp_resetNextTry (rs_param st)" "int (GetRetry (rs_param st)) \<le> RetryTimes env"
  shows "attempts_left env (st'\<lparr>rs_param := IncreaseRetry (rs_param st')\<rparr>) < attempts_left env st
    \<and> rs_attempts st' = rs_attempts st \<and> rs_used st' = rs_used st"
proof (cases "rs_meta st \<and> rp_TokenGroup (rs_param st) = str ''auto''")
  case False
  have N: "nat (RetryTimes env + 1) = Suc (nat (RetryTimes env))" "GetRetry (rs_param st) \<le> nat (RetryTimes env)"
    using assms(3) by linarith+
  have "rs_param st' = rs_param st \<and> rs_cx st' = rs_cx st \<and> rs_attempts st' = rs_attempts st \<and> rs_used st' = rs_used st"
    using assms(1) False by (auto simp: getChannel_def CacheGetRandomSatisfiedChannel_def Let_def split: if_splits sum.splits option.splits)
  then show ?thesis
    using assms(2) N by (cases "rp_TokenGroup (rs_param st) = str ''auto''") (simp_all add: attempts_left_def Let_def, linarith)
next
  case True
  let ?p = "rs_param st" and ?s = "group_index (rs_cx st)" and ?G = "user_groups env (rs_cx st)" and ?R = "nat (RetryTimes env)"
  let ?groups = "GetUserAutoGroup (group_env env) (cx_UserGroup (rs_cx st))"
  have N: "nat (RetryTimes env + 1) = Suc ?R" "GetRetry ?p \<le> ?R" "int ?R = RetryTimes env"
    using assms(3) by linarith+
  obtain c g p' cx' where sel0: "auto_select (intn_env env (rs_attempts st)) (cache_env env) (RetryTimes env) ?s ?s (drop ?s ?groups) ?p (rs_cx st)
      = (c, g, p', cx')"
    using prod_cases4 by blast
  have "c = Some ch" and st': "st' = st\<lparr>rs_param := p', rs_cx := cx'\<rparr>"
    using assms(1) True sel0 unfolding getChannel_def CacheGetRandomSatisfiedChannel_def group_index_def [symmetric]
    by (auto simp: Let_def split: if_splits option.splits)
  note sel = sel0 [unfolded this(1)]
  have same: "rp_TokenGroup p' = rp_TokenGroup ?p" "cx_UserGroup cx' = cx_UserGroup (rs_cx st)"
    and "\<exists>j\<ge>?s. j < ?s + length (drop ?s ?groups)
        \<and> (let r = (if ?s < j then 0 else GetRetry ?p)
           in if rp_resetNextTry p' then RetryTimes env \<le> int r \<and> GetRetry p' = 0 \<and> group_index cx' = Suc j
              else GetRetry p' = r \<and> group_index cx' = j)"
    using auto_select_position [OF sel assms(2)] by simp_all
  then obtain j where "?s \<le> j" "j < ?s + (?G - ?s)" and step: "let r = (if ?s < j then 0 else GetRetry ?p)
      in if rp_resetNextTry p' then RetryTimes env \<le> int r \<and> GetRetry p' = 0 \<and> group_index cx' = Suc j
         else GetRetry p' = r \<and> group_index cx' = j"
    by (auto simp: user_groups_def)
  then have j: "?s \<le> j" "j < ?G"
    by simp_all
  have limit: "RetryTimes env \<le> int r \<longleftrightarrow> ?R \<le> r" for r
    using N(3) by linarith
  have "user_groups env cx' = ?G"
    by (simp add: user_groups_def same)
  then show ?thesis
    using step True same N left_after_switch [OF j N(2)] left_after_stay [OF j N(2)]
    by (simp add: st' attempts_left_def Let_def limit del: mult_Suc_right split: if_splits)
qed

definition relay_inv :: "relay_env \<Rightarrow> nat \<Rightarrow> relay_state \<Rightarrow> bool" where
  "relay_inv env n st \<longleftrightarrow>
     rs_attempts st + (if rs_running st then attempts_left env st else 0) \<le> n
     \<and> length (rs_used st) + (if rs_running st then attempts_left env st else 0) \<le> n
     \<and> (rs_running st \<longrightarrow> \<not> rp_resetNextTry (rs_param st))"

lemma attempts_left_frame [simp]:
  "attempts_left env (st\<lparr>rs_RetryIndex := k\<rparr>) = attempts_left env st"
  by (simp add: attempts_left_def cong: if_cong)

lemma relay_iteration_inv:
  assumes "relay_inv env n st" "relay_continues env st"
  shows "relay_inv env n (relay_iteration env st)
    \<and> (if rs_running (relay_iteration env st) then attempts_left env (relay_iteration env st) else 0) < attempts_left env st"
proof -
  let ?st = "st\<lparr>rs_RetryIndex := GetRetry (rs_param st)\<rparr>"
  have pre: "rs_running st" "\<not> rp_resetNextTry (rs_param st)" "int (GetRetry (rs_param st)) \<le> RetryTimes env"
    "rs_attempts st + attempts_left env st \<le> n" "length (rs_used st) + attempts_left env st \<le> n"
    using assms by (auto simp: relay_inv_def relay_continues_def)
  have "GetRetry (rs_param st) < nat (RetryTimes env + 1)"
    using pre(3) by linarith
  then have pos: "0 < attempts_left env st"
    by (simp add: attempts_left_def Let_def)
  obtain res st' where get: "getChannel env ?st = (res, st')"
    by fastforce
  show ?thesis
  proof (cases res)
    case (Inl e)
    have "rs_attempts st' = rs_attempts st \<and> rs_used st' = rs_used st"
      using get Inl by (auto simp: getChannel_def Let_def split: if_splits sum.splits option.splits prod.splits)
    then show ?thesis
      using get Inl pre pos by (simp add: relay_iteration_def Let_def relay_inv_def)
  next
    case (Inr ch)
    have left: "attempts_left env (st'\<lparr>rs_param := IncreaseRetry (rs_param st')\<rparr>) < attempts_left env st"
      "rs_attempts st' = rs_attempts st" "rs_used st' = rs_used st"
      using getChannel_left [of env ?st ch st'] get Inr pre by simp_all
    have eq: "attempts_left env (st'\<lparr>rs_used := u, rs_newAPIError := a, rs_LastError := b, rs_meta := m, rs_attempts := k, rs_disabled := d,
        rs_param := IncreaseRetry (rs_param st')\<rparr>) = attempts_left env (st'\<lparr>rs_param := IncreaseRetry (rs_param st')\<rparr>)" for u a b m k d
      by (simp add: attempts_left_def cong: if_cong)
    show ?thesis
      using get Inr pre pos left
      by (auto simp: relay_iteration_def relay_attempt_def Let_def relay_inv_def eq split: option.splits)
  qed
qed

lemma relay_inv_start:
  "relay_inv env ((if grp = str ''auto'' then Suc (user_groups env cx) else 1) * nat (RetryTimes env + 1)) (relay_start grp model ch cx)"
  by (simp add: relay_inv_def relay_start_def attempts_left_def Let_def GetRetry_def)


subsection \<open>Properties\<close>

text \<open>
  C10: relaying a request ends. Whatever the channels answer, the loop stops after at most one attempt
  more than the configured retries, and with automatic groups after at most that many for each group
  of the user and once more for the channel the request came with, although the counter of retries
  starts again with every group.
\<close>

theorem relay_ends:
  "\<exists>st. Relay env (relay_start grp model ch cx) = Some st
    \<and> rs_attempts st \<le> (if grp = str ''auto'' then Suc (length (GetUserAutoGroup (group_env env) (cx_UserGroup cx))) else 1) * nat (RetryTimes env + 1)
    \<and> length (rs_used st) \<le> (if grp = str ''auto'' then Suc (length (GetUserAutoGroup (group_env env) (cx_UserGroup cx))) else 1) * nat (RetryTimes env + 1)"
proof -
  let ?n = "(if grp = str ''auto'' then Suc (user_groups env cx) else 1) * nat (RetryTimes env + 1)"
  let ?f = "\<lambda>st. if rs_running st then attempts_left env st else 0"
  have step: "relay_inv env ?n (relay_iteration env st) \<and> ?f (relay_iteration env st) < ?f st"
    if "relay_inv env ?n st" "relay_continues env st" for st
    using relay_iteration_inv [OF that] that(2) by (simp add: relay_continues_def)
  obtain st where st: "Relay env (relay_start grp model ch cx) = Some st"
    using measure_while_option_Some [of "relay_inv env ?n" "relay_continues env" "relay_iteration env" ?f, OF step relay_inv_start]
    unfolding Relay_def by blast
  have "relay_inv env ?n st"
    by (rule while_option_rule [OF _ st [unfolded Relay_def]]) (use step relay_inv_start in auto)
  then show ?thesis
    using st by (intro exI [of _ st]) (auto simp: relay_inv_def user_groups_def split: if_splits)
qed

text \<open>An environment with two channels and three retries, in which nothing is disabled.\<close>

definition quiet_env :: "status_settings \<Rightarrow> relay_env" where
  "quiet_env st =
     \<lparr>RetryTimes = 3, AutomaticDisableChannelEnabled = False, AutomaticEnableChannelEnabled = False,
      AutomaticDisableKeywords = [], status_env = st, cache_env = two_channels,
      group_env = \<lparr>userUsableGroups = [], GroupSpecialUsableGroup = (\<lambda>_. None), autoGroups = []\<rparr>,
      skip_after_affinity = False, specific_channel = False, hide_env = (\<lambda>m. m), machine = (\<lambda>_. None),
      intn_env = (\<lambda>_ _. 0), setup_env = (\<lambda>_ _. None), body_env = (\<lambda>_. None),
      attempt_env = (\<lambda>_ _. Some (InitOpenAIError (str ''bad_response_status_code'') 502 []))\<rparr>"



text \<open>
  Timeouts are never tried again. An error with status 504 or 524 that is not an error of the
  channel itself ends the attempts, for requests and for tasks, whatever the settings are.
\<close>

lemma timeouts_not_retried:
  assumes "c \<in> {504, 524}"
  shows "(ae_StatusCode e = c \<and> \<not> IsChannelError (Some e) \<longrightarrow> \<not> shouldRetry env (Some e) n)
    \<and> (te_StatusCode t = c \<longrightarrow> \<not> shouldRetryTaskRelay env (Some t) n)"
  using assms
  by (auto simp: shouldRetry_def shouldRetryTaskRelay_def Let_def ShouldRetryByStatusCode_def
      IsAlwaysSkipRetryStatusCode_def alwaysSkipRetryStatusCodes_def)

lemma timeouts_not_retried_witness:
  "\<not> shouldRetry (quiet_env default_status_settings) (Some (InitOpenAIError (str ''bad_response_status_code'') 524 [])) 3"
proof -
  have "ae_StatusCode (InitOpenAIError (str ''bad_response_status_code'') 524 []) = 524"
    "\<not> IsChannelError (Some (InitOpenAIError (str ''bad_response_status_code'') 524 []))"
    by code_simp+
  then show ?thesis
    using timeouts_not_retried [of 524 "InitOpenAIError (str ''bad_response_status_code'') 524 []"] by simp
qed


end
