(* ===== verification/GoStore.thy ===== *)
theory GoStore
  imports GoText
begin

text \<open>
  The tables of the server's database that quotas and subscriptions live in (model/user.go,
  model/token.go, model/team.go, model/subscription.go), and programs over them.

  A row has the columns the modelled code reads or writes. A program takes the store and returns a
  result, or an error message, and the new store. Each access to the database takes an entry of
  \<open>db_faults\<close>, which says whether it fails; with no entries left none fails, so that a theorem about
  every list of faults covers every pattern of failures. A transaction that fails leaves the tables
  as they were. The Redis caches are not modelled, apart from the cached group of a user.
\<close>

named_theorems keeps_intros

record User =
  us_Id :: int
  us_Quota :: int
  us_Group :: jstr

record Token =
  tk_Id :: int
  tk_Key :: jstr
  tk_RemainQuota :: int
  tk_UsedQuota :: int

record TeamMember =
  tm_TeamId :: int
  tm_UserId :: int
  tm_QuotaLimit :: int
  tm_UsedQuota :: int

record SubscriptionPlan =
  pl_Id :: int
  pl_Title :: jstr
  pl_DurationUnit :: jstr
  pl_DurationValue :: int
  pl_CustomSeconds :: int
  pl_MaxPurchasePerUser :: int
  pl_UpgradeGroup :: jstr
  pl_AllowWalletFallback :: bool
  pl_TotalAmount :: int
  pl_QuotaResetPeriod :: jstr
  pl_QuotaResetCustomSeconds :: int

record SubscriptionOrder =
  or_UserId :: int
  or_TeamId :: int
  or_PlanId :: int
  or_Money :: rat
  or_TradeNo :: jstr
  or_PaymentMethod :: jstr
  or_Status :: jstr
  or_CreateTime :: int
  or_CompleteTime :: int
  or_ProviderPayload :: jstr

record TopUp =
  tu_UserId :: int
  tu_Amount :: int
  tu_Money :: rat
  tu_TradeNo :: jstr
  tu_PaymentMethod :: jstr
  tu_CreateTime :: int
  tu_CompleteTime :: int
  tu_Status :: jstr

record UserSubscription =
  sb_Id :: int
  sb_UserId :: int
  sb_TeamId :: int
  sb_PlanId :: int
  sb_AmountTotal :: int
  sb_AmountUsed :: int
  sb_StartTime :: int
  sb_EndTime :: int
  sb_Status :: jstr
  sb_Source :: jstr
  sb_LastResetTime :: int
  sb_NextResetTime :: int
  sb_UpgradeGroup :: jstr
  sb_PrevUserGroup :: jstr

record SubscriptionPreConsumeRecord =
  pr_RequestId :: jstr
  pr_UserId :: int
  pr_UserSubscriptionId :: int
  pr_PreConsumed :: int
  pr_Status :: jstr
  pr_UpdatedAt :: int

text \<open>
  \<open>db_pending_user\<close> and \<open>db_pending_token\<close> are the stores of the batch updater, used when \<open>db_batch\<close>
  is set; \<open>db_now\<close> is the time in seconds and \<open>db_zone\<close> the offset of the local time zone.
\<close>

record store =
  db_users :: "User list"
  db_tokens :: "Token list"
  db_members :: "TeamMember list"
  db_plans :: "SubscriptionPlan list"
  db_orders :: "SubscriptionOrder list"
  db_topups :: "TopUp list"
  db_subs :: "UserSubscription list"
  db_records :: "SubscriptionPreConsumeRecord list"
  db_pending_user :: "(int \<times> int) list"
  db_pending_token :: "(int \<times> int) list"
  db_group_cache :: "(int \<times> jstr) list"
  db_batch :: bool
  db_premium :: jstr
  db_now :: int
  db_zone :: int
  db_faults :: "bool list"


subsection \<open>Programs\<close>

type_synonym 'a db = "store \<Rightarrow> (jstr + 'a) \<times> store"

definition returnM :: "'a \<Rightarrow> 'a db" where
  "returnM x st = (Inr x, st)"

definition failM :: "jstr \<Rightarrow> 'a db" where
  "failM e st = (Inl e, st)"

definition bindM :: "'a db \<Rightarrow> ('a \<Rightarrow> 'b db) \<Rightarrow> 'b db" where
  "bindM m f st = (case m st of (Inl e, st') \<Rightarrow> (Inl e, st') | (Inr x, st') \<Rightarrow> f x st')"

text \<open>\<open>catchM m h f\<close>: go on with \<open>h\<close> where \<open>m\<close> fails, and with \<open>f\<close> where it succeeds.\<close>

definition catchM :: "'a db \<Rightarrow> (jstr \<Rightarrow> 'b db) \<Rightarrow> ('a \<Rightarrow> 'b db) \<Rightarrow> 'b db" where
  "catchM m h f st = (case m st of (Inl e, st') \<Rightarrow> h e st' | (Inr x, st') \<Rightarrow> f x st')"

definition getsM :: "(store \<Rightarrow> 'a) \<Rightarrow> 'a db" where
  "getsM f st = (Inr (f st), st)"

definition modifyM :: "(store \<Rightarrow> store) \<Rightarrow> unit db" where
  "modifyM f st = (Inr (), f st)"

definition accessM :: "unit db" where
  "accessM st =
     (case db_faults st of
        [] \<Rightarrow> (Inr (), st)
      | b # bs \<Rightarrow> (if b then Inl (str ''database error'') else Inr (), st\<lparr>db_faults := bs\<rparr>))"

definition readM :: "(store \<Rightarrow> 'a) \<Rightarrow> 'a db" where
  "readM f = bindM accessM (\<lambda>_. getsM f)"

definition writeM :: "(store \<Rightarrow> store) \<Rightarrow> unit db" where
  "writeM f = bindM accessM (\<lambda>_. modifyM f)"

text \<open>\<open>First\<close> fails where there is no row.\<close>

definition firstM :: "(store \<Rightarrow> 'a option) \<Rightarrow> 'a db" where
  "firstM f = bindM (readM f) (\<lambda>r. case r of None \<Rightarrow> failM (str ''record not found'') | Some x \<Rightarrow> returnM x)"

definition transactionM :: "'a db \<Rightarrow> 'a db" where
  "transactionM m st =
     (case bindM m (\<lambda>x. bindM accessM (\<lambda>_. returnM x)) st of
        (Inl e, st') \<Rightarrow> (Inl e, st\<lparr>db_faults := db_faults st'\<rparr>)
      | r \<Rightarrow> r)"

fun forM :: "'a list \<Rightarrow> ('a \<Rightarrow> unit db) \<Rightarrow> unit db" where
  "forM [] f = returnM ()"
| "forM (x # xs) f = bindM (f x) (\<lambda>_. forM xs f)"


subsection \<open>Running without faults\<close>

lemma run_simps [simp]:
  "returnM x st = (Inr x, st)" "failM e st = (Inl e, st)" "getsM f st = (Inr (f st), st)" "modifyM h st = (Inr (), h st)"
  by (simp_all add: returnM_def failM_def getsM_def modifyM_def)

lemma run_bind: "m st = (Inr x, st') \<Longrightarrow> bindM m f st = f x st'"
  and run_bind_fail: "m st = (Inl e, st') \<Longrightarrow> bindM m f st = (Inl e, st')"
  and run_catch: "m st = (Inr x, st') \<Longrightarrow> catchM m h f st = f x st'"
  and run_catch_fail: "m st = (Inl e, st') \<Longrightarrow> catchM m h f st = h e st'"
  by (simp_all add: bindM_def catchM_def)

lemma run_if: "(if b then m else m') st = (if b then m st else m' st)"
  by simp

lemma run_ok [simp]:
  assumes "db_faults st = []"
  shows "accessM st = (Inr (), st)" "readM f st = (Inr (f st), st)" "writeM h st = (Inr (), h st)"
    "firstM g st = (case g st of None \<Rightarrow> Inl (str ''record not found'') | Some x \<Rightarrow> Inr x, st)"
  using assms
  by (simp_all add: accessM_def readM_def writeM_def firstM_def bindM_def split: option.split)

lemma run_transaction_ok:
  "m st = (Inr x, st') \<Longrightarrow> db_faults st' = [] \<Longrightarrow> transactionM m st = (Inr x, st')"
  by (simp add: transactionM_def bindM_def)

lemma run_transaction_fail:
  "m st = (Inl e, st') \<Longrightarrow> transactionM m st = (Inl e, st\<lparr>db_faults := db_faults st'\<rparr>)"
  by (simp add: transactionM_def bindM_def)


subsection \<open>Invariants of programs\<close>

text \<open>\<open>keeps P m\<close>: the program keeps \<open>P\<close>, whatever fails.\<close>

definition keeps :: "(store \<Rightarrow> bool) \<Rightarrow> 'a db \<Rightarrow> bool" where
  "keeps P m \<longleftrightarrow> (\<forall>st. P st \<longrightarrow> P (snd (m st)))"

text \<open>Predicates that do not depend on the list of faults.\<close>

definition faultless :: "(store \<Rightarrow> bool) \<Rightarrow> bool" where
  "faultless P \<longleftrightarrow> (\<forall>st fs. P (st\<lparr>db_faults := fs\<rparr>) = P st)"

lemma keepsI: "(\<And>st. P st \<Longrightarrow> P (snd (m st))) \<Longrightarrow> keeps P m"
  by (simp add: keeps_def)

lemma keepsD: "keeps P m \<Longrightarrow> P st \<Longrightarrow> m st = (r, st') \<Longrightarrow> P st'"
  by (metis keeps_def snd_conv)

lemma keeps_return [keeps_intros]: "keeps P (returnM x)" "keeps P (failM e)" "keeps P (getsM f)"
  by (simp_all add: keeps_def)

lemma keeps_modify: "(\<And>st. P st \<Longrightarrow> P (f st)) \<Longrightarrow> keeps P (modifyM f)"
  by (simp add: keeps_def)

lemma keeps_bind [keeps_intros]: "keeps P m \<Longrightarrow> (\<And>x. keeps P (f x)) \<Longrightarrow> keeps P (bindM m f)"
  by (auto simp: keeps_def bindM_def split: prod.splits sum.splits)

lemma keeps_catch [keeps_intros]:
  "keeps P m \<Longrightarrow> (\<And>e. keeps P (h e)) \<Longrightarrow> (\<And>x. keeps P (f x)) \<Longrightarrow> keeps P (catchM m h f)"
  by (auto simp: keeps_def catchM_def split: prod.splits sum.splits)

lemma keeps_if [keeps_intros]: "(b \<Longrightarrow> keeps P m) \<Longrightarrow> (\<not> b \<Longrightarrow> keeps P m') \<Longrightarrow> keeps P (if b then m else m')"
  by simp

lemma keeps_case_option [keeps_intros]:
  "keeps P m \<Longrightarrow> (\<And>x. r = Some x \<Longrightarrow> keeps P (f x)) \<Longrightarrow> keeps P (case r of None \<Rightarrow> m | Some x \<Rightarrow> f x)"
  by (cases r) simp_all

lemma keeps_access [keeps_intros]: "faultless P \<Longrightarrow> keeps P accessM"
  by (auto simp: keeps_def accessM_def faultless_def split: list.splits)

lemma keeps_read [keeps_intros]: "faultless P \<Longrightarrow> keeps P (readM f)"
  unfolding readM_def by (intro keeps_intros)

lemma keeps_write: "faultless P \<Longrightarrow> (\<And>st. P st \<Longrightarrow> P (f st)) \<Longrightarrow> keeps P (writeM f)"
  unfolding writeM_def by (intro keeps_intros keeps_modify)

lemma keeps_first [keeps_intros]: "faultless P \<Longrightarrow> keeps P (firstM f)"
  unfolding firstM_def by (intro keeps_intros)

lemma keeps_transaction [keeps_intros]: "faultless P \<Longrightarrow> keeps P m \<Longrightarrow> keeps P (transactionM m)"
proof (rule keepsI)
  fix st
  assume "faultless P" "keeps P m" "P st"
  moreover have "keeps P (bindM m (\<lambda>x. bindM accessM (\<lambda>_. returnM x)))"
    using calculation(1,2) by (intro keeps_intros)
  ultimately show "P (snd (transactionM m st))"
    by (auto simp: transactionM_def faultless_def keeps_def split: prod.splits sum.splits)
qed

lemma keeps_for [keeps_intros]: "(\<And>x. x \<in> set xs \<Longrightarrow> keeps P (f x)) \<Longrightarrow> keeps P (forM xs f)"
proof (induction xs)
  case (Cons x xs)
  then show ?case
    unfolding forM.simps by (intro keeps_bind) auto
qed (simp add: keeps_intros)

end
