(* ===== verification/GoCalendar.thy ===== *)
theory GoCalendar
  imports Main
begin

text \<open>
  The Gregorian calendar of Go's package \<open>time\<close>, as far as the server uses it: times in seconds since
  1970, days, months and years in a zone with a fixed offset, \<open>time.Date\<close> and \<open>AddDate\<close>.

  The year of a day is found by counting up from an estimate; \<open>year_of_days\<close> is characterized by
  \<open>year_of_bounds\<close>, and month and day by \<open>civil_of_days\<close> and \<open>days_of_civil\<close>.
\<close>

definition leaps_before :: "int \<Rightarrow> int" where
  "leaps_before y = (y - 1) div 4 - (y - 1) div 100 + (y - 1) div 400"

definition is_leap :: "int \<Rightarrow> bool" where
  "is_leap y \<longleftrightarrow> y mod 4 = 0 \<and> (y mod 100 \<noteq> 0 \<or> y mod 400 = 0)"

text \<open>Days from 1970-01-01 to the first day of a year.\<close>

definition days_to_year :: "int \<Rightarrow> int" where
  "days_to_year y = 365 * (y - 1970) + leaps_before y - leaps_before 1970"

lemma div_step: "0 < k \<Longrightarrow> y div k - (y - 1) div k = (if y mod k = 0 then 1 else (0::int))"
proof -
  assume k: "0 < k"
  show ?thesis
  proof (cases "y mod k = 0")
    case True
    then obtain q where "y = k * q"
      by (auto simp: mod_eq_0_iff_dvd)
    moreover have "(k * q - 1) div k = q - 1"
      using k by (intro int_div_pos_eq [where r = "k - 1"]) (simp_all add: algebra_simps)
    ultimately show ?thesis
      using k by simp
  next
    case False
    have "y - 1 = k * (y div k) + (y mod k - 1)"
      by (simp add: algebra_simps)
    moreover have "0 \<le> y mod k - 1" "y mod k - 1 < k"
      using False k pos_mod_sign [of k y] pos_mod_bound [of k y] by linarith+
    ultimately have "(y - 1) div k = y div k"
      by (rule int_div_pos_eq)
    then show ?thesis
      using False by simp
  qed
qed

lemma leap_count:
  "(c \<longrightarrow> b) \<Longrightarrow> (b \<longrightarrow> a) \<Longrightarrow>
     (if a then 1 else 0) - (if b then 1 else 0) + (if c then 1 else 0) = (if a \<and> (\<not> b \<or> c) then 1 else (0::int))"
  by (cases a; cases b; cases c) simp_all

lemma leaps_step:
  "leaps_before (y + 1) - leaps_before y = (if is_leap y then 1 else 0)"
proof -
  have dvd: "(4::int) dvd 100" "(100::int) dvd 400"
    by simp_all
  have mods: "y mod 100 = 0 \<Longrightarrow> y mod 4 = 0" "y mod 400 = 0 \<Longrightarrow> y mod 100 = 0"
    unfolding mod_eq_0_iff_dvd using dvd_trans [OF dvd(1)] dvd_trans [OF dvd(2)] by blast+
  have "leaps_before (y + 1) - leaps_before y =
      (y div 4 - (y - 1) div 4) - (y div 100 - (y - 1) div 100) + (y div 400 - (y - 1) div 400)"
    unfolding leaps_before_def add_diff_cancel_right' by linarith
  also have "\<dots> = (if y mod 4 = 0 then 1 else 0) - (if y mod 100 = 0 then 1 else 0) + (if y mod 400 = 0 then 1 else 0)"
    by (simp only: div_step zero_less_numeral)
  also have "\<dots> = (if is_leap y then 1 else 0)"
    unfolding is_leap_def using mods by (intro leap_count) blast+
  finally show ?thesis .
qed

lemma year_length: "days_to_year (y + 1) = days_to_year y + (if is_leap y then 366 else 365)"
  using leaps_step [of y] by (cases "is_leap y") (simp_all add: days_to_year_def)

lemma days_to_year_mono: "y < z \<Longrightarrow> days_to_year y + 365 \<le> days_to_year z"
proof (induction z rule: int_gr_induct)
  case base
  then show ?case
    using year_length [of y] by simp
next
  case (step i)
  then show ?case
    using year_length [of i] by (simp split: if_splits)
qed

function year_from :: "int \<Rightarrow> int \<Rightarrow> int" where
  "year_from y d = (if days_to_year (y + 1) \<le> d then year_from (y + 1) d else y)"
  by pat_completeness auto
termination
  by (relation "measure (\<lambda>(y, d). nat (d - days_to_year y))")
    (use year_length in \<open>auto split: if_splits\<close>)

declare year_from.simps [simp del]

definition year_of_days :: "int \<Rightarrow> int" where
  "year_of_days d = year_from (1970 + (if 0 \<le> d then d div 366 else d div 365 - 1)) d"


lemma year_from_bounds:
  "days_to_year y \<le> d \<Longrightarrow> days_to_year (year_from y d) \<le> d \<and> d < days_to_year (year_from y d + 1)"
proof (induction y d rule: year_from.induct)
  case (1 y d)
  then show ?case
    by (subst (1 2) year_from.simps) auto
qed

lemma days_to_year_estimate:
  "days_to_year (1970 + int k) \<le> 366 * int k" "days_to_year (1970 - int k) \<le> - 365 * int k"
proof -
  have start: "days_to_year 1970 = 0"
    by (simp add: days_to_year_def)
  show "days_to_year (1970 + int k) \<le> 366 * int k"
  proof (induction k)
    case (Suc k)
    then show ?case
      using year_length [of "1970 + int k"] by (simp add: algebra_simps split: if_splits)
  qed (simp add: start)
  show "days_to_year (1970 - int k) \<le> - 365 * int k"
  proof (induction k)
    case (Suc k)
    then show ?case
      using year_length [of "1970 - int (Suc k)"] by (simp add: algebra_simps split: if_splits)
  qed (simp add: start)
qed

lemma year_of_bounds: "days_to_year (year_of_days d) \<le> d \<and> d < days_to_year (year_of_days d + 1)"
proof -
  have "days_to_year (1970 + (if 0 \<le> d then d div 366 else d div 365 - 1)) \<le> d"
  proof (cases "0 \<le> d")
    case True
    then have "366 * (d div 366) \<le> d" "d div 366 = int (nat (d div 366))"
      using mult_div_mod_eq [of 366 d] by (simp_all add: pos_imp_zdiv_nonneg_iff)
    then show ?thesis
      using True days_to_year_estimate(1) [of "nat (d div 366)"] by simp
  next
    case False
    define k where "k = nat (1 - d div 365)"
    have "d div 365 < 0"
      using False by (simp add: pos_imp_zdiv_neg_iff)
    then have k: "d div 365 - 1 = - int k"
      by (simp add: k_def)
    have "365 * (d div 365) + d mod 365 = d" "d mod 365 < 365"
      by simp_all
    then have "- 365 * int k \<le> d"
      using k by linarith
    then show ?thesis
      using False days_to_year_estimate(2) [of k] by (simp add: k)
  qed
  then show ?thesis
    unfolding year_of_days_def by (rule year_from_bounds)
qed


subsection \<open>Months and days\<close>

definition month_lengths :: "int \<Rightarrow> int list" where
  "month_lengths y = [31, if is_leap y then 29 else 28, 31, 30, 31, 30, 31, 31, 30, 31, 30, 31]"

text \<open>\<open>time.Date(y, m, d, ...)\<close> as a day; months and days out of range carry over.\<close>

definition date_days :: "int \<Rightarrow> int \<Rightarrow> int \<Rightarrow> int" where
  "date_days y m d =
     (let y' = y + (m - 1) div 12; m' = nat ((m - 1) mod 12)
      in days_to_year y' + sum_list (take m' (month_lengths y')) + (d - 1))"

fun month_of :: "nat \<Rightarrow> int list \<Rightarrow> int \<Rightarrow> nat \<times> int" where
  "month_of m [] r = (m, r)"
| "month_of m (l # ls) r = (if r < l then (m, r) else month_of (Suc m) ls (r - l))"

text \<open>Year, month and day of a day.\<close>

definition civil_of_days :: "int \<Rightarrow> int \<times> int \<times> int" where
  "civil_of_days d =
     (let y = year_of_days d; (m, r) = month_of 0 (month_lengths y) (d - days_to_year y) in (y, int m + 1, r + 1))"

lemma month_of_sum:
  "month_of m ls r = (m', r') \<Longrightarrow> 0 \<le> r \<Longrightarrow> r < sum_list ls \<Longrightarrow>
     m \<le> m' \<and> m' - m < length ls \<and> r = sum_list (take (m' - m) ls) + r' \<and> 0 \<le> r' \<and> r' < ls ! (m' - m)"
proof (induction m ls r rule: month_of.induct)
  case (2 m l ls r)
  show ?case
  proof (cases "r < l")
    case False
    then have "Suc m \<le> m' \<and> m' - Suc m < length ls \<and> r - l = sum_list (take (m' - Suc m) ls) + r' \<and> 0 \<le> r' \<and> r' < ls ! (m' - Suc m)"
      using "2.IH" "2.prems" by simp
    then show ?thesis
      by (auto simp: Suc_diff_Suc [symmetric] dest!: Suc_le_lessD)
  qed (use "2.prems" in auto)
qed simp

lemma sum_month_lengths: "sum_list (month_lengths y) = (if is_leap y then 366 else 365)"
  by (simp add: month_lengths_def)

lemma days_of_civil:
  assumes "civil_of_days d = (y, m, dd)"
  shows "date_days y m dd = d" "1 \<le> m" "m \<le> 12" "1 \<le> dd" "dd \<le> month_lengths y ! nat (m - 1)"
proof -
  have y: "y = year_of_days d" and m: "month_of 0 (month_lengths y) (d - days_to_year y) = (nat (m - 1), dd - 1)"
    and pos: "1 \<le> m"
    using assms by (auto simp: civil_of_days_def Let_def split: prod.splits)
  have "0 \<le> d - days_to_year y" "d - days_to_year y < sum_list (month_lengths y)"
    using year_of_bounds [of d] year_length [of y] by (auto simp: y sum_month_lengths split: if_splits)
  from month_of_sum [OF m this] have *: "nat (m - 1) < 12"
    "d - days_to_year y = sum_list (take (nat (m - 1)) (month_lengths y)) + (dd - 1)" "0 \<le> dd - 1" "dd - 1 < month_lengths y ! nat (m - 1)"
    by (simp_all add: month_lengths_def)
  then have "(m - 1) div 12 = 0" "(m - 1) mod 12 = m - 1"
    using pos by (simp_all add: div_pos_pos_trivial mod_pos_pos_trivial)
  then show "date_days y m dd = d" "1 \<le> m" "m \<le> 12" "1 \<le> dd" "dd \<le> month_lengths y ! nat (m - 1)"
    using * pos by (simp_all add: date_days_def)
qed

lemma date_days_add: "date_days y m (d + k) = date_days y m d + k"
  by (simp add: date_days_def Let_def)

text \<open>The first day of the next month lies a month length after the first of this one.\<close>

lemma next_month:
  assumes "1 \<le> m" "m \<le> 12"
  shows "date_days y (m + 1) 1 = date_days y m 1 + month_lengths y ! nat (m - 1)"
proof -
  have "[1..12] = [1, 2, 3, 4, 5, 6, 7, 8, 9, 10, 11, 12::int]"
    by code_simp
  moreover have "m \<in> set [1..12]"
    using assms by simp
  ultimately have "m \<in> set [1, 2, 3, 4, 5, 6, 7, 8, 9, 10, 11, 12]"
    by metis
  then show ?thesis
    using year_length [of y] by (auto simp: date_days_def month_lengths_def)
qed

lemma next_month_later:
  assumes "civil_of_days d = (y, m, dd)"
  shows "d < date_days y (m + 1) 1"
  using days_of_civil [OF assms] next_month [of m y] date_days_add [of y m 1 "dd - 1"] by simp

end
