(* ===== verification/Subscriptions.thy ===== *)
theory Subscriptions
  imports GoStore GoCalendar
begin

text \<open>
  Subscriptions (model/subscription.go and model/team_subscription.go): plans with a duration and a
  period after which the quota starts again, groups of users that follow from their active
  subscriptions, and the accounting of used quota with records that make it idempotent per request.

  Durations are added without overflow. The plan cache is not modelled: plans are read from their
  table. Messages that are not in ASCII are represented by English texts.
\<close>

subsection \<open>Times\<close>

definition day_of :: "int \<Rightarrow> int \<Rightarrow> int" where
  "day_of zone t = (t + zone) div 86400"

definition midnight :: "int \<Rightarrow> int \<Rightarrow> int" where
  "midnight zone d = d * 86400 - zone"

text \<open>\<open>t.AddDate(years, months, days)\<close>.\<close>

definition AddDate :: "int \<Rightarrow> int \<Rightarrow> int \<Rightarrow> int \<Rightarrow> int \<Rightarrow> int" where
  "AddDate zone t years months days =
     (let (y, m, d) = civil_of_days (day_of zone t)
      in midnight zone (date_days (y + years) (m + months) (d + days)) + (t + zone) mod 86400)"

text \<open>\<open>t.Weekday()\<close>, with Sunday as 0; 1970-01-01 was a Thursday.\<close>

definition Weekday :: "int \<Rightarrow> int \<Rightarrow> int" where
  "Weekday zone t = (day_of zone t + 4) mod 7"

definition calcPlanEndTime :: "int \<Rightarrow> int \<Rightarrow> SubscriptionPlan \<Rightarrow> jstr + int" where
  "calcPlanEndTime zone start plan =
     (if pl_DurationValue plan \<le> 0 \<and> pl_DurationUnit plan \<noteq> str ''custom'' then Inl (str ''duration_value must be > 0'')
      else if pl_DurationUnit plan = str ''year'' then Inr (AddDate zone start (pl_DurationValue plan) 0 0)
      else if pl_DurationUnit plan = str ''month'' then Inr (AddDate zone start 0 (pl_DurationValue plan) 0)
      else if pl_DurationUnit plan = str ''day'' then Inr (start + pl_DurationValue plan * 86400)
      else if pl_DurationUnit plan = str ''hour'' then Inr (start + pl_DurationValue plan * 3600)
      else if pl_DurationUnit plan = str ''custom'' then
        (if pl_CustomSeconds plan \<le> 0 then Inl (str ''custom_seconds must be > 0'')
         else Inr (start + pl_CustomSeconds plan))
      else Inl (str ''invalid duration_unit: '' @ pl_DurationUnit plan))"

definition NormalizeResetPeriod :: "jstr \<Rightarrow> jstr" where
  "NormalizeResetPeriod period =
     (if TrimSpace period \<in> {str ''daily'', str ''weekly'', str ''monthly'', str ''custom''} then TrimSpace period
      else str ''never'')"

definition next_reset :: "int \<Rightarrow> int \<Rightarrow> SubscriptionPlan \<Rightarrow> int option" where
  "next_reset zone base plan =
     (let period = NormalizeResetPeriod (pl_QuotaResetPeriod plan); d = day_of zone base
      in if period = str ''daily'' then Some (midnight zone (d + 1))
         else if period = str ''weekly'' then
           (let w = Weekday zone base; weekday = (if w = 0 then 7 else w) in Some (midnight zone (d + (8 - weekday))))
         else if period = str ''monthly'' then
           (let (y, m, _) = civil_of_days d in Some (midnight zone (date_days y (m + 1) 1)))
         else if period = str ''custom'' then
           (if pl_QuotaResetCustomSeconds plan \<le> 0 then None else Some (base + pl_QuotaResetCustomSeconds plan))
         else None)"

definition calcNextResetTime :: "int \<Rightarrow> int \<Rightarrow> SubscriptionPlan \<Rightarrow> int \<Rightarrow> int" where
  "calcNextResetTime zone base plan endUnix =
     (case next_reset zone base plan of
        None \<Rightarrow> 0
      | Some n \<Rightarrow> if 0 < endUnix \<and> endUnix < n then 0 else n)"

lemma midnight_next: "base < midnight zone (day_of zone base + k)" if "1 \<le> k"
proof -
  have "base + zone = (base + zone) div 86400 * 86400 + (base + zone) mod 86400" "(base + zone) mod 86400 < 86400"
    by simp_all
  then show ?thesis
    using that unfolding midnight_def day_of_def by (simp add: algebra_simps)
qed

text \<open>The next reset lies ahead, so that the loop over missed resets ends.\<close>

lemma next_reset_later: "next_reset zone base plan = Some n \<Longrightarrow> base < n"
proof -
  assume n: "next_reset zone base plan = Some n"
  obtain y m dd where civil: "civil_of_days (day_of zone base) = (y, m, dd)"
    using prod_cases3 by blast
  have month: "base < midnight zone (date_days y (m + 1) 1)"
    using midnight_next [of "date_days y (m + 1) 1 - day_of zone base" base zone] next_month_later [OF civil] by simp
  have "0 \<le> Weekday zone base" "Weekday zone base < 7"
    by (simp_all add: Weekday_def)
  then show ?thesis
    using n month midnight_next [of _ base zone]
    by (auto simp: next_reset_def Let_def civil split: if_splits)
qed

lemma calcNextResetTime_later: "0 < calcNextResetTime zone base plan e \<Longrightarrow> base < calcNextResetTime zone base plan e"
  by (auto simp: calcNextResetTime_def dest: next_reset_later split: option.splits if_splits)

function advance_reset :: "int \<Rightarrow> SubscriptionPlan \<Rightarrow> int \<Rightarrow> int \<Rightarrow> int \<Rightarrow> int \<Rightarrow> int \<times> int" where
  "advance_reset zone plan e now base n =
     (if 0 < n \<and> n \<le> now then advance_reset zone plan e now n (calcNextResetTime zone n plan e) else (base, n))"
  by pat_completeness auto
termination
proof (relation "measure (\<lambda>(zone, plan, e, now, base, n). nat (if 0 < n then now + 1 - n else 0))")
  fix zone plan e now base n
  assume "0 < n \<and> n \<le> (now :: int)"
  then show "((zone, plan, e, now, n, calcNextResetTime zone n plan e), zone, plan, e, now, base, n)
      \<in> measure (\<lambda>(zone, plan, e, now, base, n). nat (if 0 < n then now + 1 - n else 0))"
    using calcNextResetTime_later [of zone n plan e] by auto
qed simp

declare advance_reset.simps [simp del]

text \<open>The row after the resets that are due, and whether it has to be saved.\<close>

definition due_reset :: "int \<Rightarrow> SubscriptionPlan \<Rightarrow> int \<Rightarrow> UserSubscription \<Rightarrow> UserSubscription option" where
  "due_reset zone plan now sub =
     (if 0 < sb_NextResetTime sub \<and> now < sb_NextResetTime sub then None
      else if NormalizeResetPeriod (pl_QuotaResetPeriod plan) = str ''never'' then None
      else let baseUnix = (if sb_LastResetTime sub \<le> 0 then sb_StartTime sub else sb_LastResetTime sub);
               first = calcNextResetTime zone baseUnix plan (sb_EndTime sub);
               (base, n) = advance_reset zone plan (sb_EndTime sub) now baseUnix first
           in if 0 < first \<and> first \<le> now
              then Some (sub\<lparr>sb_AmountUsed := 0, sb_LastResetTime := base, sb_NextResetTime := n\<rparr>)
              else if sb_NextResetTime sub = 0 \<and> 0 < n
              then Some (sub\<lparr>sb_NextResetTime := n, sb_LastResetTime := base\<rparr>)
              else None)"

definition save_sub :: "UserSubscription \<Rightarrow> store \<Rightarrow> store" where
  "save_sub sub st = st\<lparr>db_subs := map (\<lambda>s. if sb_Id s = sb_Id sub then sub else s) (db_subs st)\<rparr>"

definition maybeResetUserSubscriptionWithPlanTx :: "UserSubscription \<Rightarrow> SubscriptionPlan \<Rightarrow> int \<Rightarrow> UserSubscription db" where
  "maybeResetUserSubscriptionWithPlanTx sub plan now =
     bindM (getsM db_zone) (\<lambda>zone.
       case due_reset zone plan now sub of
         None \<Rightarrow> returnM sub
       | Some sub' \<Rightarrow> bindM (writeM (save_sub sub')) (\<lambda>_. returnM sub'))"

definition getSubscriptionPlanByIdTx :: "int \<Rightarrow> SubscriptionPlan db" where
  "getSubscriptionPlanByIdTx i =
     (if i \<le> 0 then failM (str ''invalid plan id'') else firstM (\<lambda>st. find (\<lambda>p. pl_Id p = i) (db_plans st)))"


subsection \<open>Accounting\<close>

record SubscriptionPreConsumeResult =
  rs_UserSubscriptionId :: int
  rs_PreConsumed :: int
  rs_AmountTotal :: int
  rs_AmountUsedBefore :: int
  rs_AmountUsedAfter :: int

definition find_record :: "jstr \<Rightarrow> store \<Rightarrow> SubscriptionPreConsumeRecord option" where
  "find_record requestId st = find (\<lambda>r. pr_RequestId r = requestId) (db_records st)"

definition find_sub :: "int \<Rightarrow> store \<Rightarrow> UserSubscription option" where
  "find_sub i st = find (\<lambda>s. sb_Id s = i) (db_subs st)"

definition already_refunded :: jstr where
  "already_refunded = str ''subscription pre-consume already refunded''"

definition consumed_result :: "UserSubscription \<Rightarrow> int \<Rightarrow> SubscriptionPreConsumeResult" where
  "consumed_result sub amount =
     \<lparr>rs_UserSubscriptionId = sb_Id sub, rs_PreConsumed = amount, rs_AmountTotal = sb_AmountTotal sub,
      rs_AmountUsedBefore = sb_AmountUsed sub, rs_AmountUsedAfter = sb_AmountUsed sub\<rparr>"

text \<open>
  One row: create the record of the request and add the amount. When the record cannot be created
  and there is one already, that one is the result.
\<close>

definition consume_from :: "jstr \<Rightarrow> int \<Rightarrow> int \<Rightarrow> UserSubscription \<Rightarrow> SubscriptionPreConsumeResult db" where
  "consume_from requestId userId amount sub =
     catchM (writeM (\<lambda>st. st\<lparr>db_records := db_records st @
         [\<lparr>pr_RequestId = requestId, pr_UserId = userId, pr_UserSubscriptionId = sb_Id sub, pr_PreConsumed = amount,
           pr_Status = str ''consumed'', pr_UpdatedAt = db_now st\<rparr>]\<rparr>))
       (\<lambda>e. catchM (firstM (find_record requestId)) (\<lambda>_. failM e)
          (\<lambda>dup. if pr_Status dup = str ''refunded'' then failM already_refunded
                 else returnM (consumed_result sub (pr_PreConsumed dup))))
       (\<lambda>_. bindM (writeM (save_sub (sub\<lparr>sb_AmountUsed := sb_AmountUsed sub + amount\<rparr>))) (\<lambda>_.
          returnM ((consumed_result sub amount)\<lparr>rs_AmountUsedAfter := sb_AmountUsed sub + amount\<rparr>)))"

fun consume_candidates ::
    "jstr \<Rightarrow> (UserSubscription \<Rightarrow> int) \<Rightarrow> int \<Rightarrow> int \<Rightarrow> jstr \<Rightarrow> UserSubscription list \<Rightarrow> SubscriptionPreConsumeResult db" where
  "consume_candidates requestId owner amount now insufficient [] = failM (insufficient @ Itoa amount)"
| "consume_candidates requestId owner amount now insufficient (candidate # rest) =
     bindM (getSubscriptionPlanByIdTx (sb_PlanId candidate)) (\<lambda>plan.
     bindM (maybeResetUserSubscriptionWithPlanTx candidate plan now) (\<lambda>sub.
       if 0 < sb_AmountTotal sub \<and> sb_AmountTotal sub - sb_AmountUsed sub < amount
       then consume_candidates requestId owner amount now insufficient rest
       else consume_from requestId (owner sub) amount sub))"

text \<open>Rows ordered by \<open>end_time asc, id asc\<close>.\<close>

definition soonest_first :: "UserSubscription list \<Rightarrow> UserSubscription list" where
  "soonest_first subs = sort_key sb_EndTime (sort_key sb_Id subs)"

definition active_at :: "int \<Rightarrow> UserSubscription \<Rightarrow> bool" where
  "active_at now sub \<longleftrightarrow> sb_Status sub = str ''active'' \<and> now < sb_EndTime sub"

definition pre_consume ::
    "(UserSubscription \<Rightarrow> bool) \<Rightarrow> (UserSubscription \<Rightarrow> int) \<Rightarrow> jstr \<Rightarrow> jstr \<Rightarrow> jstr \<Rightarrow> int \<Rightarrow> SubscriptionPreConsumeResult db" where
  "pre_consume owned owner none insufficient requestId amount =
     bindM (getsM db_now) (\<lambda>now.
     transactionM (
       bindM (readM (find_record requestId)) (\<lambda>existing.
       case existing of
         Some r \<Rightarrow>
           if pr_Status r = str ''refunded'' then failM already_refunded
           else bindM (firstM (find_sub (pr_UserSubscriptionId r))) (\<lambda>sub. returnM (consumed_result sub (pr_PreConsumed r)))
       | None \<Rightarrow>
           catchM (readM (\<lambda>st. soonest_first (filter (\<lambda>s. owned s \<and> active_at now s) (db_subs st))))
             (\<lambda>_. failM none)
             (\<lambda>subs. if subs = [] then failM none
                     else consume_candidates requestId owner amount now insufficient subs))))"

definition PreConsumeUserSubscription :: "jstr \<Rightarrow> int \<Rightarrow> int \<Rightarrow> SubscriptionPreConsumeResult db" where
  "PreConsumeUserSubscription requestId userId amount =
     (if userId \<le> 0 then failM (str ''invalid userId'')
      else if TrimSpace requestId = [] then failM (str ''requestId is empty'')
      else if amount \<le> 0 then failM (str ''amount must be > 0'')
      else pre_consume (\<lambda>s. sb_UserId s = userId \<and> sb_TeamId s = 0) (\<lambda>_. userId) (str ''no active subscription'')
             (str ''subscription quota insufficient, need='') requestId amount)"

definition PreConsumeTeamSubscription :: "jstr \<Rightarrow> int \<Rightarrow> int \<Rightarrow> SubscriptionPreConsumeResult db" where
  "PreConsumeTeamSubscription requestId teamId amount =
     (if teamId \<le> 0 then failM (str ''invalid teamId'')
      else if TrimSpace requestId = [] then failM (str ''requestId is empty'')
      else if amount \<le> 0 then failM (str ''amount must be > 0'')
      else pre_consume (\<lambda>s. sb_TeamId s = teamId) sb_UserId (str ''no active team subscription'')
             (str ''team subscription quota insufficient, need='') requestId amount)"

definition PostConsumeUserSubscriptionDelta :: "int \<Rightarrow> int \<Rightarrow> unit db" where
  "PostConsumeUserSubscriptionDelta userSubscriptionId delta =
     (if userSubscriptionId \<le> 0 then failM (str ''invalid userSubscriptionId'')
      else if delta = 0 then returnM ()
      else transactionM (
        bindM (firstM (find_sub userSubscriptionId)) (\<lambda>sub.
          let newUsed = (if sb_AmountUsed sub + delta < 0 then 0 else sb_AmountUsed sub + delta)
          in if 0 < sb_AmountTotal sub \<and> sb_AmountTotal sub < newUsed
             then failM (str ''subscription used exceeds total, used='' @ Itoa newUsed @ str '' total='' @ Itoa (sb_AmountTotal sub))
             else writeM (save_sub (sub\<lparr>sb_AmountUsed := newUsed\<rparr>)))))"

definition mark_refunded :: "jstr \<Rightarrow> store \<Rightarrow> store" where
  "mark_refunded requestId st =
     st\<lparr>db_records := map (\<lambda>r. if pr_RequestId r = requestId then r\<lparr>pr_Status := str ''refunded'', pr_UpdatedAt := db_now st\<rparr> else r) (db_records st)\<rparr>"

text \<open>
  The change of the subscription runs in a transaction of its own, which the failure of the outer one
  does not undo: that one takes back the record only.
\<close>

definition records_transactionM :: "unit db \<Rightarrow> unit db" where
  "records_transactionM m st =
     (case bindM m (\<lambda>x. bindM accessM (\<lambda>_. returnM x)) st of
        (Inl e, st') \<Rightarrow> (Inl e, st'\<lparr>db_records := db_records st\<rparr>)
      | r \<Rightarrow> r)"

definition RefundSubscriptionPreConsume :: "jstr \<Rightarrow> unit db" where
  "RefundSubscriptionPreConsume requestId =
     (if TrimSpace requestId = [] then failM (str ''requestId is empty'')
      else records_transactionM (
        bindM (firstM (find_record requestId)) (\<lambda>r.
          if pr_Status r = str ''refunded'' then returnM ()
          else if pr_PreConsumed r \<le> 0 then writeM (mark_refunded requestId)
          else bindM (PostConsumeUserSubscriptionDelta (pr_UserSubscriptionId r) (- pr_PreConsumed r)) (\<lambda>_.
                 writeM (mark_refunded requestId)))))"

text \<open>The number of deleted records is not returned.\<close>

definition CleanupSubscriptionPreConsumeRecords :: "int \<Rightarrow> unit db" where
  "CleanupSubscriptionPreConsumeRecords olderThanSeconds =
     bindM (getsM db_now) (\<lambda>now.
       let cutoff = now - (if olderThanSeconds \<le> 0 then 7 * 24 * 3600 else olderThanSeconds)
       in writeM (\<lambda>st. st\<lparr>db_records := filter (\<lambda>r. \<not> pr_UpdatedAt r < cutoff) (db_records st)\<rparr>))"


subsection \<open>Groups\<close>

definition parsePremiumGroups :: "jstr \<Rightarrow> jstr list" where
  "parsePremiumGroups premium =
     (let raw = TrimSpace premium in if raw = [] then [] else filter (\<lambda>t. t \<noteq> []) (map TrimSpace (split_on 44 raw)))"

text \<open>\<open>strings.EqualFold\<close> folds the long s and the Kelvin sign as well.\<close>

definition fold_unit :: "int \<Rightarrow> int" where
  "fold_unit c = (if c = 383 then 115 else if c = 8490 then 107 else to_lower_unit c)"

definition EqualFold :: "jstr \<Rightarrow> jstr \<Rightarrow> bool" where
  "EqualFold s t \<longleftrightarrow> map fold_unit s = map fold_unit t"

definition groupRank :: "jstr \<Rightarrow> jstr list \<Rightarrow> nat" where
  "groupRank grp ranks =
     (let norm = to_lower (TrimSpace grp)
      in if norm = [] then 2 ^ 30
         else case find_index (\<lambda>r. EqualFold (TrimSpace r) norm) ranks of Some i \<Rightarrow> i | None \<Rightarrow> length ranks)"

definition resolveUserGroupOnBuy :: "jstr \<Rightarrow> jstr \<Rightarrow> jstr \<Rightarrow> jstr" where
  "resolveUserGroupOnBuy premium currentGroup incoming =
     (let current = TrimSpace currentGroup; next = TrimSpace incoming; ranks = parsePremiumGroups premium
      in if next = [] then current
         else if current = [] \<or> EqualFold current (str ''default'') then next
         else if groupRank next ranks < groupRank current ranks then next else current)"

text \<open>The loop keeps the first of the best ranked groups; the empty text stands for none.\<close>

definition better_group :: "jstr list \<Rightarrow> jstr \<Rightarrow> jstr \<Rightarrow> jstr" where
  "better_group ranks best g =
     (let t = TrimSpace g
      in if t = [] then best
         else if best = [] \<or> groupRank t ranks < groupRank best ranks then t else best)"

definition resolveUserGroupFromActive :: "jstr \<Rightarrow> jstr list \<Rightarrow> jstr" where
  "resolveUserGroupFromActive premium activeGroups =
     (let best = foldl (better_group (parsePremiumGroups premium)) [] activeGroups
      in if best = [] then str ''default'' else best)"

definition getUserGroupByIdTx :: "int \<Rightarrow> jstr db" where
  "getUserGroupByIdTx userId =
     (if userId \<le> 0 then failM (str ''invalid userId'')
      else readM (\<lambda>st. case find (\<lambda>u. us_Id u = userId) (db_users st) of None \<Rightarrow> [] | Some u \<Rightarrow> us_Group u))"

definition upgrade_groups :: "int \<Rightarrow> int \<Rightarrow> int \<Rightarrow> store \<Rightarrow> jstr list" where
  "upgrade_groups userId now excludeSubId st =
     remdups (map sb_UpgradeGroup (filter (\<lambda>s. sb_UserId s = userId \<and> sb_TeamId s = 0 \<and> active_at now s
        \<and> sb_UpgradeGroup s \<noteq> [] \<and> (0 < excludeSubId \<longrightarrow> sb_Id s \<noteq> excludeSubId)) (db_subs st)))"

definition listActiveUpgradeGroupsTx :: "int \<Rightarrow> int \<Rightarrow> int \<Rightarrow> jstr list db" where
  "listActiveUpgradeGroupsTx userId now excludeSubId = readM (upgrade_groups userId now excludeSubId)"

definition GetActiveUpgradeGroups :: "int \<Rightarrow> jstr list db" where
  "GetActiveUpgradeGroups userId =
     (if userId \<le> 0 then failM (str ''invalid userId'')
      else bindM (getsM db_now) (\<lambda>now. readM (upgrade_groups userId now 0)))"

definition set_user_group :: "int \<Rightarrow> jstr \<Rightarrow> store \<Rightarrow> store" where
  "set_user_group userId grp st = st\<lparr>db_users := map (\<lambda>u. if us_Id u = userId then u\<lparr>us_Group := grp\<rparr> else u) (db_users st)\<rparr>"

definition UpdateUserGroupCache :: "int \<Rightarrow> jstr \<Rightarrow> store \<Rightarrow> store" where
  "UpdateUserGroupCache userId grp st = st\<lparr>db_group_cache := (userId, grp) # filter (\<lambda>p. fst p \<noteq> userId) (db_group_cache st)\<rparr>"

text \<open>The new group of the user, or the empty text where it stays.\<close>

definition recompute_group :: "int \<Rightarrow> int \<Rightarrow> int \<Rightarrow> jstr db" where
  "recompute_group userId now excludeSubId =
     bindM (getUserGroupByIdTx userId) (\<lambda>currentGroup.
     bindM (listActiveUpgradeGroupsTx userId now excludeSubId) (\<lambda>remaining.
     bindM (getsM db_premium) (\<lambda>premium.
       let target = resolveUserGroupFromActive premium remaining
       in if target = currentGroup then returnM []
          else bindM (writeM (set_user_group userId target)) (\<lambda>_. returnM target))))"

definition downgradeUserGroupForSubscriptionTx :: "UserSubscription \<Rightarrow> int \<Rightarrow> jstr db" where
  "downgradeUserGroupForSubscriptionTx sub now =
     (if TrimSpace (sb_UpgradeGroup sub) = [] then returnM [] else recompute_group (sb_UserId sub) now (sb_Id sub))"


subsection \<open>Buying, ending and expiring\<close>

definition purchase_count :: "(UserSubscription \<Rightarrow> bool) \<Rightarrow> int \<Rightarrow> store \<Rightarrow> int" where
  "purchase_count owned planId st = int (length (filter (\<lambda>s. owned s \<and> sb_PlanId s = planId) (db_subs st)))"

definition next_sub_id :: "store \<Rightarrow> int" where
  "next_sub_id st = 1 + Max (insert 0 (set (map sb_Id (db_subs st))))"

definition new_subscription :: "int \<Rightarrow> int \<Rightarrow> SubscriptionPlan \<Rightarrow> jstr \<Rightarrow> int \<Rightarrow> int \<Rightarrow> int \<Rightarrow> jstr \<Rightarrow> UserSubscription" where
  "new_subscription userId teamId plan source now endUnix nextReset prevGroup =
     \<lparr>sb_Id = 0, sb_UserId = userId, sb_TeamId = teamId, sb_PlanId = pl_Id plan, sb_AmountTotal = pl_TotalAmount plan,
      sb_AmountUsed = 0, sb_StartTime = now, sb_EndTime = endUnix, sb_Status = str ''active'', sb_Source = source,
      sb_LastResetTime = (if 0 < nextReset then now else 0), sb_NextResetTime = nextReset,
      sb_UpgradeGroup = TrimSpace (pl_UpgradeGroup plan), sb_PrevUserGroup = prevGroup\<rparr>"

definition create_sub :: "UserSubscription \<Rightarrow> UserSubscription db" where
  "create_sub sub =
     bindM accessM (\<lambda>_. bindM (getsM next_sub_id) (\<lambda>i.
       bindM (modifyM (\<lambda>st. st\<lparr>db_subs := db_subs st @ [sub\<lparr>sb_Id := i\<rparr>]\<rparr>)) (\<lambda>_. returnM (sub\<lparr>sb_Id := i\<rparr>))))"

definition limit_reached :: jstr where
  "limit_reached = str ''purchase limit of the plan reached''"

definition check_limit :: "(UserSubscription \<Rightarrow> bool) \<Rightarrow> SubscriptionPlan \<Rightarrow> unit db" where
  "check_limit owned plan =
     (if 0 < pl_MaxPurchasePerUser plan then
        bindM (readM (purchase_count owned (pl_Id plan))) (\<lambda>n.
          if pl_MaxPurchasePerUser plan \<le> n then failM limit_reached else returnM ())
      else returnM ())"

definition plan_times :: "SubscriptionPlan \<Rightarrow> (int \<times> int \<times> int) db" where
  "plan_times plan =
     bindM (getsM db_now) (\<lambda>now. bindM (getsM db_zone) (\<lambda>zone.
       case calcPlanEndTime zone now plan of
         Inl e \<Rightarrow> failM e
       | Inr endUnix \<Rightarrow> returnM (now, endUnix, calcNextResetTime zone now plan endUnix)))"

text \<open>The group of the user after buying a plan; the result is the group before, where it changes.\<close>

definition upgrade_on_buy :: "int \<Rightarrow> jstr \<Rightarrow> jstr db" where
  "upgrade_on_buy userId upgradeGroup =
     (if upgradeGroup = [] then returnM []
      else bindM (getUserGroupByIdTx userId) (\<lambda>currentGroup.
           bindM (getsM db_premium) (\<lambda>premium.
             let nextGroup = resolveUserGroupOnBuy premium currentGroup upgradeGroup
             in if nextGroup \<noteq> currentGroup
                then bindM (writeM (set_user_group userId nextGroup)) (\<lambda>_. returnM currentGroup)
                else returnM [])))"

definition CreateUserSubscriptionFromPlanTx :: "int \<Rightarrow> SubscriptionPlan \<Rightarrow> jstr \<Rightarrow> UserSubscription db" where
  "CreateUserSubscriptionFromPlanTx userId plan source =
     (if pl_Id plan = 0 then failM (str ''invalid plan'')
      else if userId \<le> 0 then failM (str ''invalid user id'')
      else bindM (check_limit (\<lambda>s. sb_UserId s = userId \<and> sb_TeamId s = 0) plan) (\<lambda>_.
           bindM (plan_times plan) (\<lambda>(now, endUnix, nextReset).
           bindM (upgrade_on_buy userId (TrimSpace (pl_UpgradeGroup plan))) (\<lambda>prevGroup.
             create_sub (new_subscription userId 0 plan source now endUnix nextReset prevGroup)))))"

definition CreateTeamSubscriptionFromPlanTx :: "int \<Rightarrow> int \<Rightarrow> SubscriptionPlan \<Rightarrow> jstr \<Rightarrow> UserSubscription db" where
  "CreateTeamSubscriptionFromPlanTx teamId buyerUserId plan source =
     (if pl_Id plan = 0 then failM (str ''invalid plan'')
      else if teamId \<le> 0 then failM (str ''invalid team id'')
      else if buyerUserId \<le> 0 then failM (str ''invalid buyer user id'')
      else bindM (check_limit (\<lambda>s. sb_TeamId s = teamId) plan) (\<lambda>_.
           bindM (plan_times plan) (\<lambda>(now, endUnix, nextReset).
             create_sub (new_subscription buyerUserId teamId plan source now endUnix nextReset []))))"

definition complete_order :: "SubscriptionOrder \<Rightarrow> jstr \<Rightarrow> store \<Rightarrow> store" where
  "complete_order order payload st =
     st\<lparr>db_orders := map (\<lambda>o'. if or_TradeNo o' = or_TradeNo order
         then order\<lparr>or_Status := str ''success'', or_CompleteTime := db_now st,
                or_ProviderPayload := (if payload = [] then or_ProviderPayload order else payload)\<rparr>
         else o') (db_orders st)\<rparr>"

definition new_topup :: "SubscriptionOrder \<Rightarrow> int \<Rightarrow> TopUp" where
  "new_topup order now =
     \<lparr>tu_UserId = or_UserId order, tu_Amount = 0, tu_Money = or_Money order, tu_TradeNo = or_TradeNo order,
      tu_PaymentMethod = or_PaymentMethod order, tu_CreateTime = or_CreateTime order, tu_CompleteTime = now,
      tu_Status = str ''success''\<rparr>"

definition paid_topup :: "SubscriptionOrder \<Rightarrow> int \<Rightarrow> TopUp \<Rightarrow> TopUp" where
  "paid_topup order now t =
     t\<lparr>tu_Money := or_Money order,
       tu_PaymentMethod := (if tu_PaymentMethod t = [] then or_PaymentMethod order else tu_PaymentMethod t),
       tu_CreateTime := (if tu_CreateTime t = 0 then or_CreateTime order else tu_CreateTime t),
       tu_CompleteTime := now, tu_Status := str ''success''\<rparr>"

definition upsertSubscriptionTopUpTx :: "SubscriptionOrder \<Rightarrow> unit db" where
  "upsertSubscriptionTopUpTx order =
     bindM (getsM db_now) (\<lambda>now.
     bindM (readM (\<lambda>st. find (\<lambda>t. tu_TradeNo t = or_TradeNo order) (db_topups st))) (\<lambda>topup.
       case topup of
         None \<Rightarrow> writeM (\<lambda>st. st\<lparr>db_topups := db_topups st @ [new_topup order now]\<rparr>)
       | Some t \<Rightarrow> writeM (\<lambda>st. st\<lparr>db_topups := map (\<lambda>x. if tu_TradeNo x = or_TradeNo order then paid_topup order now t else x) (db_topups st)\<rparr>)))"

text \<open>
  The transaction gives the buyer and the group for the cache, where there is one. The log entry and
  the reward for an invitation that follow are left out.
\<close>

definition CompleteSubscriptionOrder :: "jstr \<Rightarrow> jstr \<Rightarrow> unit db" where
  "CompleteSubscriptionOrder tradeNo providerPayload =
     (if tradeNo = [] then failM (str ''tradeNo is empty'')
      else bindM (transactionM (
        catchM (firstM (\<lambda>st. find (\<lambda>o'. or_TradeNo o' = tradeNo) (db_orders st)))
          (\<lambda>_. failM (str ''subscription order not found''))
          (\<lambda>order.
             if or_Status order = str ''success'' then returnM (0, [])
             else if or_Status order \<noteq> str ''pending'' then failM (str ''subscription order status invalid'')
             else bindM (getSubscriptionPlanByIdTx (or_PlanId order)) (\<lambda>plan.
                  bindM (if 0 < or_TeamId order
                         then CreateTeamSubscriptionFromPlanTx (or_TeamId order) (or_UserId order) plan (str ''order'')
                         else CreateUserSubscriptionFromPlanTx (or_UserId order) plan (str ''order'')) (\<lambda>_.
                  bindM (upsertSubscriptionTopUpTx order) (\<lambda>_.
                  bindM (writeM (complete_order order providerPayload)) (\<lambda>_.
                    returnM (or_UserId order, if 0 < or_TeamId order then [] else TrimSpace (pl_UpgradeGroup plan)))))))))
        (\<lambda>(userId, upgradeGroup).
           if upgradeGroup \<noteq> [] \<and> 0 < userId then modifyM (UpdateUserGroupCache userId upgradeGroup) else returnM ()))"

definition ExpireSubscriptionOrder :: "jstr \<Rightarrow> unit db" where
  "ExpireSubscriptionOrder tradeNo =
     (if tradeNo = [] then failM (str ''tradeNo is empty'')
      else transactionM (
        catchM (firstM (\<lambda>st. find (\<lambda>o'. or_TradeNo o' = tradeNo) (db_orders st)))
          (\<lambda>_. failM (str ''subscription order not found''))
          (\<lambda>order. if or_Status order \<noteq> str ''pending'' then returnM ()
                   else writeM (\<lambda>st. st\<lparr>db_orders := map (\<lambda>o'. if or_TradeNo o' = tradeNo
                          then order\<lparr>or_Status := str ''expired'', or_CompleteTime := db_now st\<rparr> else o') (db_orders st)\<rparr>))))"

definition AdminBindSubscription :: "int \<Rightarrow> int \<Rightarrow> jstr db" where
  "AdminBindSubscription userId planId =
     (if userId \<le> 0 \<or> planId \<le> 0 then failM (str ''invalid userId or planId'')
      else bindM (getSubscriptionPlanByIdTx planId) (\<lambda>plan.
           bindM (transactionM (CreateUserSubscriptionFromPlanTx userId plan (str ''admin''))) (\<lambda>_.
             if TrimSpace (pl_UpgradeGroup plan) \<noteq> []
             then bindM (modifyM (UpdateUserGroupCache userId (pl_UpgradeGroup plan))) (\<lambda>_. returnM (pl_UpgradeGroup plan))
             else returnM [])))"

definition AdminBindTeamSubscription :: "int \<Rightarrow> int \<Rightarrow> int \<Rightarrow> jstr \<Rightarrow> unit db" where
  "AdminBindTeamSubscription teamId buyerUserId planId sourceNote =
     (if teamId \<le> 0 \<or> planId \<le> 0 \<or> buyerUserId \<le> 0 then failM (str ''invalid args'')
      else bindM (getSubscriptionPlanByIdTx planId) (\<lambda>plan.
           bindM (transactionM (CreateTeamSubscriptionFromPlanTx teamId buyerUserId plan
               (if TrimSpace sourceNote = [] then str ''admin'' else sourceNote))) (\<lambda>_. returnM ())))"

definition cancel_sub :: "int \<Rightarrow> int \<Rightarrow> store \<Rightarrow> store" where
  "cancel_sub i now st =
     st\<lparr>db_subs := map (\<lambda>s. if sb_Id s = i then s\<lparr>sb_Status := str ''cancelled'', sb_EndTime := now\<rparr> else s) (db_subs st)\<rparr>"

definition cache_group :: "int \<times> jstr \<Rightarrow> jstr db" where
  "cache_group ug =
     (if snd ug \<noteq> [] \<and> 0 < fst ug
      then bindM (modifyM (UpdateUserGroupCache (fst ug) (snd ug))) (\<lambda>_. returnM (snd ug)) else returnM (snd ug))"

definition AdminInvalidateUserSubscription :: "int \<Rightarrow> jstr db" where
  "AdminInvalidateUserSubscription userSubscriptionId =
     (if userSubscriptionId \<le> 0 then failM (str ''invalid userSubscriptionId'')
      else bindM (getsM db_now) (\<lambda>now.
           bindM (transactionM (
             bindM (firstM (find_sub userSubscriptionId)) (\<lambda>sub.
             bindM (writeM (cancel_sub userSubscriptionId now)) (\<lambda>_.
             bindM (downgradeUserGroupForSubscriptionTx sub now) (\<lambda>target. returnM (sb_UserId sub, target)))))) cache_group))"

definition AdminDeleteUserSubscription :: "int \<Rightarrow> jstr db" where
  "AdminDeleteUserSubscription userSubscriptionId =
     (if userSubscriptionId \<le> 0 then failM (str ''invalid userSubscriptionId'')
      else bindM (getsM db_now) (\<lambda>now.
           bindM (transactionM (
             bindM (firstM (find_sub userSubscriptionId)) (\<lambda>sub.
             bindM (downgradeUserGroupForSubscriptionTx sub now) (\<lambda>target.
             bindM (writeM (\<lambda>st. st\<lparr>db_subs := filter (\<lambda>s. sb_Id s \<noteq> userSubscriptionId) (db_subs st)\<rparr>)) (\<lambda>_.
               returnM (sb_UserId sub, target)))))) cache_group))"

definition AdminInvalidateTeamSubscription :: "int \<Rightarrow> unit db" where
  "AdminInvalidateTeamSubscription userSubscriptionId =
     (if userSubscriptionId \<le> 0 then failM (str ''invalid userSubscriptionId'')
      else bindM (getsM db_now) (\<lambda>now.
           transactionM (
             bindM (firstM (\<lambda>st. find (\<lambda>s. sb_Id s = userSubscriptionId \<and> 0 < sb_TeamId s) (db_subs st))) (\<lambda>sub.
               writeM (cancel_sub userSubscriptionId now)))))"

definition terminate_sub :: "int \<Rightarrow> int \<Rightarrow> jstr \<Rightarrow> store \<Rightarrow> store" where
  "terminate_sub i now source st =
     st\<lparr>db_subs := map (\<lambda>s. if sb_Id s = i
         then s\<lparr>sb_Status := str ''cancelled'', sb_EndTime := now, sb_Source := source\<rparr> else s) (db_subs st)\<rparr>"

definition AdminTerminateTeamSubscriptionForTeam :: "int \<Rightarrow> int \<Rightarrow> int \<Rightarrow> jstr \<Rightarrow> unit db" where
  "AdminTerminateTeamSubscriptionForTeam teamId userSubscriptionId adminUserId reason0 =
     (if teamId \<le> 0 \<or> userSubscriptionId \<le> 0 then failM (str ''invalid args'')
      else let reason = (if reason0 = [] then str ''admin_terminated'' else reason0)
           in bindM (getsM db_now) (\<lambda>now.
                transactionM (
                  bindM (firstM (\<lambda>st. find (\<lambda>s. sb_Id s = userSubscriptionId \<and> sb_TeamId s = teamId) (db_subs st))) (\<lambda>sub.
                    if sb_Status sub \<noteq> str ''active'' then failM (str ''subscription is not active'')
                    else writeM (terminate_sub userSubscriptionId now (str ''admin:'' @ Itoa adminUserId @ 58 # reason))))))"

definition is_due :: "int \<Rightarrow> UserSubscription \<Rightarrow> bool" where
  "is_due now s \<longleftrightarrow> sb_Status s = str ''active'' \<and> 0 < sb_EndTime s \<and> sb_EndTime s \<le> now"

definition expire_rows :: "int \<Rightarrow> int \<Rightarrow> store \<Rightarrow> store" where
  "expire_rows userId now st =
     st\<lparr>db_subs := map (\<lambda>s. if sb_UserId s = userId \<and> is_due now s then s\<lparr>sb_Status := str ''expired''\<rparr> else s) (db_subs st)\<rparr>"

definition expire_user :: "int \<Rightarrow> int \<Rightarrow> unit db" where
  "expire_user now userId =
     bindM (transactionM (
         bindM (writeM (expire_rows userId now)) (\<lambda>_. recompute_group userId now 0)))
       (\<lambda>target. if target \<noteq> [] then modifyM (UpdateUserGroupCache userId target) else returnM ())"

definition due_users :: "nat \<Rightarrow> int \<Rightarrow> store \<Rightarrow> int list" where
  "due_users limit now st =
     remdups (filter (\<lambda>u. 0 < u) (map sb_UserId (take limit (soonest_first (filter (is_due now) (db_subs st))))))"

text \<open>The number of rows that expired is not returned.\<close>

definition ExpireDueSubscriptions :: "int \<Rightarrow> unit db" where
  "ExpireDueSubscriptions limit =
     bindM (getsM db_now) (\<lambda>now.
     bindM (readM (due_users (nat (if limit \<le> 0 then 200 else limit)) now)) (\<lambda>users. forM users (expire_user now)))"

text \<open>A row whose plan cannot be read is skipped.\<close>

definition reset_row :: "int \<Rightarrow> UserSubscription \<Rightarrow> unit db" where
  "reset_row now sub =
     catchM (getSubscriptionPlanByIdTx (sb_PlanId sub)) (\<lambda>_. returnM ()) (\<lambda>plan.
       transactionM (
         catchM (firstM (\<lambda>st. find (\<lambda>s. sb_Id s = sb_Id sub \<and> 0 < sb_NextResetTime s \<and> sb_NextResetTime s \<le> now) (db_subs st)))
           (\<lambda>_. returnM ())
           (\<lambda>locked. bindM (maybeResetUserSubscriptionWithPlanTx locked plan now) (\<lambda>_. returnM ()))))"

definition ResetDueSubscriptions :: "int \<Rightarrow> unit db" where
  "ResetDueSubscriptions limit =
     bindM (getsM db_now) (\<lambda>now.
     bindM (readM (\<lambda>st. take (nat (if limit \<le> 0 then 200 else limit))
         (sort_key sb_NextResetTime (filter (\<lambda>s. 0 < sb_NextResetTime s \<and> sb_NextResetTime s \<le> now \<and> sb_Status s = str ''active'') (db_subs st)))))
       (\<lambda>subs. forM subs (reset_row now)))"


subsection \<open>Queries\<close>

definition HasActiveUserSubscription :: "int \<Rightarrow> bool db" where
  "HasActiveUserSubscription userId =
     (if userId \<le> 0 then failM (str ''invalid userId'')
      else bindM (getsM db_now) (\<lambda>now. readM (\<lambda>st. \<exists>s\<in>set (db_subs st). sb_UserId s = userId \<and> sb_TeamId s = 0 \<and> active_at now s)))"

definition HasActiveTeamSubscription :: "int \<Rightarrow> bool db" where
  "HasActiveTeamSubscription teamId =
     (if teamId \<le> 0 then failM (str ''invalid teamId'')
      else bindM (getsM db_now) (\<lambda>now. readM (\<lambda>st. \<exists>s\<in>set (db_subs st). sb_TeamId s = teamId \<and> active_at now s)))"

definition IsWalletFallbackEnabledForUser :: "int \<Rightarrow> bool db" where
  "IsWalletFallbackEnabledForUser userId =
     (if userId \<le> 0 then returnM False
      else bindM (getsM db_now) (\<lambda>now. readM (\<lambda>st.
             \<exists>s\<in>set (db_subs st). sb_UserId s = userId \<and> sb_TeamId s = 0 \<and> active_at now s
               \<and> (\<exists>p\<in>set (db_plans st). pl_Id p = sb_PlanId s \<and> pl_AllowWalletFallback p))))"

definition GetActiveSubscriptionRemainingQuota :: "int \<Rightarrow> int \<Rightarrow> int db" where
  "GetActiveSubscriptionRemainingQuota userId planId =
     (if userId \<le> 0 \<or> planId \<le> 0 then returnM 0
      else bindM (getsM db_now) (\<lambda>now. readM (\<lambda>st.
             sum_list (map (\<lambda>s. max 0 (sb_AmountTotal s - sb_AmountUsed s))
               (filter (\<lambda>s. sb_UserId s = userId \<and> sb_TeamId s = 0 \<and> sb_PlanId s = planId \<and> active_at now s) (db_subs st))))))"

definition HasActiveSubscriptionForPlan :: "int \<Rightarrow> int \<Rightarrow> bool db" where
  "HasActiveSubscriptionForPlan userId planId =
     (if userId \<le> 0 \<or> planId \<le> 0 then returnM False
      else bindM (getsM db_now) (\<lambda>now. readM (\<lambda>st.
             \<exists>s\<in>set (db_subs st). sb_UserId s = userId \<and> sb_TeamId s = 0 \<and> sb_PlanId s = planId \<and> active_at now s)))"

definition HasActiveTeamSubscriptionForPlan :: "int \<Rightarrow> int \<Rightarrow> bool db" where
  "HasActiveTeamSubscriptionForPlan teamId planId =
     (if teamId \<le> 0 \<or> planId \<le> 0 then returnM False
      else bindM (getsM db_now) (\<lambda>now. readM (\<lambda>st.
             \<exists>s\<in>set (db_subs st). sb_TeamId s = teamId \<and> sb_PlanId s = planId \<and> active_at now s)))"

definition IsWalletFallbackEnabledForTeam :: "int \<Rightarrow> bool db" where
  "IsWalletFallbackEnabledForTeam teamId =
     (if teamId \<le> 0 then returnM False
      else bindM (getsM db_now) (\<lambda>now. readM (\<lambda>st.
             \<exists>s\<in>set (db_subs st). sb_TeamId s = teamId \<and> active_at now s
               \<and> (\<exists>p\<in>set (db_plans st). pl_Id p = sb_PlanId s \<and> pl_AllowWalletFallback p))))"

definition CountUserSubscriptionsByPlan :: "int \<Rightarrow> int \<Rightarrow> int db" where
  "CountUserSubscriptionsByPlan userId planId =
     (if userId \<le> 0 \<or> planId \<le> 0 then failM (str ''invalid userId or planId'')
      else readM (purchase_count (\<lambda>s. sb_UserId s = userId \<and> sb_TeamId s = 0) planId))"

definition CountTeamSubscriptionsByPlan :: "int \<Rightarrow> int \<Rightarrow> int db" where
  "CountTeamSubscriptionsByPlan teamId planId =
     (if teamId \<le> 0 \<or> planId \<le> 0 then failM (str ''invalid teamId or planId'')
      else readM (purchase_count (\<lambda>s. sb_TeamId s = teamId) planId))"

text \<open>Rows ordered by \<open>end_time desc, id desc\<close>.\<close>

definition latest_first :: "UserSubscription list \<Rightarrow> UserSubscription list" where
  "latest_first subs = rev (soonest_first subs)"

definition GetAllActiveUserSubscriptions :: "int \<Rightarrow> UserSubscription list db" where
  "GetAllActiveUserSubscriptions userId =
     (if userId \<le> 0 then failM (str ''invalid userId'')
      else bindM (getsM db_now) (\<lambda>now. readM (\<lambda>st.
             latest_first (filter (\<lambda>s. sb_UserId s = userId \<and> sb_TeamId s = 0 \<and> active_at now s) (db_subs st)))))"

definition GetAllActiveTeamSubscriptions :: "int \<Rightarrow> UserSubscription list db" where
  "GetAllActiveTeamSubscriptions teamId =
     (if teamId \<le> 0 then failM (str ''invalid teamId'')
      else bindM (getsM db_now) (\<lambda>now. readM (\<lambda>st.
             latest_first (filter (\<lambda>s. sb_TeamId s = teamId \<and> active_at now s) (db_subs st)))))"

definition GetActiveTeamSubscriptionGroup :: "int \<Rightarrow> jstr db" where
  "GetActiveTeamSubscriptionGroup teamId =
     (if teamId \<le> 0 then returnM []
      else bindM (getsM db_now) (\<lambda>now.
           catchM (firstM (\<lambda>st. case latest_first (filter (\<lambda>s. sb_TeamId s = teamId \<and> active_at now s) (db_subs st)) of
               [] \<Rightarrow> None | s # _ \<Rightarrow> Some s))
             (\<lambda>_. returnM []) (\<lambda>sub. returnM (TrimSpace (sb_UpgradeGroup sub)))))"

definition GetSubscriptionPlanInfoByUserSubscriptionId :: "int \<Rightarrow> (int \<times> jstr) db" where
  "GetSubscriptionPlanInfoByUserSubscriptionId userSubscriptionId =
     (if userSubscriptionId \<le> 0 then failM (str ''invalid userSubscriptionId'')
      else bindM (firstM (find_sub userSubscriptionId)) (\<lambda>sub.
           bindM (getSubscriptionPlanByIdTx (sb_PlanId sub)) (\<lambda>plan. returnM (sb_PlanId sub, pl_Title plan))))"

end
