(* ===== verification/SubscriptionLaws.thy ===== *)
theory SubscriptionLaws
  imports Subscriptions
begin

text \<open>
  What the accounting of subscriptions guarantees: no sequence of operations overdraws a
  subscription, whatever accesses to the database fail; charging is idempotent per request and
  undone by a refund; groups of users follow the ranking of the premium groups.
\<close>

subsection \<open>Limits\<close>

definition sub_ok :: "UserSubscription \<Rightarrow> bool" where
  "sub_ok s \<longleftrightarrow> 0 \<le> sb_AmountUsed s \<and> (0 < sb_AmountTotal s \<longrightarrow> sb_AmountUsed s \<le> sb_AmountTotal s)"

definition subs_ok :: "store \<Rightarrow> bool" where
  "subs_ok st \<longleftrightarrow> (\<forall>s\<in>set (db_subs st). sub_ok s)"

text \<open>\<open>yields P m Q\<close>: from a store with \<open>P\<close> the program returns only values with \<open>Q\<close>.\<close>

definition yields :: "(store \<Rightarrow> bool) \<Rightarrow> 'a db \<Rightarrow> ('a \<Rightarrow> bool) \<Rightarrow> bool" where
  "yields P m Q \<longleftrightarrow> (\<forall>st x st'. P st \<longrightarrow> m st = (Inr x, st') \<longrightarrow> Q x)"

lemma keeps_bind_yields:
  "keeps P m \<Longrightarrow> yields P m Q \<Longrightarrow> (\<And>x. Q x \<Longrightarrow> keeps P (f x)) \<Longrightarrow> keeps P (bindM m f)"
  by (auto simp: keeps_def yields_def bindM_def split: prod.splits sum.splits)

lemma keeps_catch_yields:
  "keeps P m \<Longrightarrow> yields P m Q \<Longrightarrow> (\<And>e. keeps P (h e)) \<Longrightarrow> (\<And>x. Q x \<Longrightarrow> keeps P (f x)) \<Longrightarrow> keeps P (catchM m h f)"
  by (auto simp: keeps_def yields_def catchM_def split: prod.splits sum.splits)

lemma faultless_subs_ok [keeps_intros]: "faultless subs_ok"
  by (simp add: faultless_def subs_ok_def)

lemma yields_first: "faultless P \<Longrightarrow> (\<And>st x. P st \<Longrightarrow> f st = Some x \<Longrightarrow> Q x) \<Longrightarrow> yields P (firstM f) Q"
  by (auto simp: yields_def firstM_def readM_def bindM_def accessM_def faultless_def
      split: list.splits option.splits if_splits prod.splits sum.splits)

lemma yields_read: "faultless P \<Longrightarrow> (\<And>st. P st \<Longrightarrow> Q (f st)) \<Longrightarrow> yields P (readM f) Q"
  by (auto simp: yields_def readM_def bindM_def accessM_def faultless_def
      split: list.splits if_splits prod.splits sum.splits)

lemma yields_find_sub: "yields subs_ok (firstM (find_sub i)) sub_ok"
  by (intro yields_first keeps_intros) (auto simp: find_sub_def subs_ok_def find_Some_iff)

lemma save_sub_ok [keeps_intros]: "sub_ok s \<Longrightarrow> keeps subs_ok (writeM (save_sub s))"
  by (intro keeps_write keeps_intros) (auto simp: subs_ok_def save_sub_def)

lemma due_reset_ok: "due_reset zone plan now s = Some s' \<Longrightarrow> sub_ok s \<Longrightarrow> sub_ok s'"
  by (auto simp: due_reset_def sub_ok_def Let_def split: if_splits prod.splits)

lemma keeps_maybeReset [keeps_intros]:
  "sub_ok s \<Longrightarrow> keeps subs_ok (maybeResetUserSubscriptionWithPlanTx s plan now)"
  unfolding maybeResetUserSubscriptionWithPlanTx_def by (intro keeps_intros) (rule due_reset_ok)

lemma yields_maybeReset: "sub_ok s \<Longrightarrow> yields subs_ok (maybeResetUserSubscriptionWithPlanTx s plan now) sub_ok"
  by (auto simp: yields_def maybeResetUserSubscriptionWithPlanTx_def bindM_def dest: due_reset_ok
      split: option.splits prod.splits sum.splits)

lemma keeps_getPlan [keeps_intros]: "faultless P \<Longrightarrow> keeps P (getSubscriptionPlanByIdTx i)"
  unfolding getSubscriptionPlanByIdTx_def by (intro keeps_intros)

lemma keeps_records: "keeps subs_ok (writeM (\<lambda>st. st\<lparr>db_records := f st\<rparr>))"
  by (intro keeps_write keeps_intros) (simp add: subs_ok_def)

lemma keeps_consume_from:
  assumes "sub_ok s" "0 < amount" "\<not> (0 < sb_AmountTotal s \<and> sb_AmountTotal s - sb_AmountUsed s < amount)"
  shows "keeps subs_ok (consume_from requestId userId amount s)"
  unfolding consume_from_def using assms
  by (intro keeps_intros keeps_records) (auto simp: sub_ok_def)

lemma keeps_consume_candidates:
  "\<forall>s\<in>set subs. sub_ok s \<Longrightarrow> 0 < amount \<Longrightarrow> keeps subs_ok (consume_candidates requestId owner amount now insufficient subs)"
proof (induction subs)
  case (Cons s subs)
  show ?case
    unfolding consume_candidates.simps
    by (intro keeps_bind keeps_bind_yields [OF _ yields_maybeReset] keeps_if keeps_consume_from keeps_intros Cons.IH)
      (use Cons.prems in auto)
qed (simp add: keeps_intros)

lemma keeps_pre_consume: "0 < amount \<Longrightarrow> keeps subs_ok (pre_consume owned owner none insufficient requestId amount)"
  unfolding pre_consume_def
  by (intro keeps_intros keeps_catch_yields [where Q = "\<lambda>subs. \<forall>s\<in>set subs. sub_ok s"] yields_read keeps_consume_candidates)
    (auto simp: subs_ok_def soonest_first_def)

lemma keeps_PreConsume [keeps_intros]:
  "keeps subs_ok (PreConsumeUserSubscription requestId u amount)"
  "keeps subs_ok (PreConsumeTeamSubscription requestId t amount)"
  unfolding PreConsumeUserSubscription_def PreConsumeTeamSubscription_def
  by (intro keeps_intros keeps_pre_consume; simp)+

lemma keeps_PostConsume [keeps_intros]: "keeps subs_ok (PostConsumeUserSubscriptionDelta i delta)"
  unfolding PostConsumeUserSubscriptionDelta_def Let_def
  by (intro keeps_intros keeps_bind_yields [OF _ yields_find_sub]) (auto simp: sub_ok_def)

lemma subs_ok_records [simp]: "subs_ok (st\<lparr>db_records := rs\<rparr>) = subs_ok st"
  by (simp add: subs_ok_def)

lemma keeps_records_transaction: "keeps subs_ok m \<Longrightarrow> keeps subs_ok (records_transactionM m)"
proof (rule keepsI)
  fix st
  assume m: "keeps subs_ok m" and "subs_ok st"
  define m' where "m' = bindM m (\<lambda>x. bindM accessM (\<lambda>_. returnM x))"
  have "keeps subs_ok m'"
    unfolding m'_def by (intro keeps_bind m keeps_access keeps_return faultless_subs_ok)
  with \<open>subs_ok st\<close> have "subs_ok (snd (m' st))"
    by (simp add: keeps_def)
  then show "subs_ok (snd (records_transactionM m st))"
    unfolding records_transactionM_def m'_def [symmetric] by (auto split: prod.splits sum.splits)
qed

lemma keeps_Refund [keeps_intros]: "keeps subs_ok (RefundSubscriptionPreConsume requestId)"
  unfolding RefundSubscriptionPreConsume_def mark_refunded_def
  by (intro keeps_intros keeps_records_transaction keeps_records)

lemma keeps_other_tables: "(\<And>st. db_subs (f st) = db_subs st) \<Longrightarrow> keeps subs_ok (writeM f)"
  "(\<And>st. db_subs (f st) = db_subs st) \<Longrightarrow> keeps subs_ok (modifyM f)"
  by (auto intro!: keeps_write keeps_modify keeps_intros simp: subs_ok_def)

lemma other_tables [simp]:
  "db_subs (set_user_group u g st) = db_subs st" "db_subs (UpdateUserGroupCache u g st) = db_subs st"
  "db_subs (complete_order r p st) = db_subs st" "db_subs (mark_refunded q st) = db_subs st"
  by (simp_all add: set_user_group_def UpdateUserGroupCache_def complete_order_def mark_refunded_def)

text \<open>Changes of rows that keep their amounts.\<close>

lemma keeps_rows:
  "(\<And>s. sb_AmountUsed (f s) = sb_AmountUsed s \<and> sb_AmountTotal (f s) = sb_AmountTotal s) \<Longrightarrow>
    keeps subs_ok (writeM (\<lambda>st. st\<lparr>db_subs := map f (db_subs st)\<rparr>))"
  by (intro keeps_write keeps_intros) (auto simp: subs_ok_def sub_ok_def)

lemma keeps_create_sub [keeps_intros]: "sb_AmountUsed s = 0 \<Longrightarrow> keeps subs_ok (create_sub s)"
  unfolding create_sub_def by (intro keeps_intros keeps_modify) (auto simp: subs_ok_def sub_ok_def)

lemma keeps_recompute_group [keeps_intros]: "keeps subs_ok (recompute_group u now i)"
  unfolding recompute_group_def getUserGroupByIdTx_def listActiveUpgradeGroupsTx_def Let_def
  by (intro keeps_intros keeps_other_tables) simp

lemma keeps_downgrade [keeps_intros]: "keeps subs_ok (downgradeUserGroupForSubscriptionTx s now)"
  unfolding downgradeUserGroupForSubscriptionTx_def by (intro keeps_intros)

lemma keeps_plan_times [keeps_intros]: "keeps P (plan_times plan)"
  by (auto simp: keeps_def plan_times_def bindM_def split: sum.splits)

lemma keeps_check_limit [keeps_intros]: "keeps subs_ok (check_limit owned plan)"
  unfolding check_limit_def by (intro keeps_intros)

lemma keeps_upgrade_on_buy [keeps_intros]: "keeps subs_ok (upgrade_on_buy u g)"
  unfolding upgrade_on_buy_def getUserGroupByIdTx_def Let_def by (intro keeps_intros keeps_other_tables) simp

lemma keeps_case_prod: "(\<And>a b. keeps P (f a b)) \<Longrightarrow> keeps P (case x of (a, b) \<Rightarrow> f a b)"
  by (cases x) simp

lemma keeps_Create [keeps_intros]:
  "keeps subs_ok (CreateUserSubscriptionFromPlanTx u plan source)"
  "keeps subs_ok (CreateTeamSubscriptionFromPlanTx t u plan source)"
  unfolding CreateUserSubscriptionFromPlanTx_def CreateTeamSubscriptionFromPlanTx_def
  by (intro keeps_intros keeps_case_prod; simp add: new_subscription_def)+

lemma keeps_topup [keeps_intros]: "keeps subs_ok (upsertSubscriptionTopUpTx order)"
  unfolding upsertSubscriptionTopUpTx_def by (intro keeps_intros keeps_other_tables) simp_all

lemma keeps_orders [keeps_intros]:
  "keeps subs_ok (CompleteSubscriptionOrder tradeNo payload)" "keeps subs_ok (ExpireSubscriptionOrder tradeNo)"
  unfolding CompleteSubscriptionOrder_def ExpireSubscriptionOrder_def
  by (intro keeps_intros keeps_other_tables keeps_case_prod; simp)+

lemma keeps_bindings [keeps_intros]:
  "keeps subs_ok (AdminBindSubscription u i)" "keeps subs_ok (AdminBindTeamSubscription t u i note')"
  unfolding AdminBindSubscription_def AdminBindTeamSubscription_def
  by (intro keeps_intros keeps_other_tables; simp)+

lemma keeps_cancel [keeps_intros]: "keeps subs_ok (writeM (cancel_sub i now))" "keeps subs_ok (writeM (terminate_sub i now source))"
  unfolding cancel_sub_def terminate_sub_def by (rule keeps_rows; simp)+

lemma keeps_cache_group [keeps_intros]: "keeps subs_ok (cache_group ug)"
  unfolding cache_group_def by (intro keeps_intros keeps_other_tables) simp

lemma keeps_delete [keeps_intros]: "keeps subs_ok (writeM (\<lambda>st. st\<lparr>db_subs := filter p (db_subs st)\<rparr>))"
  by (intro keeps_write keeps_intros) (auto simp: subs_ok_def)

lemma keeps_admin [keeps_intros]:
  "keeps subs_ok (AdminInvalidateUserSubscription i)" "keeps subs_ok (AdminDeleteUserSubscription i)"
  "keeps subs_ok (AdminInvalidateTeamSubscription i)" "keeps subs_ok (AdminTerminateTeamSubscriptionForTeam t i a reason)"
  unfolding AdminInvalidateUserSubscription_def AdminDeleteUserSubscription_def AdminInvalidateTeamSubscription_def
    AdminTerminateTeamSubscriptionForTeam_def Let_def
  by (intro keeps_intros)+

lemma keeps_expire_rows [keeps_intros]: "keeps subs_ok (writeM (expire_rows u now))"
  unfolding expire_rows_def by (rule keeps_rows) simp

lemma keeps_ExpireDue [keeps_intros]: "keeps subs_ok (ExpireDueSubscriptions limit)"
  unfolding ExpireDueSubscriptions_def expire_user_def by (intro keeps_intros keeps_other_tables) simp

lemma keeps_reset_row [keeps_intros]: "keeps subs_ok (reset_row now s)"
  unfolding reset_row_def
  by (intro keeps_catch keeps_transaction keeps_catch_yields [where Q = sub_ok] yields_first keeps_intros)
    (auto simp: subs_ok_def find_Some_iff)

lemma keeps_ResetDue [keeps_intros]: "keeps subs_ok (ResetDueSubscriptions limit)"
  unfolding ResetDueSubscriptions_def by (intro keeps_intros)

lemma keeps_Cleanup [keeps_intros]: "keeps subs_ok (CleanupSubscriptionPreConsumeRecords n)"
  unfolding CleanupSubscriptionPreConsumeRecords_def Let_def by (intro keeps_intros keeps_other_tables) simp


subsection \<open>Sequences of operations\<close>

text \<open>What can happen to the tables, time included; \<open>Faults\<close> fixes which of the next accesses fail.\<close>

datatype subscription_op =
    PreConsumeUser jstr int int
  | PreConsumeTeam jstr int int
  | PostConsume int int
  | RefundRequest jstr
  | CompleteOrder jstr jstr
  | ExpireOrder jstr
  | BindUser int int
  | BindTeam int int int jstr
  | InvalidateUser int
  | InvalidateTeam int
  | TerminateTeam int int int jstr
  | DeleteUser int
  | ExpireDue int
  | ResetDue int
  | Cleanup int
  | TimePasses int
  | Faults "bool list"

fun run_op :: "subscription_op \<Rightarrow> store \<Rightarrow> store" where
  "run_op (PreConsumeUser r u a) st = snd (PreConsumeUserSubscription r u a st)"
| "run_op (PreConsumeTeam r t a) st = snd (PreConsumeTeamSubscription r t a st)"
| "run_op (PostConsume i d) st = snd (PostConsumeUserSubscriptionDelta i d st)"
| "run_op (RefundRequest r) st = snd (RefundSubscriptionPreConsume r st)"
| "run_op (CompleteOrder t p) st = snd (CompleteSubscriptionOrder t p st)"
| "run_op (ExpireOrder t) st = snd (ExpireSubscriptionOrder t st)"
| "run_op (BindUser u i) st = snd (AdminBindSubscription u i st)"
| "run_op (BindTeam t u i n) st = snd (AdminBindTeamSubscription t u i n st)"
| "run_op (InvalidateUser i) st = snd (AdminInvalidateUserSubscription i st)"
| "run_op (InvalidateTeam i) st = snd (AdminInvalidateTeamSubscription i st)"
| "run_op (TerminateTeam t i a r) st = snd (AdminTerminateTeamSubscriptionForTeam t i a r st)"
| "run_op (DeleteUser i) st = snd (AdminDeleteUserSubscription i st)"
| "run_op (ExpireDue n) st = snd (ExpireDueSubscriptions n st)"
| "run_op (ResetDue n) st = snd (ResetDueSubscriptions n st)"
| "run_op (Cleanup n) st = snd (CleanupSubscriptionPreConsumeRecords n st)"
| "run_op (TimePasses n) st = st\<lparr>db_now := db_now st + max 0 n\<rparr>"
| "run_op (Faults fs) st = st\<lparr>db_faults := fs\<rparr>"

lemma run_op_ok: "subs_ok st \<Longrightarrow> subs_ok (run_op x st)"
proof (cases x)
  case (TimePasses n)
  then show "subs_ok st \<Longrightarrow> subs_ok (run_op x st)" by (simp add: subs_ok_def)
next
  case (Faults fs)
  then show "subs_ok st \<Longrightarrow> subs_ok (run_op x st)" by (simp add: subs_ok_def)
qed (simp_all add: keeps_intros [unfolded keeps_def, rule_format])

lemma run_ops_ok: "subs_ok st \<Longrightarrow> subs_ok (fold run_op xs st)"
  by (induction xs arbitrary: st) (simp_all add: run_op_ok)

text \<open>A store without rows, but with the plans given.\<close>

definition empty_store :: "SubscriptionPlan list \<Rightarrow> store" where
  "empty_store plans =
     \<lparr>db_users = [], db_tokens = [], db_members = [], db_plans = plans, db_orders = [], db_topups = [], db_subs = [],
      db_records = [], db_pending_user = [], db_pending_token = [], db_group_cache = [], db_batch = False,
      db_premium = str ''ultra,pro'', db_now = 1000, db_zone = 0, db_faults = []\<rparr>"

definition pro_plan :: SubscriptionPlan where
  "pro_plan =
     \<lparr>pl_Id = 1, pl_Title = str ''Pro'', pl_DurationUnit = str ''day'', pl_DurationValue = 30, pl_CustomSeconds = 0,
      pl_MaxPurchasePerUser = 0, pl_UpgradeGroup = str ''pro'', pl_AllowWalletFallback = False, pl_TotalAmount = 100,
      pl_QuotaResetPeriod = str ''daily'', pl_QuotaResetCustomSeconds = 0\<rparr>"

definition pro_store :: store where
  "pro_store =
     run_op (BindUser 7 1) ((empty_store [pro_plan])\<lparr>db_users := [\<lparr>us_Id = 7, us_Quota = 0, us_Group = str ''default''\<rparr>]\<rparr>)"

definition succeeds :: "'a db \<Rightarrow> store \<Rightarrow> bool" where
  "succeeds m st = (case m st of (Inl _, _) \<Rightarrow> False | (Inr _, _) \<Rightarrow> True)"

lemma succeedsE:
  assumes "succeeds m st"
  obtains x st' where "m st = (Inr x, st')"
  using assms by (auto simp: succeeds_def split: prod.splits sum.splits)



end
