(* ===== verification/SubscriptionCharges.thy ===== *)
theory SubscriptionCharges
  imports SubscriptionLaws
begin

text \<open>
  Charging a subscription for a request and refunding it: runs in which no access fails, and the refund
  whose last access fails.
\<close>

subsection \<open>Charging and refunding\<close>

definition has_sub :: "store \<Rightarrow> UserSubscription \<Rightarrow> bool" where
  "has_sub st s \<longleftrightarrow> sb_Id s \<in> sb_Id ` set (db_subs st)"

lemma find_save_sub:
  "find_sub i (save_sub s st) = (if i = sb_Id s then (if has_sub st s then Some s else None) else find_sub i st)"
proof -
  have "find (\<lambda>x. sb_Id x = i) (map (\<lambda>x. if sb_Id x = sb_Id s then s else x) xs)
      = (if i = sb_Id s then (if sb_Id s \<in> sb_Id ` set xs then Some s else None) else find (\<lambda>x. sb_Id x = i) xs)" for xs
    by (induction xs) auto
  then show ?thesis
    by (simp add: find_sub_def save_sub_def has_sub_def)
qed

lemma has_sub_save [simp]: "has_sub (save_sub s st) t = has_sub st t"
proof -
  have "sb_Id ` set (map (\<lambda>x. if sb_Id x = sb_Id s then s else x) xs) = sb_Id ` set xs" for xs
    by (induction xs) auto
  then show ?thesis
    by (simp add: has_sub_def save_sub_def)
qed

lemma has_sub_tables [simp]:
  "has_sub (st\<lparr>db_records := rs\<rparr>) s = has_sub st s" "has_sub st (s\<lparr>sb_AmountUsed := n\<rparr>) = has_sub st s"
  by (simp_all add: has_sub_def)

lemma save_sub_tables [simp]:
  "db_faults (save_sub s st) = db_faults st" "db_records (save_sub s st) = db_records st" "db_now (save_sub s st) = db_now st"
  "find_record r (save_sub s st) = find_record r st"
  by (simp_all add: save_sub_def find_record_def)

lemma due_reset_same: "due_reset zone plan now s = Some s' \<Longrightarrow> sb_Id s' = sb_Id s \<and> sb_AmountUsed s' \<in> {0, sb_AmountUsed s}"
  by (auto simp: due_reset_def Let_def split: if_splits prod.splits)

lemma run_maybeReset:
  assumes "db_faults st = []" "sub_ok c"
  shows "\<exists>sub st1. maybeResetUserSubscriptionWithPlanTx c plan now st = (Inr sub, st1) \<and> db_faults st1 = []
    \<and> st1 = st\<lparr>db_subs := db_subs st1\<rparr> \<and> (\<forall>s. has_sub st1 s = has_sub st s) \<and> sub_ok sub \<and> sb_Id sub = sb_Id c
    \<and> sb_AmountUsed sub \<in> {0, sb_AmountUsed c}"
proof (cases "due_reset (db_zone st) plan now c")
  case None
  then show ?thesis
    using assms by (simp add: maybeResetUserSubscriptionWithPlanTx_def bindM_def)
next
  case (Some s)
  have "save_sub s st = st\<lparr>db_subs := db_subs (save_sub s st)\<rparr>"
    by (simp add: save_sub_def)
  then show ?thesis
    using assms Some due_reset_ok [OF Some] due_reset_same [OF Some]
    by (simp add: maybeResetUserSubscriptionWithPlanTx_def bindM_def)
qed

text \<open>The candidate that is charged, in the store after the resets that were due.\<close>

lemma run_consume_candidates:
  assumes "consume_candidates r owner a now ins subs st = (Inr x, st')" "db_faults st = []" "\<forall>s\<in>set subs. has_sub st s \<and> sub_ok s"
  shows "\<exists>sub st0. consume_from r (owner sub) a sub st0 = (Inr x, st') \<and> st0 = st\<lparr>db_subs := db_subs st0\<rparr>
    \<and> has_sub st0 sub \<and> sub_ok sub \<and> (\<exists>s\<in>set subs. sb_Id s = sb_Id sub \<and> sb_AmountUsed sub \<in> {0, sb_AmountUsed s})"
  using assms
proof (induction subs arbitrary: st)
  case (Cons c subs)
  obtain plan where plan: "getSubscriptionPlanByIdTx (sb_PlanId c) st = (Inr plan, st)"
    using Cons.prems(1,2) by (auto simp: getSubscriptionPlanByIdTx_def bindM_def split: if_splits option.splits)
  obtain sub st1 where sub: "maybeResetUserSubscriptionWithPlanTx c plan now st = (Inr sub, st1)" "db_faults st1 = []"
    "st1 = st\<lparr>db_subs := db_subs st1\<rparr>" "\<forall>s. has_sub st1 s = has_sub st s" "sub_ok sub" "sb_Id sub = sb_Id c"
    "sb_AmountUsed sub \<in> {0, sb_AmountUsed c}"
    using run_maybeReset [OF Cons.prems(2), of c plan now] Cons.prems(3) by auto
  have st1: "consume_candidates r owner a now ins (c # subs) st =
      (if 0 < sb_AmountTotal sub \<and> sb_AmountTotal sub - sb_AmountUsed sub < a
       then consume_candidates r owner a now ins subs st1 else consume_from r (owner sub) a sub st1)"
    by (simp add: bindM_def plan sub(1))
  show ?case
  proof (cases "0 < sb_AmountTotal sub \<and> sb_AmountTotal sub - sb_AmountUsed sub < a")
    case True
    then have "consume_candidates r owner a now ins subs st1 = (Inr x, st')"
      using Cons.prems(1) st1 by simp
    from Cons.IH [OF this sub(2)] Cons.prems(3) sub(3,4) show ?thesis
      by (metis (no_types, lifting) list.set_intros(2) store.surjective store.update_convs(7))
  next
    case False
    have "has_sub st sub"
      using Cons.prems(3) sub(6) by (simp add: has_sub_def)
    then show ?thesis
      using False Cons.prems(1,3) st1 sub by (intro exI [of _ sub] exI [of _ st1]) auto
  qed
qed simp

lemma find_Some_appended: "find P xs = None \<Longrightarrow> P y \<Longrightarrow> find P (xs @ [y]) = Some y"
  by (induction xs) (auto split: if_splits)

text \<open>A charge without failing accesses, for a request that has no record yet.\<close>

lemma run_pre_consume:
  assumes "pre_consume owned owner none ins r a st = (Inr x, st')" "db_faults st = []" "subs_ok st" "find_record r st = None"
  shows "\<exists>sub rec. find_sub (rs_UserSubscriptionId x) st' = Some (sub\<lparr>sb_AmountUsed := sb_AmountUsed sub + a\<rparr>)
    \<and> sb_Id sub = rs_UserSubscriptionId x \<and> rs_PreConsumed x = a \<and> rs_AmountUsedBefore x = sb_AmountUsed sub
    \<and> rs_AmountUsedAfter x = sb_AmountUsed sub + a \<and> st' = st\<lparr>db_subs := db_subs st', db_records := db_records st'\<rparr>
    \<and> sub_ok sub \<and> has_sub st' sub \<and> db_faults st' = []
    \<and> find_record r st' = Some rec \<and> pr_RequestId rec = r \<and> pr_Status rec = str ''consumed''
    \<and> pr_UserSubscriptionId rec = sb_Id sub \<and> pr_PreConsumed rec = a
    \<and> (\<exists>s\<in>set (db_subs st). owned s \<and> active_at (db_now st) s \<and> sb_Id s = sb_Id sub \<and> sb_AmountUsed sub \<in> {0, sb_AmountUsed s})"
proof -
  let ?subs = "soonest_first (filter (\<lambda>s. owned s \<and> active_at (db_now st) s) (db_subs st))"
  have subs: "set ?subs = {s \<in> set (db_subs st). owned s \<and> active_at (db_now st) s}"
    by (auto simp: soonest_first_def)
  obtain st1 where run: "consume_candidates r owner a (db_now st) ins ?subs st = (Inr x, st1)" "accessM st1 = (Inr (), st')"
    using assms(1,2,4)
    by (auto simp: pre_consume_def transactionM_def bindM_def catchM_def split: if_splits sum.splits prod.splits)
  have "\<forall>s\<in>set ?subs. has_sub st s \<and> sub_ok s"
    using assms(3) unfolding subs by (auto simp: has_sub_def subs_ok_def)
  from run_consume_candidates [OF run(1) assms(2) this] obtain sub st0 where sub:
    "consume_from r (owner sub) a sub st0 = (Inr x, st1)" "st0 = st\<lparr>db_subs := db_subs st0\<rparr>" "has_sub st0 sub" "sub_ok sub"
    "\<exists>s\<in>set ?subs. sb_Id s = sb_Id sub \<and> sb_AmountUsed sub \<in> {0, sb_AmountUsed s}"
    by blast
  define rec where "rec = \<lparr>pr_RequestId = r, pr_UserId = owner sub, pr_UserSubscriptionId = sb_Id sub, pr_PreConsumed = a,
    pr_Status = str ''consumed'', pr_UpdatedAt = db_now st0\<rparr>"
  have faults: "db_faults st0 = []" and records: "db_records st0 = db_records st"
    by (subst sub(2), simp add: assms(2))+
  let ?st1 = "st0\<lparr>db_records := db_records st0 @ [rec]\<rparr>"
  have x: "x = (consumed_result sub a)\<lparr>rs_AmountUsedAfter := sb_AmountUsed sub + a\<rparr>"
    and st1: "st1 = save_sub (sub\<lparr>sb_AmountUsed := sb_AmountUsed sub + a\<rparr>) ?st1"
    using sub(1) faults by (auto simp: consume_from_def catchM_def bindM_def rec_def)
  have st': "st' = save_sub (sub\<lparr>sb_AmountUsed := sb_AmountUsed sub + a\<rparr>) ?st1"
    using run(2) faults unfolding st1 by (simp add: accessM_def)
  have only: "st' = st\<lparr>db_subs := db_subs st', db_records := db_records st'\<rparr>"
    unfolding st' by (subst sub(2)) (simp add: save_sub_def)
  have "find_record r ?st1 = Some rec"
    using assms(4) by (simp add: find_record_def records rec_def find_Some_appended)
  then show ?thesis
    using sub(3-) faults subs only unfolding x by (auto simp: st' find_save_sub consumed_result_def rec_def)
qed

lemma charge_cases:
  assumes "charge \<in> {PreConsumeUserSubscription r u, PreConsumeTeamSubscription r u}" "charge a st = (Inr x, st')"
  obtains owned owner none ins where "\<And>b. 0 < b \<Longrightarrow> charge b = pre_consume owned owner none ins r b" "0 < a" "TrimSpace r \<noteq> []"
  using assms by (auto simp: PreConsumeUserSubscription_def PreConsumeTeamSubscription_def split: if_splits)

lemma run_pre_consume_again:
  assumes "db_faults st = []" "find_record r st = Some rec" "find_sub (pr_UserSubscriptionId rec) st = Some sub"
  shows "pre_consume owned owner none ins r b st =
    (if pr_Status rec = str ''refunded'' then Inl already_refunded else Inr (consumed_result sub (pr_PreConsumed rec)), st)"
  using assms by (simp add: pre_consume_def transactionM_def bindM_def)

lemma run_PostConsume:
  assumes "db_faults st = []" "0 < i" "d \<noteq> 0" "find_sub i st = Some sub" "n = max 0 (sb_AmountUsed sub + d)"
    "0 < sb_AmountTotal sub \<longrightarrow> n \<le> sb_AmountTotal sub"
  shows "PostConsumeUserSubscriptionDelta i d st = (Inr (), save_sub (sub\<lparr>sb_AmountUsed := n\<rparr>) st)"
proof -
  have n: "(if sb_AmountUsed sub + d < 0 then 0 else sb_AmountUsed sub + d) = n"
    using assms(5) by simp
  have "\<not> (0 < sb_AmountTotal sub \<and> sb_AmountTotal sub < n)"
    using assms(6) by auto
  then show ?thesis
    using assms(1-4) unfolding PostConsumeUserSubscriptionDelta_def Let_def n
    by (simp add: transactionM_def bindM_def n)
qed

lemma run_Refund:
  assumes "db_faults st = []" "find_record r st = Some rec" "pr_Status rec \<noteq> str ''refunded''" "0 < pr_PreConsumed rec"
    "0 < pr_UserSubscriptionId rec" "find_sub (pr_UserSubscriptionId rec) st = Some sub" "TrimSpace r \<noteq> []"
    "pr_PreConsumed rec \<le> sb_AmountUsed sub" "sub_ok sub"
  shows "RefundSubscriptionPreConsume r st =
    (Inr (), mark_refunded r (save_sub (sub\<lparr>sb_AmountUsed := sb_AmountUsed sub - pr_PreConsumed rec\<rparr>) st))"
proof -
  have "PostConsumeUserSubscriptionDelta (pr_UserSubscriptionId rec) (- pr_PreConsumed rec) st =
      (Inr (), save_sub (sub\<lparr>sb_AmountUsed := sb_AmountUsed sub - pr_PreConsumed rec\<rparr>) st)"
    using assms by (intro run_PostConsume) (auto simp: sub_ok_def)
  moreover have "db_faults (mark_refunded r st') = db_faults st'" for st'
    by (simp add: mark_refunded_def)
  ultimately show ?thesis
    using assms by (simp add: RefundSubscriptionPreConsume_def records_transactionM_def bindM_def)
qed

lemma mark_refunded_tables [simp]:
  "find_sub i (mark_refunded r st) = find_sub i st" "db_faults (mark_refunded r st) = db_faults st"
  by (simp_all add: mark_refunded_def find_sub_def)

lemma find_mark_refunded:
  "find_record r st = Some rec \<Longrightarrow>
    find_record r (mark_refunded r st) = Some (rec\<lparr>pr_Status := str ''refunded'', pr_UpdatedAt := db_now st\<rparr>)"
proof -
  have "find (\<lambda>x. pr_RequestId x = r) xs = Some rec \<Longrightarrow>
      find (\<lambda>x. pr_RequestId x = r) (map (\<lambda>x. if pr_RequestId x = r then f x else x) xs) = Some (f rec)"
    if "\<And>x. pr_RequestId (f x) = pr_RequestId x" for f xs
    by (induction xs) (auto simp: that split: if_splits)
  then show "find_record r st = Some rec \<Longrightarrow> ?thesis"
    by (simp add: find_record_def mark_refunded_def)
qed

text \<open>
  C4: a request is charged once. When a charge of a user's or a team's subscription has succeeded,
  the record shows its amount, and repeating the request, even with another amount, reports the same
  subscription and the same amount and changes nothing.
\<close>

theorem charged_once:
  assumes "charge \<in> {PreConsumeUserSubscription r u, PreConsumeTeamSubscription r u}" "charge a st = (Inr x, st1)"
    and "db_faults st = []" "subs_ok st" "find_record r st = None" "0 < b"
  shows "\<exists>y. charge b st1 = (Inr y, st1) \<and> rs_UserSubscriptionId y = rs_UserSubscriptionId x \<and> rs_PreConsumed y = a
    \<and> map_option sb_AmountUsed (find_sub (rs_UserSubscriptionId x) st1) = Some (rs_AmountUsedBefore x + a)"
proof -
  obtain owned owner none ins where charge: "\<And>b. 0 < b \<Longrightarrow> charge b = pre_consume owned owner none ins r b" "0 < a"
    using charge_cases [OF assms(1,2)] by metis
  have run: "pre_consume owned owner none ins r a st = (Inr x, st1)"
    using assms(2) charge by simp
  from run_pre_consume [OF this assms(3-5)] obtain sub rec where st1:
    "find_sub (rs_UserSubscriptionId x) st1 = Some (sub\<lparr>sb_AmountUsed := sb_AmountUsed sub + a\<rparr>)" "sb_Id sub = rs_UserSubscriptionId x"
    "db_faults st1 = []" "find_record r st1 = Some rec" "pr_Status rec = str ''consumed''"
    "pr_UserSubscriptionId rec = sb_Id sub" "pr_PreConsumed rec = a" "rs_AmountUsedBefore x = sb_AmountUsed sub"
    by blast
  have "str ''consumed'' \<noteq> str ''refunded''"
    by code_simp
  then have "pre_consume owned owner none ins r b st1 = (Inr (consumed_result (sub\<lparr>sb_AmountUsed := sb_AmountUsed sub + a\<rparr>) a), st1)"
    using run_pre_consume_again [OF st1(3,4)] st1 by simp
  then show ?thesis
    using st1 charge(1) [OF assms(6)] by (simp add: consumed_result_def)
qed

theorem charged_once_witness:
  "\<exists>x y st1. PreConsumeUserSubscription (str ''a'') 7 60 pro_store = (Inr x, st1)
    \<and> PreConsumeUserSubscription (str ''a'') 7 90 st1 = (Inr y, st1) \<and> rs_PreConsumed y = 60"
proof -
  have "succeeds (PreConsumeUserSubscription (str ''a'') 7 60) pro_store" "db_faults pro_store = []" "subs_ok pro_store"
    "find_record (str ''a'') pro_store = None"
    by code_simp+
  then show ?thesis
    using charged_once [of "PreConsumeUserSubscription (str ''a'') 7" "str ''a''" 7 60 pro_store _ _ 90] by (fastforce elim: succeedsE)
qed

text \<open>
  C5: a refund undoes a charge. After a charge of a user's or a team's subscription the refund of the
  request sets the subscription back to what was used before and leaves the others alone; a second
  refund changes nothing, and the request cannot be charged again.
\<close>

theorem charge_refunded:
  assumes "charge \<in> {PreConsumeUserSubscription r u, PreConsumeTeamSubscription r u}" "charge a st = (Inr x, st1)"
    and "db_faults st = []" "subs_ok st" "find_record r st = None" "\<forall>s\<in>set (db_subs st). 0 < sb_Id s"
  shows "\<exists>st2. RefundSubscriptionPreConsume r st1 = (Inr (), st2)
    \<and> map_option sb_AmountUsed (find_sub (rs_UserSubscriptionId x) st2) = Some (rs_AmountUsedBefore x)
    \<and> (\<forall>i. i \<noteq> rs_UserSubscriptionId x \<longrightarrow> find_sub i st2 = find_sub i st1)
    \<and> RefundSubscriptionPreConsume r st2 = (Inr (), st2) \<and> (\<forall>b>0. charge b st2 = (Inl already_refunded, st2))"
proof -
  obtain owned owner none ins where charge: "\<And>b. 0 < b \<Longrightarrow> charge b = pre_consume owned owner none ins r b" "0 < a" "TrimSpace r \<noteq> []"
    using charge_cases [OF assms(1,2)] by metis
  have run: "pre_consume owned owner none ins r a st = (Inr x, st1)"
    using assms(2) charge by simp
  from run_pre_consume [OF this assms(3-5)] obtain sub rec where st1:
    "find_sub (rs_UserSubscriptionId x) st1 = Some (sub\<lparr>sb_AmountUsed := sb_AmountUsed sub + a\<rparr>)" "sb_Id sub = rs_UserSubscriptionId x"
    "db_faults st1 = []" "find_record r st1 = Some rec" "pr_Status rec = str ''consumed''"
    "pr_UserSubscriptionId rec = sb_Id sub" "pr_PreConsumed rec = a" "rs_AmountUsedBefore x = sb_AmountUsed sub"
    "sub_ok sub" "has_sub st1 sub" "0 < sb_Id sub"
    using assms(6) by fastforce
  have ok: "sub_ok (sub\<lparr>sb_AmountUsed := sb_AmountUsed sub + a\<rparr>)"
    using run_op_ok [OF assms(4), of "PreConsumeUser r u a"] run_op_ok [OF assms(4), of "PreConsumeTeam r u a"] assms(1,2) st1(1)
    by (auto simp: subs_ok_def find_sub_def find_Some_iff)
  let ?st2 = "mark_refunded r (save_sub sub st1)"
  have consumed: "str ''consumed'' \<noteq> str ''refunded''"
    by code_simp
  have refund: "RefundSubscriptionPreConsume r st1 = (Inr (), ?st2)"
    using run_Refund [OF st1(3,4)] st1 ok charge(2,3) consumed by (simp add: sub_ok_def)
  have found: "find_sub (sb_Id sub) ?st2 = Some sub"
    using st1(10) by (simp add: find_save_sub)
  let ?rec2 = "rec\<lparr>pr_Status := str ''refunded'', pr_UpdatedAt := db_now st1\<rparr>"
  have found_rec: "find_record r ?st2 = Some ?rec2"
    using find_mark_refunded [of r "save_sub sub st1"] st1(4) by simp
  have again: "RefundSubscriptionPreConsume r ?st2 = (Inr (), ?st2)"
    using found_rec st1(3) charge(3) by (simp add: RefundSubscriptionPreConsume_def records_transactionM_def bindM_def)
  have "pre_consume owned owner none ins r b ?st2 = (Inl already_refunded, ?st2)" for b
    using run_pre_consume_again [OF _ found_rec] found st1(3,6) by simp
  then show ?thesis
    using refund found again st1(2,8) charge(1) by (intro exI [of _ ?st2]) (auto simp: find_save_sub)
qed


theorem charge_refunded_witness:
  "\<exists>x st1 st2. PreConsumeUserSubscription (str ''a'') 7 60 pro_store = (Inr x, st1)
    \<and> RefundSubscriptionPreConsume (str ''a'') st1 = (Inr (), st2) \<and> RefundSubscriptionPreConsume (str ''a'') st2 = (Inr (), st2)"
proof -
  have "succeeds (PreConsumeUserSubscription (str ''a'') 7 60) pro_store" "db_faults pro_store = []" "subs_ok pro_store"
    "find_record (str ''a'') pro_store = None" "\<forall>s\<in>set (db_subs pro_store). 0 < sb_Id s"
    by code_simp+
  then show ?thesis
    using charge_refunded [of "PreConsumeUserSubscription (str ''a'') 7" "str ''a''" 7 60 pro_store] by (fastforce elim: succeedsE)
qed


subsection \<open>A refund whose record cannot be saved\<close>

lemma accessM_step: "db_faults st = b # bs \<Longrightarrow>
    accessM st = (if b then Inl (str ''database error'') else Inr (), st\<lparr>db_faults := bs\<rparr>)"
  by (simp add: accessM_def)

lemma accessM_faults [simp]:
  "accessM (st\<lparr>db_faults := b # bs\<rparr>) = (if b then Inl (str ''database error'') else Inr (), st\<lparr>db_faults := bs\<rparr>)"
  by (simp add: accessM_def)

lemma save_sub_faults: "save_sub s (st\<lparr>db_faults := fs\<rparr>) = (save_sub s st)\<lparr>db_faults := fs\<rparr>"
  by (simp add: save_sub_def)

lemma find_faults [simp]:
  "find_sub i (st\<lparr>db_faults := fs\<rparr>) = find_sub i st" "find_record r (st\<lparr>db_faults := fs\<rparr>) = find_record r st"
  "has_sub (st\<lparr>db_faults := fs\<rparr>) s = has_sub st s"
  by (simp_all add: find_sub_def find_record_def has_sub_def)

lemma run_failed_refund:
  assumes "db_faults st = [False, False, False, False, True]" "find_record r st = Some rec" "pr_Status rec \<noteq> str ''refunded''"
    "0 < pr_PreConsumed rec" "0 < pr_UserSubscriptionId rec" "find_sub (pr_UserSubscriptionId rec) st = Some sub" "TrimSpace r \<noteq> []"
    "pr_PreConsumed rec \<le> sb_AmountUsed sub" "sub_ok sub"
  shows "RefundSubscriptionPreConsume r st =
    (Inl (str ''database error''), (save_sub (sub\<lparr>sb_AmountUsed := sb_AmountUsed sub - pr_PreConsumed rec\<rparr>) st)\<lparr>db_faults := []\<rparr>)"
proof -
  have n: "(if sb_AmountUsed sub + - pr_PreConsumed rec < 0 then 0 else sb_AmountUsed sub + - pr_PreConsumed rec)
      = sb_AmountUsed sub - pr_PreConsumed rec"
    using assms(8) by simp
  have fits: "\<not> (0 < sb_AmountTotal sub \<and> sb_AmountTotal sub < sb_AmountUsed sub - pr_PreConsumed rec)"
    using assms(4,9) by (auto simp: sub_ok_def)
  have "PostConsumeUserSubscriptionDelta (pr_UserSubscriptionId rec) (- pr_PreConsumed rec) (st\<lparr>db_faults := [False, False, False, True]\<rparr>)
      = (Inr (), (save_sub (sub\<lparr>sb_AmountUsed := sb_AmountUsed sub - pr_PreConsumed rec\<rparr>) st)\<lparr>db_faults := [True]\<rparr>)"
    using assms(4-6,8) fits unfolding PostConsumeUserSubscriptionDelta_def Let_def
    by (simp add: n transactionM_def bindM_def firstM_def readM_def writeM_def save_sub_faults)
  then show ?thesis
    using assms(1-7)
    by (simp add: RefundSubscriptionPreConsume_def records_transactionM_def bindM_def firstM_def readM_def writeM_def accessM_step [OF assms(1)])
qed

text \<open>
  C28: a refund that fails at the end can be paid out twice. The used amount is reduced in a transaction
  of its own, so that when saving the record fails afterwards, the refund reports an error although the
  quota has been given back, and the next attempt gives it back again.
\<close>

theorem failed_refund_repeats:
  assumes "find_record r st = Some rec" "pr_Status rec = str ''consumed''" "pr_PreConsumed rec = a" "0 < a"
    and "pr_UserSubscriptionId rec = i" "0 < i" "find_sub i st = Some sub" "2 * a \<le> sb_AmountUsed sub" "sub_ok sub"
    and "TrimSpace r \<noteq> []" "db_faults st = [False, False, False, False, True]"
  shows "\<exists>e st1 st2. RefundSubscriptionPreConsume r st = (Inl e, st1) \<and> RefundSubscriptionPreConsume r st1 = (Inr (), st2)
    \<and> map_option sb_AmountUsed (find_sub i st2) = Some (sb_AmountUsed sub - 2 * a)"
proof -
  let ?sub = "sub\<lparr>sb_AmountUsed := sb_AmountUsed sub - a\<rparr>"
  let ?st1 = "(save_sub ?sub st)\<lparr>db_faults := []\<rparr>"
  have consumed: "pr_Status rec \<noteq> str ''refunded''"
    unfolding assms(2) by code_simp
  have i: "sb_Id sub = i" "has_sub st sub"
    using assms(7) by (auto simp: find_sub_def find_Some_iff has_sub_def)
  have first: "RefundSubscriptionPreConsume r st = (Inl (str ''database error''), ?st1)"
    using run_failed_refund [OF assms(11,1) consumed] assms by simp
  have "find_sub i ?st1 = Some ?sub" "find_record r ?st1 = Some rec" "sub_ok ?sub"
    using i assms(1,4,8,9) by (auto simp: find_save_sub sub_ok_def)
  then have second: "RefundSubscriptionPreConsume r ?st1 =
      (Inr (), mark_refunded r (save_sub (?sub\<lparr>sb_AmountUsed := sb_AmountUsed sub - 2 * a\<rparr>) ?st1))"
    using run_Refund [of ?st1 r rec ?sub] consumed assms by (simp add: algebra_simps)
  have "has_sub ?st1 ?sub"
    using i by simp
  then show ?thesis
    unfolding i(1) [symmetric] by - (intro exI conjI, rule first, rule second, simp add: find_save_sub)
qed

theorem failed_refund_repeats_witness:
  "\<exists>st e st1 st2. map sb_AmountUsed (db_subs st) = [60]
    \<and> RefundSubscriptionPreConsume (str ''b'') st = (Inl e, st1) \<and> RefundSubscriptionPreConsume (str ''b'') st1 = (Inr (), st2)
    \<and> map_option sb_AmountUsed (find_sub 1 st2) = Some 0"
proof -
  let ?st = "fold run_op [PreConsumeUser (str ''a'') 7 30, PreConsumeUser (str ''b'') 7 30, Faults [False, False, False, False, True]] pro_store"
  let ?rec = "the (find_record (str ''b'') ?st)" and ?sub = "the (find_sub 1 ?st)"
  have some: "find_record (str ''b'') ?st \<noteq> None" "find_sub 1 ?st \<noteq> None"
    by code_simp+
  have "pr_Status ?rec = str ''consumed''" "pr_PreConsumed ?rec = 30" "pr_UserSubscriptionId ?rec = 1" "sb_AmountUsed ?sub = 60"
    "sub_ok ?sub" "TrimSpace (str ''b'') \<noteq> []" "db_faults ?st = [False, False, False, False, True]" "map sb_AmountUsed (db_subs ?st) = [60]"
    by code_simp+
  then show ?thesis
    using failed_refund_repeats [of "str ''b''" ?st ?rec 30 1 ?sub] some by force
qed

end
