(* ===== verification/SubscriptionGroups.thy ===== *)
theory SubscriptionGroups
  imports SubscriptionCharges
begin

text \<open>
  Orders, which are fulfilled once, and the groups of users, which follow from their subscriptions when
  plans are bought and when subscriptions expire.
\<close>

subsection \<open>Orders\<close>

text \<open>\<open>adds k m\<close>: where it succeeds, the program adds \<open>k\<close> subscriptions.\<close>

definition adds :: "nat \<Rightarrow> 'a db \<Rightarrow> bool" where
  "adds k m \<longleftrightarrow> (\<forall>st x st'. m st = (Inr x, st') \<longrightarrow> length (db_subs st') = length (db_subs st) + k \<and> db_orders st' = db_orders st)"

lemma adds_bind: "adds j m \<Longrightarrow> (\<And>x. adds k (f x)) \<Longrightarrow> adds (j + k) (bindM m f)"
  by (fastforce simp: adds_def bindM_def split: prod.splits sum.splits)

lemma adds_bind0: "adds 0 m \<Longrightarrow> (\<And>x. adds k (f x)) \<Longrightarrow> adds k (bindM m f)"
  using adds_bind [of 0 m k f] by simp

lemma adds_bind1: "adds 1 m \<Longrightarrow> (\<And>x. adds 0 (f x)) \<Longrightarrow> adds 1 (bindM m f)"
  using adds_bind [of 1 m 0 f] by simp

lemma adds_access: "adds 0 accessM"
  by (auto simp: adds_def accessM_def split: list.splits if_splits)

lemma adds_simple: "adds 0 (returnM x)" "adds k (failM e)" "adds 0 (getsM f)"
  "(\<And>st. db_subs (g st) = db_subs st \<and> db_orders (g st) = db_orders st) \<Longrightarrow> adds 0 (modifyM g)"
  by (auto simp: adds_def)

lemma adds_read: "adds 0 (readM f)"
  unfolding readM_def by (intro adds_bind0 adds_access adds_simple)

lemma adds_write: "(\<And>st. db_subs (g st) = db_subs st \<and> db_orders (g st) = db_orders st) \<Longrightarrow> adds 0 (writeM g)"
  unfolding writeM_def by (intro adds_bind0 adds_access adds_simple)

lemma adds_first: "adds 0 (firstM f)"
  by (auto simp: firstM_def adds_def bindM_def readM_def accessM_def split: list.splits if_splits option.splits prod.splits sum.splits)

lemma adds_if: "adds k m \<Longrightarrow> adds k m' \<Longrightarrow> adds k (if b then m else m')"
  by simp

lemma adds_case: "(\<And>a b c. adds k (f a b c)) \<Longrightarrow> adds k (case x of (a, b, c) \<Rightarrow> f a b c)"
  by (cases x) simp

lemma adds_plan_times: "adds 0 (plan_times plan)"
  by (auto simp: adds_def plan_times_def bindM_def split: sum.splits)

lemma adds_create_sub: "adds 1 (create_sub s)"
  by (auto simp: adds_def create_sub_def bindM_def accessM_def split: list.splits if_splits prod.splits sum.splits)

lemma adds_check_limit: "adds 0 (check_limit owned plan)"
  unfolding check_limit_def by (intro adds_if adds_bind0 adds_read adds_simple)

lemma adds_upgrade: "adds 0 (upgrade_on_buy u g)"
  unfolding upgrade_on_buy_def getUserGroupByIdTx_def Let_def
  by (intro adds_if adds_bind0 adds_read adds_simple adds_write) (simp add: set_user_group_def)

lemma adds_Create: "adds 1 (CreateUserSubscriptionFromPlanTx u plan source)" "adds 1 (CreateTeamSubscriptionFromPlanTx t u plan source)"
  unfolding CreateUserSubscriptionFromPlanTx_def CreateTeamSubscriptionFromPlanTx_def
  by (intro adds_if adds_bind0 adds_simple adds_check_limit adds_plan_times adds_upgrade adds_case adds_create_sub)+

lemma adds_topup: "adds 0 (upsertSubscriptionTopUpTx order)"
proof -
  have "adds 0 (case topup of None \<Rightarrow> writeM (\<lambda>st. st\<lparr>db_topups := f st\<rparr>) | Some t \<Rightarrow> writeM (\<lambda>st. st\<lparr>db_topups := g t st\<rparr>))" for topup f g
    by (cases topup) (auto intro!: adds_write)
  then show ?thesis
    unfolding upsertSubscriptionTopUpTx_def by (intro adds_bind0 adds_read adds_simple)
qed

lemma adds_plan: "adds 0 (getSubscriptionPlanByIdTx i)"
  unfolding getSubscriptionPlanByIdTx_def by (intro adds_if adds_simple adds_first)

definition find_order :: "jstr \<Rightarrow> store \<Rightarrow> SubscriptionOrder option" where
  "find_order t st = find (\<lambda>r. or_TradeNo r = t) (db_orders st)"

lemma find_complete_order:
  "find_order t st = Some order \<Longrightarrow>
    find_order t (complete_order order p st) = Some (order\<lparr>or_Status := str ''success'', or_CompleteTime := db_now st,
      or_ProviderPayload := (if p = [] then or_ProviderPayload order else p)\<rparr>)"
proof -
  have "find (\<lambda>r. or_TradeNo r = t) xs = Some order \<Longrightarrow>
      find (\<lambda>r. or_TradeNo r = t) (map (\<lambda>r. if or_TradeNo r = or_TradeNo order then f else r) xs) = Some f"
    if "or_TradeNo f = or_TradeNo order" for f xs
    using that by (induction xs) (auto split: if_splits simp: find_Some_iff)
  then show "find_order t st = Some order \<Longrightarrow> ?thesis"
    by (simp add: find_order_def complete_order_def)
qed

text \<open>The part of completing an order that creates the subscription and the payment.\<close>

definition fulfil_order :: "SubscriptionOrder \<Rightarrow> SubscriptionPlan db" where
  "fulfil_order order =
     bindM (getSubscriptionPlanByIdTx (or_PlanId order)) (\<lambda>plan.
     bindM (if 0 < or_TeamId order
            then CreateTeamSubscriptionFromPlanTx (or_TeamId order) (or_UserId order) plan (str ''order'')
            else CreateUserSubscriptionFromPlanTx (or_UserId order) plan (str ''order'')) (\<lambda>_.
     bindM (upsertSubscriptionTopUpTx order) (\<lambda>_. returnM plan)))"

lemma adds_fulfil: "adds 1 (fulfil_order order)"
  unfolding fulfil_order_def
  by (intro adds_bind0 [OF adds_plan] adds_bind1 adds_bind0 [OF adds_topup] adds_if adds_Create adds_simple)

lemma complete_order_bind:
  "bindM (getSubscriptionPlanByIdTx (or_PlanId order)) (\<lambda>plan.
     bindM (if 0 < or_TeamId order
            then CreateTeamSubscriptionFromPlanTx (or_TeamId order) (or_UserId order) plan (str ''order'')
            else CreateUserSubscriptionFromPlanTx (or_UserId order) plan (str ''order'')) (\<lambda>_.
     bindM (upsertSubscriptionTopUpTx order) (\<lambda>_. f plan))) = bindM (fulfil_order order) f"
  by (rule ext) (auto simp: fulfil_order_def bindM_def split: prod.splits sum.splits)

lemma complete_order_transaction:
  "CompleteSubscriptionOrder t p =
     (if t = [] then failM (str ''tradeNo is empty'')
      else bindM (transactionM (
        catchM (firstM (find_order t)) (\<lambda>_. failM (str ''subscription order not found''))
          (\<lambda>order.
             if or_Status order = str ''success'' then returnM (0, [])
             else if or_Status order \<noteq> str ''pending'' then failM (str ''subscription order status invalid'')
             else bindM (fulfil_order order) (\<lambda>plan. bindM (writeM (complete_order order p)) (\<lambda>_.
                    returnM (or_UserId order, if 0 < or_TeamId order then [] else TrimSpace (pl_UpgradeGroup plan)))))))
        (\<lambda>(u, g). if g \<noteq> [] \<and> 0 < u then modifyM (UpdateUserGroupCache u g) else returnM ()))"
  unfolding CompleteSubscriptionOrder_def complete_order_bind find_order_def by (simp add: find_order_def [abs_def])

lemma transactionM_cases:
  assumes "transactionM m st = (res, st')"
  obtains (fail) e where "res = Inl e" "st' = st\<lparr>db_faults := db_faults st'\<rparr>"
  | (commit) x st1 where "res = Inr x" "m st = (Inr x, st1)" "st' = st1\<lparr>db_faults := db_faults st'\<rparr>"
  using assms
  by (auto simp: transactionM_def bindM_def accessM_def split: prod.splits sum.splits list.splits if_splits)

lemma run_firstM: "firstM f st = (Inr x, st1) \<Longrightarrow> f st1 = Some x \<and> st1 = st\<lparr>db_faults := db_faults st1\<rparr>"
  by (auto simp: firstM_def readM_def bindM_def accessM_def split: list.splits if_splits option.splits prod.splits sum.splits)

lemma find_order_faults [simp]: "find_order t (st\<lparr>db_faults := fs\<rparr>) = find_order t st"
  "find_order t (UpdateUserGroupCache u g st) = find_order t st"
  by (simp_all add: find_order_def UpdateUserGroupCache_def)

definition order_effect :: "jstr \<Rightarrow> store \<Rightarrow> store \<Rightarrow> bool" where
  "order_effect t st st' \<longleftrightarrow> map_option or_Status (find_order t st') = Some (str ''success'')
     \<and> length (db_subs st') = length (db_subs st) + (if map_option or_Status (find_order t st) = Some (str ''pending'') then 1 else 0)"

lemma run_order_body:
  assumes "catchM (firstM (find_order t)) (\<lambda>_. failM e)
      (\<lambda>order.
         if or_Status order = str ''success'' then returnM (0, [])
         else if or_Status order \<noteq> str ''pending'' then failM e'
         else bindM (fulfil_order order) (\<lambda>plan. bindM (writeM (complete_order order p)) (\<lambda>_. returnM (h order plan)))) st = (Inr x, st1)"
  shows "order_effect t st st1"
proof -
  have texts: "str ''success'' \<noteq> str ''pending''"
    by code_simp
  obtain order st0 where first: "firstM (find_order t) st = (Inr order, st0)"
    using assms by (auto simp: catchM_def split: prod.splits sum.splits)
  from run_firstM [OF this] have order: "find_order t st0 = Some order" "st0 = st\<lparr>db_faults := db_faults st0\<rparr>"
    by auto
  then have orders: "find_order t st = Some order" "db_subs st0 = db_subs st"
    by (metis find_order_faults(1), metis store.select_convs(7) store.surjective store.update_convs(16))
  show ?thesis
  proof (cases "or_Status order = str ''success''")
    case True
    then show ?thesis
      using assms orders order(1) texts by (auto simp: catchM_def first order_effect_def)
  next
    case False
    then obtain plan st2 st3 where pending: "or_Status order = str ''pending''" and
      run: "fulfil_order order st0 = (Inr plan, st2)" "writeM (complete_order order p) st2 = (Inr (), st3)" "st1 = st3"
      using assms by (auto simp: catchM_def first bindM_def split: if_splits prod.splits sum.splits)
    have st2: "length (db_subs st2) = length (db_subs st) + 1" "find_order t st2 = Some order"
      using adds_fulfil [of order] run(1) orders(2) order(1) by (auto simp: adds_def find_order_def)
    have "st3 = complete_order order p (st2\<lparr>db_faults := db_faults st3\<rparr>)"
      using run(2) by (auto simp: writeM_def bindM_def accessM_def complete_order_def split: list.splits if_splits)
    then have "db_subs st3 = db_subs st2" "map_option or_Status (find_order t st3) = Some (str ''success'')"
      using find_complete_order [of t "st2\<lparr>db_faults := db_faults st3\<rparr>" order p] st2(2)
      by (metis other_tables(3) store.select_convs(7) store.surjective store.update_convs(16), auto)
    then show ?thesis
      using st2 orders pending run(3) texts by (simp add: order_effect_def)
  qed
qed

text \<open>
  C7: an order is fulfilled once. Whatever accesses fail, completing an order either fails and changes
  nothing, or the order is marked as successful afterwards and exactly one subscription has been added
  if the order was pending, and none otherwise; completing it again changes nothing.
\<close>

theorem order_completed_once:
  assumes "CompleteSubscriptionOrder t p st = (res, st')"
  shows "case res of
      Inl e \<Rightarrow> st' = st\<lparr>db_faults := db_faults st'\<rparr>
    | Inr _ \<Rightarrow> order_effect t st st' \<and> (db_faults st' = [] \<longrightarrow> CompleteSubscriptionOrder t q st' = (Inr (), st'))"
proof (cases "t = []")
  case True
  then show ?thesis
    using assms by (auto simp: complete_order_transaction)
next
  case False
  note [simp] = False
  let ?body = "catchM (firstM (find_order t)) (\<lambda>_. failM (str ''subscription order not found''))
          (\<lambda>order.
             if or_Status order = str ''success'' then returnM (0, [])
             else if or_Status order \<noteq> str ''pending'' then failM (str ''subscription order status invalid'')
             else bindM (fulfil_order order) (\<lambda>plan. bindM (writeM (complete_order order p)) (\<lambda>_.
                    returnM (or_UserId order, if 0 < or_TeamId order then [] else TrimSpace (pl_UpgradeGroup plan)))))"
  obtain r1 st1 where t1: "transactionM ?body st = (r1, st1)"
    by fastforce
  show ?thesis
    using t1
  proof (cases rule: transactionM_cases)
    case (fail e)
    then show ?thesis
      using assms t1 by (auto simp: complete_order_transaction bindM_def)
  next
    case (commit x st0)
    have "order_effect t st st0"
      by (rule run_order_body [OF commit(2)])
    moreover have "order_effect t st st0 = order_effect t st st1"
      by (subst commit(3)) (simp add: order_effect_def)
    moreover obtain u g where "x = (u, g)"
      by fastforce
    ultimately have eff: "res = Inr ()" "order_effect t st st'"
      using assms t1 commit(1) by (auto simp: complete_order_transaction bindM_def order_effect_def split: if_splits)
    then have "CompleteSubscriptionOrder t q st' = (Inr (), st')" if "db_faults st' = []"
      using that by (auto simp: complete_order_transaction bindM_def catchM_def transactionM_def order_effect_def)
    then show ?thesis
      using eff by simp
  qed
qed

theorem order_completed_once_witness:
  "\<exists>st st'. CompleteSubscriptionOrder (str ''t'') [] st = (Inr (), st') \<and> length (db_subs st') = length (db_subs st) + 1
    \<and> CompleteSubscriptionOrder (str ''t'') [] st' = (Inr (), st')"
proof -
  let ?order = "\<lparr>or_UserId = 7, or_TeamId = 0, or_PlanId = 1, or_Money = 5, or_TradeNo = str ''t'', or_PaymentMethod = str ''stripe'',
    or_Status = str ''pending'', or_CreateTime = 900, or_CompleteTime = 0, or_ProviderPayload = []\<rparr>"
  let ?st = "pro_store\<lparr>db_orders := [?order]\<rparr>"
  have run: "succeeds (CompleteSubscriptionOrder (str ''t'') []) ?st" "db_faults (snd (CompleteSubscriptionOrder (str ''t'') [] ?st)) = []"
    "map_option or_Status (find_order (str ''t'') ?st) = Some (str ''pending'')"
    by code_simp+
  obtain st' where st': "CompleteSubscriptionOrder (str ''t'') [] ?st = (Inr (), st')"
    using run(1) by (auto elim: succeedsE)
  then show ?thesis
    using order_completed_once [OF st', of "[]"] run(2,3)
    by (intro exI [of _ ?st] exI [of _ st']) (simp add: order_effect_def)
qed


subsection \<open>Groups\<close>

definition group_of :: "int \<Rightarrow> store \<Rightarrow> jstr option" where
  "group_of u st = map_option us_Group (find (\<lambda>x. us_Id x = u) (db_users st))"

lemma better_group_best:
  assumes "best = foldl (better_group ranks) b gs"
  shows "(best = [] \<longleftrightarrow> b = [] \<and> (\<forall>g\<in>set gs. TrimSpace g = []))
    \<and> (best \<noteq> [] \<longrightarrow> (best = b \<or> best \<in> TrimSpace ` set gs)
        \<and> (\<forall>g\<in>set gs. TrimSpace g \<noteq> [] \<longrightarrow> groupRank best ranks \<le> groupRank (TrimSpace g) ranks)
        \<and> (b \<noteq> [] \<longrightarrow> groupRank best ranks \<le> groupRank b ranks))"
  using assms
proof (induction gs arbitrary: b)
  case (Cons g gs)
  have "best = foldl (better_group ranks) (better_group ranks b g) gs"
    using Cons.prems by simp
  from Cons.IH [OF this] show ?case
    by (auto simp: better_group_def Let_def split: if_splits)
qed simp

text \<open>The best ranked group among those of the active subscriptions, or \<open>default\<close> where there is none.\<close>

definition best_active :: "jstr \<Rightarrow> jstr list \<Rightarrow> jstr \<Rightarrow> bool" where
  "best_active premium gs g \<longleftrightarrow>
     (if \<forall>h\<in>set gs. TrimSpace h = [] then g = str ''default''
      else g \<in> TrimSpace ` set gs \<and> g \<noteq> []
        \<and> (\<forall>h\<in>set gs. TrimSpace h \<noteq> [] \<longrightarrow>
             groupRank g (parsePremiumGroups premium) \<le> groupRank (TrimSpace h) (parsePremiumGroups premium)))"

lemma resolve_best: "best_active premium gs (resolveUserGroupFromActive premium gs)"
  using better_group_best [OF refl, of "parsePremiumGroups premium" "[]" gs]
  by (simp add: best_active_def resolveUserGroupFromActive_def Let_def)

lemma resolve_not_Nil [simp]: "resolveUserGroupFromActive premium gs \<noteq> []"
  by (simp add: resolveUserGroupFromActive_def Let_def str_def)

text \<open>What expiring the rows of one user does.\<close>

definition expire_step :: "int \<Rightarrow> int \<Rightarrow> store \<Rightarrow> store" where
  "expire_step now u st =
     (let st1 = expire_rows u now st; target = resolveUserGroupFromActive (db_premium st) (upgrade_groups u now 0 st1)
      in if group_of u st = Some target then st1 else UpdateUserGroupCache u target (set_user_group u target st1))"

lemma active_not_due: "active_at now s \<Longrightarrow> \<not> is_due now s"
  by (simp add: active_at_def is_due_def)

lemma upgrade_groups_expire: "upgrade_groups u now i (expire_rows v now st) = upgrade_groups u now i st"
proof -
  let ?f = "\<lambda>s. if sb_UserId s = v \<and> is_due now s then s\<lparr>sb_Status := str ''expired''\<rparr> else s"
  let ?P = "\<lambda>s. sb_UserId s = u \<and> sb_TeamId s = 0 \<and> active_at now s \<and> sb_UpgradeGroup s \<noteq> [] \<and> (0 < i \<longrightarrow> sb_Id s \<noteq> i)"
  have "str ''expired'' \<noteq> str ''active''"
    by code_simp
  then have "map sb_UpgradeGroup (filter ?P (map ?f xs)) = map sb_UpgradeGroup (filter ?P xs)" for xs
    by (induction xs) (auto simp: is_due_def active_at_def)
  then show ?thesis
    by (simp add: upgrade_groups_def expire_rows_def)
qed

lemma expire_tables [simp]:
  "db_faults (expire_rows u now st) = db_faults st" "db_users (expire_rows u now st) = db_users st"
  "db_premium (expire_rows u now st) = db_premium st"
  "db_faults (set_user_group u g st) = db_faults st" "db_premium (set_user_group u g st) = db_premium st"
  "db_faults (UpdateUserGroupCache u g st) = db_faults st" "db_premium (UpdateUserGroupCache u g st) = db_premium st"
  "db_users (UpdateUserGroupCache u g st) = db_users st"
  by (simp_all add: expire_rows_def set_user_group_def UpdateUserGroupCache_def)

lemma run_recompute:
  assumes "db_faults st = []" "0 < u"
  shows "recompute_group u now i st =
    (let target = resolveUserGroupFromActive (db_premium st) (upgrade_groups u now i st)
     in if group_of u st = Some target then (Inr [], st) else (Inr target, set_user_group u target st))"
  using assms
  by (cases "find (\<lambda>x. us_Id x = u) (db_users st)")
    (auto simp: recompute_group_def getUserGroupByIdTx_def listActiveUpgradeGroupsTx_def bindM_def group_of_def Let_def)

lemma run_expire_user:
  assumes "db_faults st = []" "0 < u"
  shows "expire_user now u st = (Inr (), expire_step now u st)"
proof -
  have "group_of u (expire_rows u now st) = group_of u st"
    by (simp add: group_of_def)
  then show ?thesis
    using assms
    by (simp add: expire_user_def expire_step_def bindM_def transactionM_def run_recompute Let_def)
qed

lemma run_expire_users:
  "db_faults st = [] \<Longrightarrow> \<forall>u\<in>set us. 0 < u \<Longrightarrow> forM us (expire_user now) st = (Inr (), fold (expire_step now) us st)"
proof (induction us arbitrary: st)
  case (Cons u us)
  have "db_faults (expire_step now u st) = []"
    using Cons.prems(1) by (simp add: expire_step_def Let_def)
  then show ?case
    using Cons by (simp add: bindM_def run_expire_user)
qed simp

lemma group_of_set: "group_of v (set_user_group u g st) = (if v = u then map_option (\<lambda>_. g) (group_of u st) else group_of v st)"
proof -
  have "map_option us_Group (find (\<lambda>x. us_Id x = v) (map (\<lambda>x. if us_Id x = u then x\<lparr>us_Group := g\<rparr> else x) xs))
      = (if v = u then map_option (\<lambda>_. g) (find (\<lambda>x. us_Id x = u) xs) else map_option us_Group (find (\<lambda>x. us_Id x = v) xs))" for xs
    by (induction xs) auto
  from this [of "db_users st"] show ?thesis
    by (cases "v = u") (simp_all add: group_of_def set_user_group_def option.map_comp comp_def)
qed

lemma group_of_tables [simp]:
  "group_of v (UpdateUserGroupCache u g st) = group_of v st" "group_of v (expire_rows u now st) = group_of v st"
  by (simp_all add: group_of_def)

lemma expire_step_effect:
  "db_subs (expire_step now u st) = db_subs (expire_rows u now st)" "db_premium (expire_step now u st) = db_premium st"
  "upgrade_groups v now i (expire_step now u st) = upgrade_groups v now i st"
  "group_of v (expire_step now u st) =
     (if v = u then map_option (\<lambda>_. resolveUserGroupFromActive (db_premium st) (upgrade_groups u now 0 st)) (group_of u st)
      else group_of v st)"
proof -
  have same: "upgrade_groups v now i st1 = upgrade_groups v now i st2" if "db_subs st1 = db_subs st2" for st1 st2
    using that by (simp add: upgrade_groups_def)
  show subs: "db_subs (expire_step now u st) = db_subs (expire_rows u now st)"
    by (simp add: expire_step_def Let_def)
  show "db_premium (expire_step now u st) = db_premium st"
    by (simp add: expire_step_def Let_def)
  show "upgrade_groups v now i (expire_step now u st) = upgrade_groups v now i st"
    using same [OF subs] upgrade_groups_expire by simp
  show "group_of v (expire_step now u st) =
     (if v = u then map_option (\<lambda>_. resolveUserGroupFromActive (db_premium st) (upgrade_groups u now 0 st)) (group_of u st)
      else group_of v st)"
    by (auto simp: expire_step_def Let_def group_of_set upgrade_groups_expire)
qed

lemma expire_steps_effect:
  "upgrade_groups v now i (fold (expire_step now) us st) = upgrade_groups v now i st
   \<and> db_premium (fold (expire_step now) us st) = db_premium st
   \<and> (\<forall>s'\<in>set (db_subs (fold (expire_step now) us st)). is_due now s' \<longrightarrow> s' \<in> set (db_subs st) \<and> sb_UserId s' \<notin> set us)
   \<and> group_of v (fold (expire_step now) us st) =
     (if v \<in> set us then map_option (\<lambda>_. resolveUserGroupFromActive (db_premium st) (upgrade_groups v now 0 st)) (group_of v st)
      else group_of v st)"
proof (induction us arbitrary: st)
  case (Cons u us)
  have expired: "str ''expired'' \<noteq> str ''active''"
    by code_simp
  have rows: "s' \<in> set (db_subs st) \<and> sb_UserId s' \<noteq> u" if "s' \<in> set (db_subs (expire_rows u now st))" "is_due now s'" for s'
    using that expired by (auto simp: expire_rows_def is_due_def split: if_splits)
  show ?case
    using Cons.IH [of "expire_step now u st"] rows
    by (auto simp: expire_step_effect option.map_comp comp_def split: if_splits)
qed simp



lemma run_check_limit: "check_limit owned plan st = (Inr x, st1) \<Longrightarrow> db_faults st = [] \<Longrightarrow> st1 = st"
  by (auto simp: check_limit_def bindM_def split: if_splits)

lemma run_plan_times: "plan_times plan st = (Inr x, st1) \<Longrightarrow> st1 = st"
  by (auto simp: plan_times_def bindM_def split: sum.splits)

lemma run_upgrade_on_buy:
  assumes "upgrade_on_buy u g st = (Inr x, st1)" "db_faults st = []"
  shows "db_faults st1 = [] \<and> group_of v st1 =
    (if v = u \<and> g \<noteq> [] then map_option (\<lambda>c. resolveUserGroupOnBuy (db_premium st) c g) (group_of u st) else group_of v st)"
proof (cases "g = [] \<or> u \<le> 0")
  case True
  then show ?thesis
    using assms by (cases "g = []") (auto simp: upgrade_on_buy_def getUserGroupByIdTx_def bindM_def)
next
  case False
  define c where "c = (case find (\<lambda>x. us_Id x = u) (db_users st) of None \<Rightarrow> [] | Some x \<Rightarrow> us_Group x)"
  define n where "n = resolveUserGroupOnBuy (db_premium st) c g"
  have c: "group_of u st = Some c \<or> group_of u st = None"
    by (auto simp: group_of_def c_def split: option.splits)
  have "st1 = (if n \<noteq> c then set_user_group u n st else st)"
    using assms False by (auto simp: upgrade_on_buy_def getUserGroupByIdTx_def bindM_def Let_def c_def n_def split: if_splits)
  then show ?thesis
    using assms(2) c False by (auto simp: group_of_set n_def split: if_splits)
qed

lemma run_create_sub: "create_sub s st = (Inr x, st1) \<Longrightarrow> db_faults st = [] \<Longrightarrow> db_faults st1 = [] \<and> group_of v st1 = group_of v st
    \<and> db_group_cache st1 = db_group_cache st"
  by (auto simp: create_sub_def bindM_def group_of_def)

lemma run_CreateUser:
  assumes "CreateUserSubscriptionFromPlanTx u plan source st = (Inr x, st1)" "db_faults st = []"
  shows "db_faults st1 = [] \<and> group_of v st1 =
    (if v = u \<and> TrimSpace (pl_UpgradeGroup plan) \<noteq> []
     then map_option (\<lambda>c. resolveUserGroupOnBuy (db_premium st) c (TrimSpace (pl_UpgradeGroup plan))) (group_of u st)
     else group_of v st)"
proof -
  obtain a where limit: "check_limit (\<lambda>s. sb_UserId s = u \<and> sb_TeamId s = 0) plan st = (Inr a, st)"
    using assms run_check_limit [of _ plan st] by (auto simp: CreateUserSubscriptionFromPlanTx_def bindM_def split: if_splits prod.splits sum.splits)
  obtain now e n where times: "plan_times plan st = (Inr (now, e, n), st)"
    using assms run_plan_times [of plan st]
    by (auto simp: CreateUserSubscriptionFromPlanTx_def bindM_def limit split: if_splits prod.splits sum.splits)
  obtain p st2 where upgrade: "upgrade_on_buy u (TrimSpace (pl_UpgradeGroup plan)) st = (Inr p, st2)"
    "create_sub (new_subscription u 0 plan source now e n p) st2 = (Inr x, st1)"
    using assms by (auto simp: CreateUserSubscriptionFromPlanTx_def bindM_def limit times split: if_splits prod.splits sum.splits)
  show ?thesis
    using run_upgrade_on_buy [OF upgrade(1) assms(2), of v] run_create_sub [OF upgrade(2), of v] by auto
qed

lemma run_AdminBind:
  assumes "AdminBindSubscription u i st = (Inr m, st')" "db_faults st = []" "find (\<lambda>p. pl_Id p = i) (db_plans st) = Some plan"
  shows "group_of v st' =
      (if v = u \<and> TrimSpace (pl_UpgradeGroup plan) \<noteq> []
       then map_option (\<lambda>c. resolveUserGroupOnBuy (db_premium st) c (TrimSpace (pl_UpgradeGroup plan))) (group_of u st)
       else group_of v st)
    \<and> (TrimSpace (pl_UpgradeGroup plan) \<noteq> [] \<longrightarrow> map_of (db_group_cache st') u = Some (pl_UpgradeGroup plan))"
proof -
  obtain x st1 where run: "CreateUserSubscriptionFromPlanTx u plan (str ''admin'') st = (Inr x, st1)"
    and st': "st' = (if TrimSpace (pl_UpgradeGroup plan) \<noteq> [] then UpdateUserGroupCache u (pl_UpgradeGroup plan) st1 else st1)"
    using assms run_CreateUser [of u plan "str ''admin''" st _ _ v]
    by (auto simp: AdminBindSubscription_def getSubscriptionPlanByIdTx_def bindM_def transactionM_def split: if_splits prod.splits sum.splits)
  show ?thesis
    using run_CreateUser [OF run assms(2), of v] unfolding st' by (auto simp: UpdateUserGroupCache_def group_of_def)
qed





end
