(* ===== verification/Billing.thy ===== *)
theory Billing
  imports ChannelSelect Subscriptions "HOL-Library.AList"
begin

text \<open>
  Billing of one request (service/billing_session.go, service/funding_source.go, service/billing.go):
  a session reserves quota from a wallet or a subscription and from the token, and settles the
  difference to the actual amount or refunds the reservation. Below it the quotas of users, tokens and
  team members (model/user.go, model/token.go, model/team.go) with the batch updater (model/utils.go).

  Redis is disabled, so that quotas are read from the database. A refund runs at once, where the code
  starts a goroutine. Notifications are left out. Texts of errors that are not in ASCII, and those with
  formatted quotas, are represented by keys.
\<close>

subsection \<open>Quotas\<close>

definition ignoreM :: "'a db \<Rightarrow> unit db" where
  "ignoreM m = catchM m (\<lambda>_. returnM ()) (\<lambda>_. returnM ())"

definition tryM :: "'a db \<Rightarrow> jstr option db" where
  "tryM m = catchM m (\<lambda>e. returnM (Some e)) (\<lambda>_. returnM None)"

definition negative_quota :: jstr where
  "negative_quota = str ''quota must not be negative''"

definition addNewRecord :: "int \<Rightarrow> int \<Rightarrow> (int \<times> int) list \<Rightarrow> (int \<times> int) list" where
  "addNewRecord i v pending =
     (case map_of pending i of None \<Rightarrow> AList.update i v pending | Some old \<Rightarrow> AList.update i (old + v) pending)"

definition increaseUserQuota :: "int \<Rightarrow> int \<Rightarrow> unit db" where
  "increaseUserQuota i quota =
     writeM (\<lambda>st. st\<lparr>db_users := map (\<lambda>u. if us_Id u = i then u\<lparr>us_Quota := us_Quota u + quota\<rparr> else u) (db_users st)\<rparr>)"

definition decreaseUserQuota :: "int \<Rightarrow> int \<Rightarrow> unit db" where
  "decreaseUserQuota i quota =
     writeM (\<lambda>st. st\<lparr>db_users := map (\<lambda>u. if us_Id u = i then u\<lparr>us_Quota := us_Quota u - quota\<rparr> else u) (db_users st)\<rparr>)"

definition IncreaseUserQuota :: "int \<Rightarrow> int \<Rightarrow> bool \<Rightarrow> unit db" where
  "IncreaseUserQuota i quota direct =
     (if quota < 0 then failM negative_quota
      else bindM (getsM db_batch) (\<lambda>batch.
        if \<not> direct \<and> batch
        then modifyM (\<lambda>st. st\<lparr>db_pending_user := addNewRecord i quota (db_pending_user st)\<rparr>)
        else increaseUserQuota i quota))"

definition DecreaseUserQuota :: "int \<Rightarrow> int \<Rightarrow> unit db" where
  "DecreaseUserQuota i quota =
     (if quota < 0 then failM negative_quota
      else bindM (getsM db_batch) (\<lambda>batch.
        if batch then modifyM (\<lambda>st. st\<lparr>db_pending_user := addNewRecord i (- quota) (db_pending_user st)\<rparr>)
        else decreaseUserQuota i quota))"

definition DeltaUpdateUserQuota :: "int \<Rightarrow> int \<Rightarrow> unit db" where
  "DeltaUpdateUserQuota i delta =
     (if delta = 0 then returnM ()
      else if 0 < delta then IncreaseUserQuota i delta False else DecreaseUserQuota i (- delta))"

definition GetUserQuota :: "int \<Rightarrow> int db" where
  "GetUserQuota i = readM (\<lambda>st. case find (\<lambda>u. us_Id u = i) (db_users st) of None \<Rightarrow> 0 | Some u \<Rightarrow> us_Quota u)"

definition GetTokenByKey :: "jstr \<Rightarrow> Token db" where
  "GetTokenByKey key = firstM (\<lambda>st. find (\<lambda>t. tk_Key t = key) (db_tokens st))"

definition increaseTokenQuota :: "int \<Rightarrow> int \<Rightarrow> unit db" where
  "increaseTokenQuota i quota =
     writeM (\<lambda>st. st\<lparr>db_tokens := map (\<lambda>t. if tk_Id t = i
         then t\<lparr>tk_RemainQuota := tk_RemainQuota t + quota, tk_UsedQuota := tk_UsedQuota t - quota\<rparr> else t) (db_tokens st)\<rparr>)"

definition decreaseTokenQuota :: "int \<Rightarrow> int \<Rightarrow> unit db" where
  "decreaseTokenQuota i quota =
     writeM (\<lambda>st. st\<lparr>db_tokens := map (\<lambda>t. if tk_Id t = i
         then t\<lparr>tk_RemainQuota := tk_RemainQuota t - quota, tk_UsedQuota := tk_UsedQuota t + quota\<rparr> else t) (db_tokens st)\<rparr>)"

definition IncreaseTokenQuota :: "int \<Rightarrow> jstr \<Rightarrow> int \<Rightarrow> unit db" where
  "IncreaseTokenQuota tokenId key quota =
     (if quota < 0 then failM negative_quota
      else bindM (getsM db_batch) (\<lambda>batch.
        if batch then modifyM (\<lambda>st. st\<lparr>db_pending_token := addNewRecord tokenId quota (db_pending_token st)\<rparr>)
        else increaseTokenQuota tokenId quota))"

definition DecreaseTokenQuota :: "int \<Rightarrow> jstr \<Rightarrow> int \<Rightarrow> unit db" where
  "DecreaseTokenQuota tokenId key quota =
     (if quota < 0 then failM negative_quota
      else bindM (getsM db_batch) (\<lambda>batch.
        if batch then modifyM (\<lambda>st. st\<lparr>db_pending_token := addNewRecord tokenId (- quota) (db_pending_token st)\<rparr>)
        else decreaseTokenQuota tokenId quota))"

text \<open>
  The batch updater takes a store of pending changes and applies its entries one by one; one that
  fails is only logged. The stores for statistics are left out.
\<close>

definition batchUpdate :: "unit db" where
  "batchUpdate =
     bindM (getsM db_pending_user) (\<lambda>pending.
     bindM (modifyM (\<lambda>st. st\<lparr>db_pending_user := []\<rparr>)) (\<lambda>_.
     bindM (forM pending (\<lambda>(key, value). ignoreM (increaseUserQuota key value))) (\<lambda>_.
     bindM (getsM db_pending_token) (\<lambda>pending'.
     bindM (modifyM (\<lambda>st. st\<lparr>db_pending_token := []\<rparr>)) (\<lambda>_.
       forM pending' (\<lambda>(key, value). ignoreM (increaseTokenQuota key value)))))))"

definition GetTeamMemberQuota :: "int \<Rightarrow> int \<Rightarrow> (int \<times> int) db" where
  "GetTeamMemberQuota teamId userId =
     bindM (firstM (\<lambda>st. find (\<lambda>m. tm_TeamId m = teamId \<and> tm_UserId m = userId) (db_members st)))
       (\<lambda>m. returnM (tm_QuotaLimit m, tm_UsedQuota m))"

definition IncrTeamMemberUsedQuota :: "int \<Rightarrow> int \<Rightarrow> int \<Rightarrow> unit db" where
  "IncrTeamMemberUsedQuota teamId userId delta =
     (if delta = 0 then returnM ()
      else writeM (\<lambda>st. st\<lparr>db_members := map (\<lambda>m. if tm_TeamId m = teamId \<and> tm_UserId m = userId
          then m\<lparr>tm_UsedQuota := tm_UsedQuota m + delta\<rparr> else m) (db_members st)\<rparr>))"

definition SetTeamMemberQuotaLimit :: "int \<Rightarrow> int \<Rightarrow> int \<Rightarrow> unit db" where
  "SetTeamMemberQuotaLimit teamId userId limit =
     writeM (\<lambda>st. st\<lparr>db_members := map (\<lambda>m. if tm_TeamId m = teamId \<and> tm_UserId m = userId
         then m\<lparr>tm_QuotaLimit := (if limit < 0 then 0 else limit)\<rparr> else m) (db_members st)\<rparr>)"


subsection \<open>Funding sources\<close>

record subscription_funding =
  sf_requestId :: jstr
  sf_owner :: int
  sf_amount :: int
  sf_subscriptionId :: int
  sf_preConsumed :: int
  sf_AmountTotal :: int
  sf_AmountUsedAfter :: int
  sf_PlanId :: int
  sf_PlanTitle :: jstr

text \<open>The owner of a subscription is a user or a team. A wallet has its user and the amount reserved.\<close>

datatype FundingSource =
    WalletFunding int int
  | SubscriptionFunding subscription_funding
  | TeamSubscriptionFunding subscription_funding

fun Source :: "FundingSource \<Rightarrow> jstr" where
  "Source (WalletFunding _ _) = str ''wallet''"
| "Source (SubscriptionFunding _) = str ''subscription''"
| "Source (TeamSubscriptionFunding _) = str ''subscription''"

definition wallet_PreConsume :: "int \<times> int \<Rightarrow> int \<Rightarrow> (int \<times> int) db" where
  "wallet_PreConsume w amount =
     (if amount \<le> 0 then returnM w else bindM (DecreaseUserQuota (fst w) amount) (\<lambda>_. returnM (fst w, amount)))"

definition wallet_Settle :: "int \<times> int \<Rightarrow> int \<Rightarrow> unit db" where
  "wallet_Settle w delta =
     (if delta = 0 then returnM ()
      else if 0 < delta then DecreaseUserQuota (fst w) delta else IncreaseUserQuota (fst w) (- delta) False)"

definition wallet_Refund :: "int \<times> int \<Rightarrow> unit db" where
  "wallet_Refund w = (if snd w \<le> 0 then returnM () else IncreaseUserQuota (fst w) (snd w) False)"

text \<open>The two kinds of subscription differ in the function that charges them.\<close>

definition subscription_PreConsume ::
    "(jstr \<Rightarrow> int \<Rightarrow> int \<Rightarrow> SubscriptionPreConsumeResult db) \<Rightarrow> subscription_funding \<Rightarrow> int \<Rightarrow> subscription_funding db" where
  "subscription_PreConsume charge s amount =
     bindM (charge (sf_requestId s) (sf_owner s) (sf_amount s)) (\<lambda>res.
       let s' = s\<lparr>sf_subscriptionId := rs_UserSubscriptionId res, sf_preConsumed := rs_PreConsumed res,
                  sf_AmountTotal := rs_AmountTotal res, sf_AmountUsedAfter := rs_AmountUsedAfter res\<rparr>
       in catchM (GetSubscriptionPlanInfoByUserSubscriptionId (rs_UserSubscriptionId res))
            (\<lambda>_. returnM s') (\<lambda>(planId, title). returnM (s'\<lparr>sf_PlanId := planId, sf_PlanTitle := title\<rparr>)))"

definition subscription_Settle :: "subscription_funding \<Rightarrow> int \<Rightarrow> unit db" where
  "subscription_Settle s delta =
     (if delta = 0 then returnM () else PostConsumeUserSubscriptionDelta (sf_subscriptionId s) delta)"

definition refundWithRetry :: "unit db \<Rightarrow> unit db" where
  "refundWithRetry fn = catchM fn (\<lambda>_. catchM fn (\<lambda>_. fn) (\<lambda>_. returnM ())) (\<lambda>_. returnM ())"

definition subscription_Refund :: "subscription_funding \<Rightarrow> unit db" where
  "subscription_Refund s =
     (if sf_preConsumed s \<le> 0 then returnM () else refundWithRetry (RefundSubscriptionPreConsume (sf_requestId s)))"

fun funding_PreConsume :: "FundingSource \<Rightarrow> int \<Rightarrow> FundingSource db" where
  "funding_PreConsume (WalletFunding u c) amount =
     bindM (wallet_PreConsume (u, c) amount) (\<lambda>w. returnM (WalletFunding (fst w) (snd w)))"
| "funding_PreConsume (SubscriptionFunding s) amount =
     bindM (subscription_PreConsume PreConsumeUserSubscription s amount) (\<lambda>s'. returnM (SubscriptionFunding s'))"
| "funding_PreConsume (TeamSubscriptionFunding s) amount =
     bindM (subscription_PreConsume PreConsumeTeamSubscription s amount) (\<lambda>s'. returnM (TeamSubscriptionFunding s'))"

fun funding_Settle :: "FundingSource \<Rightarrow> int \<Rightarrow> unit db" where
  "funding_Settle (WalletFunding u c) delta = wallet_Settle (u, c) delta"
| "funding_Settle (SubscriptionFunding s) delta = subscription_Settle s delta"
| "funding_Settle (TeamSubscriptionFunding s) delta = subscription_Settle s delta"

fun funding_Refund :: "FundingSource \<Rightarrow> unit db" where
  "funding_Refund (WalletFunding u c) = wallet_Refund (u, c)"
| "funding_Refund (SubscriptionFunding s) = subscription_Refund s"
| "funding_Refund (TeamSubscriptionFunding s) = subscription_Refund s"


subsection \<open>Sessions\<close>

record RelayInfo =
  ri_UserId :: int
  ri_TokenId :: int
  ri_TokenKey :: jstr
  ri_TokenUnlimited :: bool
  ri_TokenTeamId :: int
  ri_IsPlayground :: bool
  ri_ForcePreConsume :: bool
  ri_RequestId :: jstr
  ri_OriginModelName :: jstr
  ri_BillingPreference :: jstr
  ri_UserQuota :: int
  ri_BillingWalletFallback :: bool
  ri_FinalPreConsumedQuota :: int
  ri_BillingSource :: jstr
  ri_SubscriptionId :: int
  ri_SubscriptionPreConsumed :: int
  ri_SubscriptionPostDelta :: int
  ri_SubscriptionAmountTotal :: int
  ri_SubscriptionAmountUsedAfterPreConsume :: int
  ri_SubscriptionPlanId :: int
  ri_SubscriptionPlanTitle :: jstr

record BillingSession =
  bs_relayInfo :: RelayInfo
  bs_funding :: FundingSource
  bs_preConsumedQuota :: int
  bs_tokenConsumed :: int
  bs_fundingSettled :: bool
  bs_settled :: bool
  bs_refunded :: bool

text \<open>What a session reads besides: the trust quota, the token's quota in the request context, the flag
  of the distributor, and the cache of channels.\<close>

record billing_env =
  be_trustQuota :: int
  be_token_quota :: int
  be_forceWallet :: bool
  be_cache :: channel_cache

definition adjust_token :: "RelayInfo \<Rightarrow> int \<Rightarrow> unit db" where
  "adjust_token info delta =
     (if 0 < delta then DecreaseTokenQuota (ri_TokenId info) (ri_TokenKey info) delta
      else IncreaseTokenQuota (ri_TokenId info) (ri_TokenKey info) (- delta))"

definition is_team :: "FundingSource \<Rightarrow> bool" where
  "is_team f = (case f of TeamSubscriptionFunding _ \<Rightarrow> True | _ \<Rightarrow> False)"

definition post_delta :: "int \<Rightarrow> BillingSession \<Rightarrow> BillingSession" where
  "post_delta delta s =
     (if Source (bs_funding s) = str ''subscription''
      then s\<lparr>bs_relayInfo := (bs_relayInfo s)\<lparr>ri_SubscriptionPostDelta := ri_SubscriptionPostDelta (bs_relayInfo s) + delta\<rparr>\<rparr>
      else s)"

definition Settle :: "int \<Rightarrow> BillingSession \<Rightarrow> (jstr option \<times> BillingSession) db" where
  "Settle actualQuota s =
     (let info = bs_relayInfo s; delta = actualQuota - bs_preConsumedQuota s
      in if bs_settled s then returnM (None, s)
         else bindM (if is_team (bs_funding s) \<and> 0 < actualQuota \<and> \<not> ri_IsPlayground info
                     then ignoreM (IncrTeamMemberUsedQuota (ri_TokenTeamId info) (ri_UserId info) actualQuota) else returnM ()) (\<lambda>_.
           if delta = 0 then returnM (None, s\<lparr>bs_settled := True\<rparr>)
           else bindM (if bs_fundingSettled s then returnM None else tryM (funding_Settle (bs_funding s) delta)) (\<lambda>err.
             case err of
               Some e \<Rightarrow> returnM (Some e, s)
             | None \<Rightarrow>
                 bindM (if ri_IsPlayground info then returnM None else tryM (adjust_token info delta)) (\<lambda>tokenErr.
                   returnM (tokenErr, post_delta delta (s\<lparr>bs_fundingSettled := True, bs_settled := True\<rparr>))))))"

definition needsRefund :: "BillingSession \<Rightarrow> bool" where
  "needsRefund s =
     (if bs_settled s \<or> bs_refunded s \<or> bs_fundingSettled s then False
      else 0 < bs_tokenConsumed s
        \<or> (case bs_funding s of SubscriptionFunding f \<Rightarrow> 0 < sf_preConsumed f | _ \<Rightarrow> False))"

definition Refund :: "BillingSession \<Rightarrow> BillingSession db" where
  "Refund s =
     (let info = bs_relayInfo s
      in if bs_settled s \<or> bs_refunded s \<or> \<not> needsRefund s then returnM s
         else bindM (ignoreM (funding_Refund (bs_funding s))) (\<lambda>_.
              bindM (if 0 < bs_tokenConsumed s \<and> \<not> ri_IsPlayground info
                     then ignoreM (IncreaseTokenQuota (ri_TokenId info) (ri_TokenKey info) (bs_tokenConsumed s)) else returnM ())
                (\<lambda>_. returnM (s\<lparr>bs_refunded := True\<rparr>))))"

definition shouldTrust :: "billing_env \<Rightarrow> BillingSession \<Rightarrow> bool" where
  "shouldTrust env s =
     (let info = bs_relayInfo s
      in if ri_ForcePreConsume info then False
         else if be_trustQuota env \<le> 0 then False
         else if \<not> (ri_TokenUnlimited info \<or> be_trustQuota env < be_token_quota env) then False
         else if Source (bs_funding s) = str ''wallet'' then be_trustQuota env < ri_UserQuota info
         else False)"

definition sync_subscription :: "subscription_funding \<Rightarrow> RelayInfo \<Rightarrow> RelayInfo" where
  "sync_subscription sub info =
     info\<lparr>ri_SubscriptionId := sf_subscriptionId sub, ri_SubscriptionPreConsumed := sf_preConsumed sub,
          ri_SubscriptionPostDelta := 0, ri_SubscriptionAmountTotal := sf_AmountTotal sub,
          ri_SubscriptionAmountUsedAfterPreConsume := sf_AmountUsedAfter sub, ri_SubscriptionPlanId := sf_PlanId sub,
          ri_SubscriptionPlanTitle := sf_PlanTitle sub\<rparr>"

definition syncRelayInfo :: "BillingSession \<Rightarrow> BillingSession" where
  "syncRelayInfo s =
     (let info = (bs_relayInfo s)\<lparr>ri_FinalPreConsumedQuota := bs_preConsumedQuota s, ri_BillingSource := Source (bs_funding s)\<rparr>
      in s\<lparr>bs_relayInfo :=
           (case bs_funding s of
              SubscriptionFunding sub \<Rightarrow> sync_subscription sub info
            | TeamSubscriptionFunding sub \<Rightarrow> sync_subscription sub info
            | WalletFunding _ _ \<Rightarrow> info\<lparr>ri_SubscriptionId := 0, ri_SubscriptionPreConsumed := 0\<rparr>)\<rparr>)"

definition PreConsumeTokenQuota :: "RelayInfo \<Rightarrow> int \<Rightarrow> unit db" where
  "PreConsumeTokenQuota info quota =
     (if quota < 0 then failM negative_quota
      else if ri_IsPlayground info then returnM ()
      else bindM (GetTokenByKey (ri_TokenKey info)) (\<lambda>token.
        if \<not> ri_TokenUnlimited info \<and> tk_RemainQuota token < quota then failM (str ''token quota is not enough'')
        else DecreaseTokenQuota (ri_TokenId info) (ri_TokenKey info) quota))"

definition quota_error :: "jstr \<Rightarrow> NewAPIError" where
  "quota_error m =
     NewErrorWithStatusCode m (str ''insufficient_user_quota'') 403 [ErrOptionWithSkipRetry, ErrOptionWithNoRecordErrorLog]"

definition query_error :: "jstr \<Rightarrow> NewAPIError" where
  "query_error m = NewError (PlainError m) (str ''query_data_error'') [ErrOptionWithSkipRetry]"

definition funding_error :: "jstr \<Rightarrow> NewAPIError" where
  "funding_error e =
     (if includes_str e (str ''no active subscription'') \<or> includes_str e (str ''subscription quota insufficient'')
      then quota_error (str ''no subscription or not enough quota: '' @ e)
      else NewError (PlainError e) (str ''update_data_error'') [ErrOptionWithSkipRetry])"

definition rollback_token :: "BillingSession \<Rightarrow> BillingSession db" where
  "rollback_token s =
     (let info = bs_relayInfo s
      in if 0 < bs_tokenConsumed s \<and> \<not> ri_IsPlayground info
         then bindM (ignoreM (IncreaseTokenQuota (ri_TokenId info) (ri_TokenKey info) (bs_tokenConsumed s)))
                (\<lambda>_. returnM (s\<lparr>bs_tokenConsumed := 0\<rparr>))
         else returnM s)"

definition preConsume :: "billing_env \<Rightarrow> BillingSession \<Rightarrow> int \<Rightarrow> (NewAPIError option \<times> BillingSession) db" where
  "preConsume env s quota =
     (let effectiveQuota = (if shouldTrust env s then 0 else quota)
      in bindM (if 0 < effectiveQuota then tryM (PreConsumeTokenQuota (bs_relayInfo s) effectiveQuota) else returnM None) (\<lambda>err.
         case err of
           Some e \<Rightarrow>
             returnM (Some (NewErrorWithStatusCode e (str ''pre_consume_token_quota_failed'') 403
                        [ErrOptionWithSkipRetry, ErrOptionWithNoRecordErrorLog]), s)
         | None \<Rightarrow>
             (let s1 = (if 0 < effectiveQuota then s\<lparr>bs_tokenConsumed := effectiveQuota\<rparr> else s)
              in catchM (funding_PreConsume (bs_funding s1) effectiveQuota)
                   (\<lambda>e. bindM (rollback_token s1) (\<lambda>s2. returnM (Some (funding_error e), s2)))
                   (\<lambda>f. returnM (None, syncRelayInfo (s1\<lparr>bs_funding := f, bs_preConsumedQuota := effectiveQuota\<rparr>))))))"


subsection \<open>Choosing the source\<close>

definition NormalizeBillingPreference :: "jstr \<Rightarrow> jstr" where
  "NormalizeBillingPreference pref =
     (if TrimSpace pref \<in> {str ''subscription_first'', str ''wallet_first'', str ''subscription_only'', str ''wallet_only''}
      then TrimSpace pref else str ''subscription_first'')"

definition isOutOfPlanGroupModel :: "channel_cache \<Rightarrow> int \<Rightarrow> jstr \<Rightarrow> bool db" where
  "isOutOfPlanGroupModel cache userId modelName =
     (if userId \<le> 0 then returnM False
      else catchM (IsWalletFallbackEnabledForUser userId) (\<lambda>_. returnM False) (\<lambda>enabled.
        if \<not> enabled then returnM False
        else catchM (GetActiveUpgradeGroups userId) (\<lambda>_. returnM False) (\<lambda>groups.
          if groups = [] then returnM False
          else returnM (\<forall>g\<in>set groups. \<not> IsModelServableInGroup cache g modelName))))"

type_synonym billing_result = "(NewAPIError + BillingSession) \<times> RelayInfo"

definition new_session :: "RelayInfo \<Rightarrow> FundingSource \<Rightarrow> BillingSession" where
  "new_session info f =
     \<lparr>bs_relayInfo = info, bs_funding = f, bs_preConsumedQuota = 0, bs_tokenConsumed = 0, bs_fundingSettled = False,
      bs_settled = False, bs_refunded = False\<rparr>"

definition start_session :: "billing_env \<Rightarrow> RelayInfo \<Rightarrow> FundingSource \<Rightarrow> int \<Rightarrow> billing_result db" where
  "start_session env info f quota =
     bindM (preConsume env (new_session info f) quota) (\<lambda>(err, s).
       returnM (case err of Some e \<Rightarrow> Inl e | None \<Rightarrow> Inr s, bs_relayInfo s))"

definition new_funding :: "RelayInfo \<Rightarrow> int \<Rightarrow> int \<Rightarrow> subscription_funding" where
  "new_funding info owner amount =
     \<lparr>sf_requestId = ri_RequestId info, sf_owner = owner, sf_amount = amount, sf_subscriptionId = 0, sf_preConsumed = 0,
      sf_AmountTotal = 0, sf_AmountUsedAfter = 0, sf_PlanId = 0, sf_PlanTitle = []\<rparr>"

definition tryWallet :: "billing_env \<Rightarrow> RelayInfo \<Rightarrow> int \<Rightarrow> billing_result db" where
  "tryWallet env info preConsumedQuota =
     catchM (GetUserQuota (ri_UserId info)) (\<lambda>e. returnM (Inl (query_error e), info)) (\<lambda>userQuota.
       if userQuota \<le> 0 then returnM (Inl (quota_error (str ''user quota is not enough'')), info)
       else if userQuota - preConsumedQuota < 0 then returnM (Inl (quota_error (str ''user quota is less than needed'')), info)
       else start_session env (info\<lparr>ri_UserQuota := userQuota\<rparr>) (WalletFunding (ri_UserId info) 0) preConsumedQuota)"

definition trySubscription :: "billing_env \<Rightarrow> RelayInfo \<Rightarrow> int \<Rightarrow> billing_result db" where
  "trySubscription env info preConsumedQuota =
     (let subConsume = (if preConsumedQuota \<le> 0 then 1 else preConsumedQuota)
      in start_session env info (SubscriptionFunding (new_funding info (ri_UserId info) subConsume)) subConsume)"

definition team_session :: "billing_env \<Rightarrow> RelayInfo \<Rightarrow> int \<Rightarrow> billing_result db" where
  "team_session env info preConsumedQuota =
     (let teamId = ri_TokenTeamId info; subConsume = (if preConsumedQuota \<le> 0 then 1 else preConsumedQuota)
      in catchM (HasActiveTeamSubscription teamId) (\<lambda>e. returnM (Inl (query_error e), info)) (\<lambda>hasSub.
           if \<not> hasSub then returnM (Inl (quota_error (str ''no active subscription of the team'')), info)
           else bindM (catchM (GetTeamMemberQuota teamId (ri_UserId info)) (\<lambda>_. returnM False)
                        (\<lambda>(limit, used). returnM (0 < limit \<and> limit \<le> used))) (\<lambda>exhausted.
             if exhausted then returnM (Inl (quota_error (str ''quota of the team member used up'')), info)
             else start_session env info (TeamSubscriptionFunding (new_funding info teamId subConsume)) subConsume)))"

definition first_then ::
    "billing_result db \<Rightarrow> (RelayInfo \<Rightarrow> billing_result db) \<Rightarrow> billing_result db" where
  "first_then m n =
     bindM m (\<lambda>(r, info). case r of
       Inl e \<Rightarrow> if GetErrorCode (Some e) = str ''insufficient_user_quota'' then n info else returnM (Inl e, info)
     | Inr s \<Rightarrow> returnM (Inr s, info))"

definition NewBillingSession :: "billing_env \<Rightarrow> RelayInfo \<Rightarrow> int \<Rightarrow> billing_result db" where
  "NewBillingSession env info preConsumedQuota =
     (let pref = NormalizeBillingPreference (ri_BillingPreference info)
      in if 0 < ri_TokenTeamId info then team_session env info preConsumedQuota
         else bindM (if be_forceWallet env then returnM True
                     else isOutOfPlanGroupModel (be_cache env) (ri_UserId info) (ri_OriginModelName info)) (\<lambda>forceWallet.
           if forceWallet then
             (if pref = str ''subscription_only'' then returnM (Inl (quota_error (str ''model outside of the plan'')), info)
              else tryWallet env (info\<lparr>ri_BillingWalletFallback := True\<rparr>) preConsumedQuota)
           else if pref = str ''subscription_only'' then trySubscription env info preConsumedQuota
           else if pref = str ''wallet_only'' then tryWallet env info preConsumedQuota
           else if pref = str ''wallet_first''
           then first_then (tryWallet env info preConsumedQuota) (\<lambda>info'. trySubscription env info' preConsumedQuota)
           else catchM (HasActiveUserSubscription (ri_UserId info)) (\<lambda>e. returnM (Inl (query_error e), info)) (\<lambda>hasSub.
                  if \<not> hasSub then tryWallet env info preConsumedQuota
                  else first_then (trySubscription env info preConsumedQuota) (\<lambda>info'. tryWallet env info' preConsumedQuota))))"

text \<open>Settling without a session, as for requests that were not charged before.\<close>

definition PostConsumeQuota :: "RelayInfo \<Rightarrow> int \<Rightarrow> (jstr option \<times> RelayInfo) db" where
  "PostConsumeQuota info quota =
     (let tokens = (\<lambda>info'. if ri_IsPlayground info' then returnM (None, info')
                            else bindM (tryM (adjust_token info' quota)) (\<lambda>err. returnM (err, info')))
      in if ri_BillingSource info = str ''subscription'' then
           (if ri_SubscriptionId info = 0 then returnM (Some (str ''subscription id is missing''), info)
            else if quota = 0 then tokens info
            else catchM (PostConsumeUserSubscriptionDelta (ri_SubscriptionId info) quota) (\<lambda>e. returnM (Some e, info))
                   (\<lambda>_. tokens (info\<lparr>ri_SubscriptionPostDelta := ri_SubscriptionPostDelta info + quota\<rparr>)))
         else catchM (if 0 < quota then DecreaseUserQuota (ri_UserId info) quota else IncreaseUserQuota (ri_UserId info) (- quota) False)
                (\<lambda>e. returnM (Some e, info)) (\<lambda>_. tokens info))"

definition SettleBilling ::
    "BillingSession option \<Rightarrow> RelayInfo \<Rightarrow> int \<Rightarrow> (jstr option \<times> BillingSession option \<times> RelayInfo) db" where
  "SettleBilling billing info actualQuota =
     (case billing of
        Some s \<Rightarrow> bindM (Settle actualQuota s) (\<lambda>(err, s'). returnM (err, Some s', bs_relayInfo s'))
      | None \<Rightarrow>
          (let quotaDelta = actualQuota - ri_FinalPreConsumedQuota info
           in if quotaDelta \<noteq> 0
              then bindM (PostConsumeQuota info quotaDelta) (\<lambda>(err, info'). returnM (err, None, info'))
              else returnM (None, None, info)))"

end
