(* ===== verification/BillingLaws.thy ===== *)
theory BillingLaws
  imports Billing SubscriptionCharges
begin

text \<open>
  What billing guarantees. A balance is the quota in the table together with the pending change of the
  batch updater. The contract of a funding source is the locale \<open>funding_source\<close>, interpreted on the
  three kinds of source; sessions rest on its facts.
\<close>

subsection \<open>Balances\<close>

definition pending_of :: "int \<Rightarrow> (int \<times> int) list \<Rightarrow> int" where
  "pending_of i pending = (case map_of pending i of None \<Rightarrow> 0 | Some v \<Rightarrow> v)"

definition user_balance :: "int \<Rightarrow> store \<Rightarrow> int" where
  "user_balance i st =
     (case find (\<lambda>u. us_Id u = i) (db_users st) of None \<Rightarrow> 0 | Some u \<Rightarrow> us_Quota u) + pending_of i (db_pending_user st)"

definition token_balance :: "int \<Rightarrow> store \<Rightarrow> int" where
  "token_balance i st =
     (case find (\<lambda>t. tk_Id t = i) (db_tokens st) of None \<Rightarrow> 0 | Some t \<Rightarrow> tk_RemainQuota t) + pending_of i (db_pending_token st)"

definition has_user :: "int \<Rightarrow> store \<Rightarrow> bool" where
  "has_user i st \<longleftrightarrow> i \<in> us_Id ` set (db_users st)"

definition has_token :: "int \<Rightarrow> store \<Rightarrow> bool" where
  "has_token i st \<longleftrightarrow> i \<in> tk_Id ` set (db_tokens st)"

lemma pending_of_simps [simp]: "pending_of i [] = 0"
  "pending_of i (addNewRecord j v p) = pending_of i p + (if i = j then v else 0)"
  by (auto simp: pending_of_def addNewRecord_def update_conv' split: option.splits)

text \<open>The effects of the quota operations.\<close>

definition add_user :: "int \<Rightarrow> int \<Rightarrow> store \<Rightarrow> store" where
  "add_user i d st = st\<lparr>db_users := map (\<lambda>u. if us_Id u = i then u\<lparr>us_Quota := us_Quota u + d\<rparr> else u) (db_users st)\<rparr>"

definition add_token :: "int \<Rightarrow> int \<Rightarrow> store \<Rightarrow> store" where
  "add_token i d st =
     st\<lparr>db_tokens := map (\<lambda>t. if tk_Id t = i
         then t\<lparr>tk_RemainQuota := tk_RemainQuota t + d, tk_UsedQuota := tk_UsedQuota t - d\<rparr> else t) (db_tokens st)\<rparr>"

definition change_user :: "int \<Rightarrow> int \<Rightarrow> store \<Rightarrow> store" where
  "change_user i d st =
     (if db_batch st then st\<lparr>db_pending_user := addNewRecord i d (db_pending_user st)\<rparr> else add_user i d st)"

definition change_token :: "int \<Rightarrow> int \<Rightarrow> store \<Rightarrow> store" where
  "change_token i d st =
     (if db_batch st then st\<lparr>db_pending_token := addNewRecord i d (db_pending_token st)\<rparr> else add_token i d st)"

lemma find_add_user:
  "find (\<lambda>u. us_Id u = i) (db_users (add_user j d st)) =
     map_option (\<lambda>u. if i = j then u\<lparr>us_Quota := us_Quota u + d\<rparr> else u) (find (\<lambda>u. us_Id u = i) (db_users st))"
proof -
  have "find (\<lambda>u. us_Id u = i) (map (\<lambda>u. if us_Id u = j then u\<lparr>us_Quota := us_Quota u + d\<rparr> else u) xs) =
     map_option (\<lambda>u. if i = j then u\<lparr>us_Quota := us_Quota u + d\<rparr> else u) (find (\<lambda>u. us_Id u = i) xs)" for xs
    by (induction xs) auto
  then show ?thesis
    by (simp add: add_user_def)
qed

lemma find_add_token:
  "find (\<lambda>t. tk_Id t = i) (db_tokens (add_token j d st)) =
     map_option (\<lambda>t. if i = j then t\<lparr>tk_RemainQuota := tk_RemainQuota t + d, tk_UsedQuota := tk_UsedQuota t - d\<rparr> else t)
       (find (\<lambda>t. tk_Id t = i) (db_tokens st))"
proof -
  have "find (\<lambda>t. tk_Id t = i) (map (\<lambda>t. if tk_Id t = j
         then t\<lparr>tk_RemainQuota := tk_RemainQuota t + d, tk_UsedQuota := tk_UsedQuota t - d\<rparr> else t) xs) =
     map_option (\<lambda>t. if i = j then t\<lparr>tk_RemainQuota := tk_RemainQuota t + d, tk_UsedQuota := tk_UsedQuota t - d\<rparr> else t)
       (find (\<lambda>t. tk_Id t = i) xs)" for xs
    by (induction xs) auto
  then show ?thesis
    by (simp add: add_token_def)
qed

lemma has_user_find: "has_user i st \<longleftrightarrow> find (\<lambda>u. us_Id u = i) (db_users st) \<noteq> None"
  by (auto simp: has_user_def find_None_iff)

lemma has_token_find: "has_token i st \<longleftrightarrow> find (\<lambda>t. tk_Id t = i) (db_tokens st) \<noteq> None"
  by (auto simp: has_token_def find_None_iff)

lemma balance_add_user:
  "user_balance i (add_user j d st) = user_balance i st + (if i = j \<and> has_user j st then d else 0)"
  unfolding user_balance_def find_add_user has_user_find by (auto simp: add_user_def split: option.splits)

lemma balance_add_token:
  "token_balance i (add_token j d st) = token_balance i st + (if i = j \<and> has_token j st then d else 0)"
  unfolding token_balance_def find_add_token has_token_find by (auto simp: add_token_def split: option.splits)

lemma balance_change [simp]:
  "has_user j st \<Longrightarrow> user_balance i (change_user j d st) = user_balance i st + (if i = j then d else 0)"
  "has_token j st \<Longrightarrow> token_balance i (change_token j d st) = token_balance i st + (if i = j then d else 0)"
  by (auto simp: change_user_def change_token_def balance_add_user balance_add_token)
    (simp_all add: user_balance_def token_balance_def)

lemma other_balance [simp]:
  "token_balance i (change_user j d st) = token_balance i st" "user_balance i (change_token j d st) = user_balance i st"
  by (simp_all add: change_user_def change_token_def user_balance_def token_balance_def add_user_def add_token_def)

lemma change_tables [simp]:
  "db_faults (change_user j d st) = db_faults st" "db_faults (change_token j d st) = db_faults st"
  "db_batch (change_user j d st) = db_batch st" "db_batch (change_token j d st) = db_batch st"
  "db_subs (change_user j d st) = db_subs st" "db_subs (change_token j d st) = db_subs st"
  "db_records (change_user j d st) = db_records st" "db_records (change_token j d st) = db_records st"
  "db_members (change_user j d st) = db_members st" "db_members (change_token j d st) = db_members st"
  by (simp_all add: change_user_def change_token_def add_user_def add_token_def)

lemma has_user_change [simp]:
  "has_user i (change_user j d st) = has_user i st" "has_user i (change_token j d st) = has_user i st"
  "has_token i (change_user j d st) = has_token i st" "has_token i (change_token j d st) = has_token i st"
  by (auto simp: has_user_find has_token_find change_user_def change_token_def find_add_user find_add_token)
    (auto simp: add_user_def add_token_def)

lemma run_quota:
  assumes "db_faults st = []" "0 \<le> q"
  shows "IncreaseUserQuota i q False st = (Inr (), change_user i q st)" "DecreaseUserQuota i q st = (Inr (), change_user i (- q) st)"
    "IncreaseTokenQuota i k q st = (Inr (), change_token i q st)" "DecreaseTokenQuota i k q st = (Inr (), change_token i (- q) st)"
  using assms
  by (simp_all add: IncreaseUserQuota_def DecreaseUserQuota_def IncreaseTokenQuota_def DecreaseTokenQuota_def bindM_def
      increaseUserQuota_def decreaseUserQuota_def increaseTokenQuota_def decreaseTokenQuota_def change_user_def change_token_def
      add_user_def add_token_def)


subsection \<open>Runs in which no access fails\<close>

abbreviation calm :: "'a db \<Rightarrow> bool" where
  "calm \<equiv> keeps (\<lambda>st. db_faults st = [])"

lemma calm_access: "calm accessM"
  by (simp add: keeps_def)

lemma calm_write: "(\<And>st. db_faults (f st) = db_faults st) \<Longrightarrow> calm (writeM f)"
  by (simp add: keeps_def)

lemma calm_read: "calm (readM f)" "calm (firstM g)"
  by (simp_all add: keeps_def)

lemma calm_transaction:
  assumes "calm m"
  shows "calm (transactionM m)"
proof (rule keepsI)
  fix st :: store
  assume st: "db_faults st = []"
  have "calm (bindM m (\<lambda>x. bindM accessM (\<lambda>_. returnM x)))"
    using assms by (intro keeps_bind calm_access keeps_return)
  then have "db_faults (snd (bindM m (\<lambda>x. bindM accessM (\<lambda>_. returnM x)) st)) = []"
    using st by (simp add: keeps_def)
  then show "db_faults (snd (transactionM m st)) = []"
    by (auto simp: transactionM_def split: prod.splits sum.splits)
qed

lemmas calm_intros = keeps_return keeps_bind keeps_catch keeps_if keeps_case_option calm_access calm_read calm_transaction

lemma calm_pre_consume: "calm (pre_consume owned owner none ins r a)"
proof -
  have reset: "calm (maybeResetUserSubscriptionWithPlanTx s plan now)" for s plan now
    unfolding maybeResetUserSubscriptionWithPlanTx_def by (intro calm_intros calm_write) simp
  have plan: "calm (getSubscriptionPlanByIdTx i)" for i
    unfolding getSubscriptionPlanByIdTx_def by (intro calm_intros)
  have row: "calm (consume_from r u a s)" for u s
    unfolding consume_from_def by (intro calm_intros calm_write) simp_all
  have "calm (consume_candidates r owner a now ins subs)" for now subs
  proof (induction subs)
    case (Cons s subs)
    then show ?case
      unfolding consume_candidates.simps by (intro calm_intros reset plan row)
  qed (simp add: keeps_def)
  then show ?thesis
    unfolding pre_consume_def by (intro calm_intros)
qed

lemma run_charge_fails:
  assumes "charge \<in> {PreConsumeUserSubscription r u, PreConsumeTeamSubscription r u}" "charge a st = (Inl e, st')" "db_faults st = []"
  shows "st' = st"
proof -
  have "st'' = st" if "pre_consume owned owner none ins r a st = (Inl e, st'')" for owned owner none ins st''
  proof -
    have "db_faults st'' = []"
      using calm_pre_consume [of owned owner none ins r a] that assms(3) by (auto simp: keeps_def dest: spec [of _ st])
    moreover have "st'' = st\<lparr>db_faults := db_faults st''\<rparr>"
      using that by (auto simp: pre_consume_def bindM_def transactionM_def split: prod.splits sum.splits)
    ultimately show ?thesis
      using assms(3) by simp
  qed
  then show ?thesis
    using assms(1,2) by (auto simp: PreConsumeUserSubscription_def PreConsumeTeamSubscription_def split: if_splits)
qed


subsection \<open>The contract of a funding source\<close>

text \<open>Nothing changes for tokens, and no access is going to fail.\<close>

definition same_tokens :: "store \<Rightarrow> store \<Rightarrow> bool" where
  "same_tokens st st' \<longleftrightarrow> db_faults st' = [] \<and> (\<forall>t. token_balance t st' = token_balance t st \<and> has_token t st' = has_token t st)"

lemma same_tokens_trans: "same_tokens st st' \<Longrightarrow> same_tokens st' st'' \<Longrightarrow> same_tokens st st''"
  by (simp add: same_tokens_def)

text \<open>
  A source that is \<open>ready\<close> for an amount reserves it, after which it \<open>holds\<close> the amount; what has been
  \<open>charged\<close> to it is then the amount more than \<open>before\<close>. Settling changes what is charged by the
  difference, and a refund takes the amount back. A reservation that fails charges nothing.
\<close>

locale funding_source =
  fixes reserve :: "'f \<Rightarrow> int \<Rightarrow> 'f db"
    and settle :: "'f \<Rightarrow> int \<Rightarrow> unit db"
    and refund :: "'f \<Rightarrow> unit db"
    and ready :: "'f \<Rightarrow> int \<Rightarrow> store \<Rightarrow> bool"
    and holds :: "'f \<Rightarrow> int \<Rightarrow> store \<Rightarrow> bool"
    and before :: "'f \<Rightarrow> store \<Rightarrow> int"
    and charged :: "'f \<Rightarrow> store \<Rightarrow> int"
  assumes reserved: "ready f a st \<Longrightarrow> reserve f a st = (Inr f', st') \<Longrightarrow>
      holds f' a st' \<and> charged f' st' = before f' st + a \<and> before f' st \<in> {0, charged f' st} \<and> same_tokens st st'"
    and not_reserved: "ready f a st \<Longrightarrow> reserve f a st = (Inl e, st') \<Longrightarrow> st' = st"
    and settled: "holds f a st \<Longrightarrow> - a \<le> d \<Longrightarrow> settle f d st = (Inr (), st') \<Longrightarrow>
      charged f st' = charged f st + d \<and> same_tokens st st'"
    and not_settled: "holds f a st \<Longrightarrow> settle f d st = (Inl e, st') \<Longrightarrow> st' = st"
    and refunded: "holds f a st \<Longrightarrow> \<exists>st'. refund f st = (Inr (), st') \<and> charged f st' = charged f st - a \<and> same_tokens st st'"
begin

lemma reserve_settle:
  assumes "ready f a st" "reserve f a st = (Inr f', st1)" "- a \<le> d" "settle f' d st1 = (Inr (), st2)"
  shows "charged f' st2 = before f' st + a + d" "same_tokens st st2"
  using reserved [OF assms(1,2)] settled [of f' a st1 d st2] assms(3,4) same_tokens_trans by auto

lemma reserve_refund:
  assumes "ready f a st" "reserve f a st = (Inr f', st1)"
  shows "\<exists>st2. refund f' st1 = (Inr (), st2) \<and> charged f' st2 = before f' st \<and> same_tokens st st2"
  using reserved [OF assms] refunded [of f' a st1] same_tokens_trans by auto

end

subsection \<open>Wallets\<close>

definition wallet_ready :: "int \<times> int \<Rightarrow> int \<Rightarrow> store \<Rightarrow> bool" where
  "wallet_ready w a st \<longleftrightarrow> db_faults st = [] \<and> has_user (fst w) st \<and> snd w = 0 \<and> 0 \<le> a"

definition wallet_holds :: "int \<times> int \<Rightarrow> int \<Rightarrow> store \<Rightarrow> bool" where
  "wallet_holds w a st \<longleftrightarrow> db_faults st = [] \<and> has_user (fst w) st \<and> snd w = a \<and> 0 \<le> a"

definition wallet_charged :: "int \<times> int \<Rightarrow> store \<Rightarrow> int" where
  "wallet_charged w st = - user_balance (fst w) st"

lemma same_tokens_change_user: "db_faults st = [] \<Longrightarrow> same_tokens st (change_user u d st)" "db_faults st = [] \<Longrightarrow> same_tokens st st"
  by (simp_all add: same_tokens_def)

interpretation wallet: funding_source wallet_PreConsume wallet_Settle wallet_Refund wallet_ready wallet_holds wallet_charged wallet_charged
proof unfold_locales
  fix f f' :: "int \<times> int" and a d st st' e
  show "wallet_ready f a st \<Longrightarrow> wallet_PreConsume f a st = (Inr f', st') \<Longrightarrow>
      wallet_holds f' a st' \<and> wallet_charged f' st' = wallet_charged f' st + a \<and> wallet_charged f' st \<in> {0, wallet_charged f' st}
      \<and> same_tokens st st'"
    by (auto simp: wallet_ready_def wallet_holds_def wallet_charged_def wallet_PreConsume_def bindM_def run_quota
        same_tokens_change_user split: if_splits)
  show "wallet_ready f a st \<Longrightarrow> wallet_PreConsume f a st = (Inl e, st') \<Longrightarrow> st' = st"
    by (auto simp: wallet_ready_def wallet_PreConsume_def bindM_def run_quota split: if_splits)
  show "wallet_holds f a st \<Longrightarrow> - a \<le> d \<Longrightarrow> wallet_Settle f d st = (Inr (), st') \<Longrightarrow>
      wallet_charged f st' = wallet_charged f st + d \<and> same_tokens st st'"
    by (auto simp: wallet_holds_def wallet_charged_def wallet_Settle_def run_quota same_tokens_change_user split: if_splits)
  show "wallet_holds f a st \<Longrightarrow> wallet_Settle f d st = (Inl e, st') \<Longrightarrow> st' = st"
    by (auto simp: wallet_holds_def wallet_Settle_def run_quota split: if_splits)
  show "wallet_holds f a st \<Longrightarrow>
      \<exists>st'. wallet_Refund f st = (Inr (), st') \<and> wallet_charged f st' = wallet_charged f st - a \<and> same_tokens st st'"
    by (auto simp: wallet_holds_def wallet_charged_def wallet_Refund_def run_quota same_tokens_change_user)
qed


subsection \<open>Subscriptions\<close>

definition used_of :: "int \<Rightarrow> store \<Rightarrow> int" where
  "used_of i st = (case find_sub i st of None \<Rightarrow> 0 | Some s \<Rightarrow> sb_AmountUsed s)"

definition subscription_ready :: "subscription_funding \<Rightarrow> int \<Rightarrow> store \<Rightarrow> bool" where
  "subscription_ready f a st \<longleftrightarrow> db_faults st = [] \<and> subs_ok st \<and> sf_amount f = a \<and> find_record (sf_requestId f) st = None
     \<and> distinct (map sb_Id (db_subs st)) \<and> (\<forall>s\<in>set (db_subs st). 0 < sb_Id s)"

definition subscription_holds :: "subscription_funding \<Rightarrow> int \<Rightarrow> store \<Rightarrow> bool" where
  "subscription_holds f a st \<longleftrightarrow> db_faults st = [] \<and> 0 < a \<and> sf_preConsumed f = a \<and> TrimSpace (sf_requestId f) \<noteq> []
     \<and> 0 < sf_subscriptionId f
     \<and> (\<exists>sub rec. find_sub (sf_subscriptionId f) st = Some sub \<and> sub_ok sub \<and> a \<le> sb_AmountUsed sub
          \<and> find_record (sf_requestId f) st = Some rec \<and> pr_Status rec = str ''consumed''
          \<and> pr_UserSubscriptionId rec = sf_subscriptionId f \<and> pr_PreConsumed rec = a)"

definition subscription_charged :: "subscription_funding \<Rightarrow> store \<Rightarrow> int" where
  "subscription_charged f st = used_of (sf_subscriptionId f) st"

text \<open>What was used before, after a reset that was due.\<close>

definition subscription_before :: "subscription_funding \<Rightarrow> store \<Rightarrow> int" where
  "subscription_before f st = sf_AmountUsedAfter f - sf_preConsumed f"

lemma run_plan_info:
  "db_faults st = [] \<Longrightarrow> \<exists>r. GetSubscriptionPlanInfoByUserSubscriptionId i st = (r, st)"
  by (auto simp: GetSubscriptionPlanInfoByUserSubscriptionId_def getSubscriptionPlanByIdTx_def bindM_def split: option.splits)

lemma same_tokens_subs: "db_faults st' = [] \<Longrightarrow> st' = st\<lparr>db_subs := a, db_records := b\<rparr> \<Longrightarrow> same_tokens st st'"
  by (simp add: same_tokens_def token_balance_def has_token_def)

lemma find_sub_distinct:
  "distinct (map sb_Id (db_subs st)) \<Longrightarrow> s \<in> set (db_subs st) \<Longrightarrow> find_sub (sb_Id s) st = Some s"
proof -
  have "distinct (map sb_Id xs) \<Longrightarrow> s \<in> set xs \<Longrightarrow> find (\<lambda>x. sb_Id x = sb_Id s) xs = Some s" for xs
    by (induction xs) (auto simp: rev_image_eqI)
  then show "distinct (map sb_Id (db_subs st)) \<Longrightarrow> s \<in> set (db_subs st) \<Longrightarrow> ?thesis"
    by (simp add: find_sub_def)
qed

lemma run_subscription_PreConsume:
  assumes "subscription_PreConsume charge f a st = (Inr f', st')" "db_faults st = []" "calm (charge (sf_requestId f) (sf_owner f) (sf_amount f))"
  obtains res where "charge (sf_requestId f) (sf_owner f) (sf_amount f) st = (Inr res, st')"
    "sf_subscriptionId f' = rs_UserSubscriptionId res" "sf_preConsumed f' = rs_PreConsumed res"
    "sf_AmountUsedAfter f' = rs_AmountUsedAfter res" "sf_requestId f' = sf_requestId f"
proof -
  obtain res st1 where res: "charge (sf_requestId f) (sf_owner f) (sf_amount f) st = (Inr res, st1)"
    using assms(1) by (auto simp: subscription_PreConsume_def bindM_def split: prod.splits sum.splits)
  have "db_faults st1 = []"
    using assms(2,3) res by (auto simp: keeps_def dest: spec [of _ st])
  then obtain r where "GetSubscriptionPlanInfoByUserSubscriptionId (rs_UserSubscriptionId res) st1 = (r, st1)"
    using run_plan_info by blast
  then show ?thesis
    using assms(1) res that by (cases r) (auto simp: subscription_PreConsume_def bindM_def catchM_def Let_def)
qed

lemma calm_charge:
  "charge \<in> {PreConsumeUserSubscription, PreConsumeTeamSubscription} \<Longrightarrow> calm (charge r u a)"
  by (auto simp: PreConsumeUserSubscription_def PreConsumeTeamSubscription_def intro!: calm_intros calm_pre_consume)

lemma subscription_reserved:
  assumes "charge \<in> {PreConsumeUserSubscription, PreConsumeTeamSubscription}" "subscription_ready f a st"
    "subscription_PreConsume charge f a st = (Inr f', st')"
  shows "subscription_holds f' a st' \<and> subscription_charged f' st' = subscription_before f' st + a
    \<and> subscription_before f' st \<in> {0, subscription_charged f' st} \<and> same_tokens st st'"
proof -
  let ?r = "sf_requestId f" and ?u = "sf_owner f"
  have ready: "db_faults st = []" "subs_ok st" "sf_amount f = a" "find_record ?r st = None"
    "distinct (map sb_Id (db_subs st))" "\<forall>s\<in>set (db_subs st). 0 < sb_Id s"
    using assms(2) by (simp_all add: subscription_ready_def)
  obtain res where res: "charge ?r ?u a st = (Inr res, st')" "sf_subscriptionId f' = rs_UserSubscriptionId res"
    "sf_preConsumed f' = rs_PreConsumed res" "sf_AmountUsedAfter f' = rs_AmountUsedAfter res" "sf_requestId f' = ?r"
    using run_subscription_PreConsume [OF assms(3) ready(1) calm_charge [OF assms(1)]] ready(3) by metis
  have charge: "charge ?r ?u \<in> {PreConsumeUserSubscription ?r ?u, PreConsumeTeamSubscription ?r ?u}"
    using assms(1) by auto
  obtain owned owner none ins where pre: "\<And>b. 0 < b \<Longrightarrow> charge ?r ?u b = pre_consume owned owner none ins ?r b" "0 < a" "TrimSpace ?r \<noteq> []"
    using charge_cases [OF charge res(1)] by metis
  have "pre_consume owned owner none ins ?r a st = (Inr res, st')"
    using res(1) pre by simp
  from run_pre_consume [OF this ready(1,2,4)] obtain sub rec s where st':
    "find_sub (rs_UserSubscriptionId res) st' = Some (sub\<lparr>sb_AmountUsed := sb_AmountUsed sub + a\<rparr>)" "sb_Id sub = rs_UserSubscriptionId res"
    "rs_PreConsumed res = a" "rs_AmountUsedAfter res = sb_AmountUsed sub + a" "st' = st\<lparr>db_subs := db_subs st', db_records := db_records st'\<rparr>"
    "sub_ok sub" "db_faults st' = []" "find_record ?r st' = Some rec" "pr_Status rec = str ''consumed''"
    "pr_UserSubscriptionId rec = sb_Id sub" "pr_PreConsumed rec = a" "s \<in> set (db_subs st)" "sb_Id s = sb_Id sub"
    "sb_AmountUsed sub \<in> {0, sb_AmountUsed s}"
    by blast
  have "subs_ok st'"
    using run_op_ok [OF ready(2), of "PreConsumeUser ?r ?u a"] run_op_ok [OF ready(2), of "PreConsumeTeam ?r ?u a"] assms(1) res(1) by auto
  then have ok: "sub_ok (sub\<lparr>sb_AmountUsed := sb_AmountUsed sub + a\<rparr>)"
    using st'(1) by (auto simp: subs_ok_def find_sub_def find_Some_iff)
  have "0 < sb_Id sub"
    using ready(6) st'(12,13) by auto
  then have "subscription_holds f' a st'"
    using st' res pre(2,3) ok by (auto simp: subscription_holds_def sub_ok_def)
  moreover have "find_sub (rs_UserSubscriptionId res) st = Some s"
    using find_sub_distinct [OF ready(5) st'(12)] st'(2,13) by simp
  ultimately show ?thesis
    using st' res same_tokens_subs [OF st'(7,5)]
    by (auto simp: subscription_charged_def subscription_before_def used_of_def)
qed

lemma run_PostConsume_cases:
  assumes "db_faults st = []" "0 < i" "d \<noteq> 0" "find_sub i st = Some sub" "0 \<le> sb_AmountUsed sub + d"
  shows "PostConsumeUserSubscriptionDelta i d st =
    (if 0 < sb_AmountTotal sub \<and> sb_AmountTotal sub < sb_AmountUsed sub + d
     then (Inl (str ''subscription used exceeds total, used='' @ Itoa (sb_AmountUsed sub + d) @ str '' total='' @ Itoa (sb_AmountTotal sub)), st)
     else (Inr (), save_sub (sub\<lparr>sb_AmountUsed := sb_AmountUsed sub + d\<rparr>) st))"
  using assms by (simp add: PostConsumeUserSubscriptionDelta_def Let_def transactionM_def bindM_def)

lemma same_tokens_save: "db_faults st = [] \<Longrightarrow> same_tokens st (save_sub s st)" "db_faults st = [] \<Longrightarrow> same_tokens st (mark_refunded r (save_sub s st))"
  by (simp_all add: same_tokens_def save_sub_def mark_refunded_def token_balance_def has_token_def)

lemma find_subD: "find_sub i st = Some sub \<Longrightarrow> sb_Id sub = i \<and> has_sub st sub \<and> used_of i st = sb_AmountUsed sub"
  by (auto simp: used_of_def) (auto simp: find_sub_def find_Some_iff has_sub_def)

lemma used_of_save: "find_sub i st = Some sub \<Longrightarrow> used_of i (save_sub (sub\<lparr>sb_AmountUsed := n\<rparr>) st) = n"
  using find_subD [of i st sub] by (simp add: used_of_def find_save_sub)

lemma run_PostConsume_fails: "PostConsumeUserSubscriptionDelta i d st = (Inl e, st') \<Longrightarrow> db_faults st = [] \<Longrightarrow> st' = st"
  by (auto simp: PostConsumeUserSubscriptionDelta_def Let_def transactionM_def bindM_def split: if_splits option.splits)

lemma used_of_mark [simp]: "used_of i (mark_refunded r st) = used_of i st"
  by (simp add: used_of_def)

lemma subscription_not_reserved:
  assumes "charge \<in> {PreConsumeUserSubscription, PreConsumeTeamSubscription}" "db_faults st = []"
    "subscription_PreConsume charge f a st = (Inl e, st')"
  shows "st' = st"
proof (cases "charge (sf_requestId f) (sf_owner f) (sf_amount f) st")
  case (Pair r st1)
  show ?thesis
  proof (cases r)
    case (Inl e')
    then show ?thesis
      using assms Pair run_charge_fails [of "charge (sf_requestId f) (sf_owner f)" "sf_requestId f" "sf_owner f" "sf_amount f" st e' st1]
      by (auto simp: subscription_PreConsume_def bindM_def)
  next
    case (Inr res)
    have "db_faults st1 = []"
      using calm_charge [OF assms(1), of "sf_requestId f" "sf_owner f" "sf_amount f"] Pair assms(2) by (auto simp: keeps_def dest: spec [of _ st])
    then obtain r' where "GetSubscriptionPlanInfoByUserSubscriptionId (rs_UserSubscriptionId res) st1 = (r', st1)"
      using run_plan_info by blast
    then show ?thesis
      using assms(3) Pair Inr by (cases r') (auto simp: subscription_PreConsume_def bindM_def catchM_def Let_def)
  qed
qed

lemma subscription_settled:
  assumes "subscription_holds f a st" "- a \<le> d" "subscription_Settle f d st = (Inr (), st')"
  shows "subscription_charged f st' = subscription_charged f st + d \<and> same_tokens st st'"
proof -
  obtain sub where sub: "db_faults st = []" "0 < sf_subscriptionId f" "find_sub (sf_subscriptionId f) st = Some sub" "a \<le> sb_AmountUsed sub"
    using assms(1) by (auto simp: subscription_holds_def)
  show ?thesis
  proof (cases "d = 0")
    case True
    then show ?thesis
      using assms(3) sub(1) by (simp add: subscription_Settle_def same_tokens_def)
  next
    case False
    then have "st' = save_sub (sub\<lparr>sb_AmountUsed := sb_AmountUsed sub + d\<rparr>) st"
      using assms(2,3) sub run_PostConsume_cases [OF sub(1,2) False sub(3)] by (auto simp: subscription_Settle_def split: if_splits)
    then show ?thesis
      using sub find_subD [OF sub(3)] by (simp add: subscription_charged_def used_of_save same_tokens_save)
  qed
qed

lemma subscription_refunded:
  assumes "subscription_holds f a st"
  shows "\<exists>st'. subscription_Refund f st = (Inr (), st') \<and> subscription_charged f st' = subscription_charged f st - a \<and> same_tokens st st'"
proof -
  obtain sub rec where sub: "db_faults st = []" "0 < sf_subscriptionId f" "find_sub (sf_subscriptionId f) st = Some sub" "a \<le> sb_AmountUsed sub"
    "sub_ok sub" "find_record (sf_requestId f) st = Some rec" "pr_Status rec = str ''consumed''"
    "pr_UserSubscriptionId rec = sf_subscriptionId f" "pr_PreConsumed rec = a" "0 < a" "sf_preConsumed f = a" "TrimSpace (sf_requestId f) \<noteq> []"
    using assms by (auto simp: subscription_holds_def)
  have "str ''consumed'' \<noteq> str ''refunded''"
    by code_simp
  then have "RefundSubscriptionPreConsume (sf_requestId f) st =
      (Inr (), mark_refunded (sf_requestId f) (save_sub (sub\<lparr>sb_AmountUsed := sb_AmountUsed sub - a\<rparr>) st))"
    using run_Refund [OF sub(1,6)] sub by simp
  then show ?thesis
    using sub find_subD [OF sub(3)]
    by (simp add: subscription_Refund_def refundWithRetry_def catchM_def subscription_charged_def used_of_save same_tokens_save)
qed

lemma subscription_funding_source:
  assumes "charge \<in> {PreConsumeUserSubscription, PreConsumeTeamSubscription}"
  shows "funding_source (subscription_PreConsume charge) subscription_Settle subscription_Refund subscription_ready subscription_holds
    subscription_before subscription_charged"
proof unfold_locales
  fix f f' :: subscription_funding and a d st st' e
  show "subscription_ready f a st \<Longrightarrow> subscription_PreConsume charge f a st = (Inr f', st') \<Longrightarrow>
      subscription_holds f' a st' \<and> subscription_charged f' st' = subscription_before f' st + a
      \<and> subscription_before f' st \<in> {0, subscription_charged f' st} \<and> same_tokens st st'"
    by (rule subscription_reserved [OF assms])
  show "subscription_ready f a st \<Longrightarrow> subscription_PreConsume charge f a st = (Inl e, st') \<Longrightarrow> st' = st"
    using subscription_not_reserved [OF assms] by (simp add: subscription_ready_def)
  show "subscription_holds f a st \<Longrightarrow> subscription_Settle f d st = (Inl e, st') \<Longrightarrow> st' = st"
    using run_PostConsume_fails by (auto simp: subscription_holds_def subscription_Settle_def split: if_splits)
qed (simp_all add: subscription_settled subscription_refunded)

interpretation subscription: funding_source "subscription_PreConsume PreConsumeUserSubscription" subscription_Settle subscription_Refund
    subscription_ready subscription_holds subscription_before subscription_charged
  by (rule subscription_funding_source) simp

interpretation team: funding_source "subscription_PreConsume PreConsumeTeamSubscription" subscription_Settle subscription_Refund
    subscription_ready subscription_holds subscription_before subscription_charged
  by (rule subscription_funding_source) simp



subsection \<open>Every source\<close>

fun source_ready :: "FundingSource \<Rightarrow> int \<Rightarrow> store \<Rightarrow> bool" where
  "source_ready (WalletFunding u c) = wallet_ready (u, c)"
| "source_ready (SubscriptionFunding f) = subscription_ready f"
| "source_ready (TeamSubscriptionFunding f) = subscription_ready f"

fun source_holds :: "FundingSource \<Rightarrow> int \<Rightarrow> store \<Rightarrow> bool" where
  "source_holds (WalletFunding u c) = wallet_holds (u, c)"
| "source_holds (SubscriptionFunding f) = subscription_holds f"
| "source_holds (TeamSubscriptionFunding f) = subscription_holds f"

fun source_before :: "FundingSource \<Rightarrow> store \<Rightarrow> int" where
  "source_before (WalletFunding u c) = wallet_charged (u, c)"
| "source_before (SubscriptionFunding f) = subscription_before f"
| "source_before (TeamSubscriptionFunding f) = subscription_before f"

fun source_charged :: "FundingSource \<Rightarrow> store \<Rightarrow> int" where
  "source_charged (WalletFunding u c) = wallet_charged (u, c)"
| "source_charged (SubscriptionFunding f) = subscription_charged f"
| "source_charged (TeamSubscriptionFunding f) = subscription_charged f"

lemma bindM_return_cases:
  "bindM m (\<lambda>x. returnM (g x)) st = (Inr y, st') \<longleftrightarrow> (\<exists>x. m st = (Inr x, st') \<and> y = g x)"
  "bindM m (\<lambda>x. returnM (g x)) st = (Inl e, st') \<longleftrightarrow> m st = (Inl e, st')"
  by (auto simp: bindM_def split: prod.splits sum.splits)

lemma source_reserved:
  assumes "source_ready f a st" "funding_PreConsume f a st = (Inr f', st')"
  shows "source_holds f' a st' \<and> source_charged f' st' = source_before f' st + a \<and> source_before f' st \<in> {0, source_charged f' st}
    \<and> same_tokens st st'"
proof (cases f)
  case (WalletFunding u c)
  then obtain w where "wallet_PreConsume (u, c) a st = (Inr w, st')" "f' = WalletFunding (fst w) (snd w)"
    using assms(2) by (auto simp: bindM_return_cases)
  then show ?thesis
    using wallet.reserved [of "(u, c)" a st w st'] assms(1) WalletFunding by simp
next
  case (SubscriptionFunding g)
  then obtain g' where "subscription_PreConsume PreConsumeUserSubscription g a st = (Inr g', st')" "f' = SubscriptionFunding g'"
    using assms(2) by (auto simp: bindM_return_cases)
  then show ?thesis
    using subscription.reserved [of g a st g' st'] assms(1) SubscriptionFunding by simp
next
  case (TeamSubscriptionFunding g)
  then obtain g' where "subscription_PreConsume PreConsumeTeamSubscription g a st = (Inr g', st')" "f' = TeamSubscriptionFunding g'"
    using assms(2) by (auto simp: bindM_return_cases)
  then show ?thesis
    using team.reserved [of g a st g' st'] assms(1) TeamSubscriptionFunding by simp
qed

interpretation source: funding_source funding_PreConsume funding_Settle funding_Refund source_ready source_holds source_before source_charged
proof unfold_locales
  fix f f' :: FundingSource and a d st st' e
  show "source_ready f a st \<Longrightarrow> funding_PreConsume f a st = (Inr f', st') \<Longrightarrow>
      source_holds f' a st' \<and> source_charged f' st' = source_before f' st + a \<and> source_before f' st \<in> {0, source_charged f' st}
      \<and> same_tokens st st'"
    by (rule source_reserved)
  show "source_ready f a st \<Longrightarrow> funding_PreConsume f a st = (Inl e, st') \<Longrightarrow> st' = st"
    by (cases f) (simp_all add: bindM_return_cases wallet.not_reserved subscription.not_reserved team.not_reserved)
  show "source_holds f a st \<Longrightarrow> - a \<le> d \<Longrightarrow> funding_Settle f d st = (Inr (), st') \<Longrightarrow>
      source_charged f st' = source_charged f st + d \<and> same_tokens st st'"
    by (cases f) (simp_all add: wallet.settled subscription.settled)
  show "source_holds f a st \<Longrightarrow> funding_Settle f d st = (Inl e, st') \<Longrightarrow> st' = st"
    by (cases f) (simp_all add: wallet.not_settled subscription.not_settled)
  show "source_holds f a st \<Longrightarrow> \<exists>st'. funding_Refund f st = (Inr (), st') \<and> source_charged f st' = source_charged f st - a \<and> same_tokens st st'"
    by (cases f) (simp_all add: wallet.refunded subscription.refunded)
qed

end
