(* ===== verification/BillingSessions.thy ===== *)
theory BillingSessions
  imports BillingLaws
begin

text \<open>
  Sessions of requests: what a reservation, its settlement and its refund do to the source and the token,
  and which source a session uses.
\<close>

subsection \<open>Reservations\<close>

definition token_ok :: "RelayInfo \<Rightarrow> store \<Rightarrow> bool" where
  "token_ok info st \<longleftrightarrow> ri_IsPlayground info \<or> has_token (ri_TokenId info) st"

definition effective_quota :: "billing_env \<Rightarrow> BillingSession \<Rightarrow> int \<Rightarrow> int" where
  "effective_quota env s quota = (if shouldTrust env s then 0 else quota)"

definition reserve_token :: "RelayInfo \<Rightarrow> int \<Rightarrow> store \<Rightarrow> store" where
  "reserve_token info d st = (if ri_IsPlayground info then st else change_token (ri_TokenId info) d st)"

lemma run_PreConsumeTokenQuota:
  assumes "db_faults st = []"
  shows "PreConsumeTokenQuota info q st = (Inr (), st') \<Longrightarrow> st' = reserve_token info (- q) st"
    "PreConsumeTokenQuota info q st = (Inl e, st') \<Longrightarrow> st' = st"
  using assms
  by (auto simp: PreConsumeTokenQuota_def GetTokenByKey_def bindM_def run_quota reserve_token_def split: if_splits option.splits)

lemma reserve_token_tables [simp]:
  "db_faults (reserve_token info d st) = db_faults st" "db_subs (reserve_token info d st) = db_subs st"
  "db_records (reserve_token info d st) = db_records st" "has_user u (reserve_token info d st) = has_user u st"
  "user_balance u (reserve_token info d st) = user_balance u st" "has_token t (reserve_token info d st) = has_token t st"
  by (simp_all add: reserve_token_def)

lemma find_sub_tables:
  "db_subs st' = db_subs st \<Longrightarrow> find_sub i st' = find_sub i st" "db_records st' = db_records st \<Longrightarrow> find_record r st' = find_record r st"
  "db_subs st' = db_subs st \<Longrightarrow> subs_ok st' = subs_ok st"
  by (simp_all add: find_sub_def find_record_def subs_ok_def)

lemma source_reserve_token [simp]:
  "source_ready f a (reserve_token info d st) = source_ready f a st"
  "source_before f (reserve_token info d st) = source_before f st"
  "source_charged f (reserve_token info d st) = source_charged f st"
proof -
  have same: "find_sub i (reserve_token info d st) = find_sub i st" "find_record r (reserve_token info d st) = find_record r st"
    "subs_ok (reserve_token info d st) = subs_ok st" for i r
    by (rule find_sub_tables, simp)+
  show "source_ready f a (reserve_token info d st) = source_ready f a st"
    "source_before f (reserve_token info d st) = source_before f st"
    "source_charged f (reserve_token info d st) = source_charged f st"
    by (cases f; simp add: wallet_ready_def subscription_ready_def wallet_charged_def subscription_before_def subscription_charged_def
        used_of_def same)+
qed

lemma token_balance_reserve:
  "token_ok info st \<Longrightarrow> token_balance t (reserve_token info d st) =
    token_balance t st + (if t = ri_TokenId info \<and> \<not> ri_IsPlayground info then d else 0)"
  by (auto simp: token_ok_def reserve_token_def)

lemma holds_nonneg: "source_holds f a st \<Longrightarrow> 0 \<le> a \<and> db_faults st = []"
  by (cases f) (auto simp: wallet_holds_def subscription_holds_def)

text \<open>What a successful reservation of a new session leaves.\<close>

definition reserved_session :: "RelayInfo \<Rightarrow> int \<Rightarrow> store \<Rightarrow> BillingSession \<Rightarrow> store \<Rightarrow> bool" where
  "reserved_session info e st s st' \<longleftrightarrow>
     source_holds (bs_funding s) e st' \<and> source_charged (bs_funding s) st' = source_before (bs_funding s) st + e
     \<and> source_before (bs_funding s) st \<in> {0, source_charged (bs_funding s) st}
     \<and> (\<forall>t. token_balance t st' = token_balance t st - (if t = ri_TokenId info \<and> \<not> ri_IsPlayground info then e else 0))
     \<and> (\<forall>t. has_token t st' = has_token t st)
     \<and> bs_preConsumedQuota s = e \<and> bs_tokenConsumed s = e
     \<and> \<not> bs_settled s \<and> \<not> bs_fundingSettled s \<and> \<not> bs_refunded s
     \<and> ri_TokenId (bs_relayInfo s) = ri_TokenId info \<and> ri_IsPlayground (bs_relayInfo s) = ri_IsPlayground info
     \<and> Source (bs_funding s) = ri_BillingSource (bs_relayInfo s)"

lemma sync_simps [simp]:
  "bs_funding (syncRelayInfo s) = bs_funding s" "bs_preConsumedQuota (syncRelayInfo s) = bs_preConsumedQuota s"
  "bs_tokenConsumed (syncRelayInfo s) = bs_tokenConsumed s" "bs_settled (syncRelayInfo s) = bs_settled s"
  "bs_fundingSettled (syncRelayInfo s) = bs_fundingSettled s" "bs_refunded (syncRelayInfo s) = bs_refunded s"
  "ri_TokenId (bs_relayInfo (syncRelayInfo s)) = ri_TokenId (bs_relayInfo s)"
  "ri_IsPlayground (bs_relayInfo (syncRelayInfo s)) = ri_IsPlayground (bs_relayInfo s)"
  "ri_BillingSource (bs_relayInfo (syncRelayInfo s)) = Source (bs_funding s)"
  by (simp_all add: syncRelayInfo_def Let_def sync_subscription_def split: FundingSource.splits)

lemma new_session_simps [simp]:
  "bs_funding (new_session info f) = f" "bs_relayInfo (new_session info f) = info" "bs_tokenConsumed (new_session info f) = 0"
  "\<not> bs_settled (new_session info f)" "\<not> bs_fundingSettled (new_session info f)" "\<not> bs_refunded (new_session info f)"
  by (simp_all add: new_session_def)

lemma run_preConsume:
  assumes "preConsume env (new_session info f) q st = (Inr (None, s), st')" "e = effective_quota env (new_session info f) q"
    "source_ready f e st" "token_ok info st" "db_faults st = []"
  shows "reserved_session info e st s st'"
proof -
  let ?st1 = "if 0 < e then reserve_token info (- e) st else st"
  have first: "(if 0 < e then tryM (PreConsumeTokenQuota info e) else returnM None) st = (Inr None, ?st1)"
    if "(if 0 < e then tryM (PreConsumeTokenQuota info e) else returnM None) st = (Inr None, st1)" for st1
    using that run_PreConsumeTokenQuota [OF assms(5), of info e] by (auto simp: tryM_def catchM_def split: if_splits prod.splits sum.splits)
  obtain f' where f': "funding_PreConsume f e ?st1 = (Inr f', st')"
    and s: "s = syncRelayInfo ((if 0 < e then (new_session info f)\<lparr>bs_tokenConsumed := e\<rparr> else new_session info f)
        \<lparr>bs_funding := f', bs_preConsumedQuota := e\<rparr>)"
    using assms(1) first unfolding preConsume_def Let_def effective_quota_def [symmetric] assms(2) [symmetric]
    by (auto simp: bindM_def catchM_def split: prod.splits sum.splits option.splits if_splits)
  have "source_ready f e ?st1"
    using assms(3) by simp
  from source.reserved [OF this f'] have r: "source_holds f' e st'" "source_charged f' st' = source_before f' st + e"
    "source_before f' st \<in> {0, source_charged f' st}" "same_tokens ?st1 st'"
    by (auto split: if_splits)
  have "token_balance t ?st1 = token_balance t st - (if t = ri_TokenId info \<and> \<not> ri_IsPlayground info then e else 0)"
    "has_token t ?st1 = has_token t st" for t
    using holds_nonneg [OF r(1)] by (auto simp: token_balance_reserve assms(4))
  then show ?thesis
    using r holds_nonneg [OF r(1)] unfolding reserved_session_def s by (auto simp: same_tokens_def split: if_splits)
qed

text \<open>Stores that differ at most in how the balances of tokens are split between table and batch updater.\<close>

definition same_books :: "store \<Rightarrow> store \<Rightarrow> bool" where
  "same_books st st' \<longleftrightarrow> same_tokens st st' \<and> st' = st\<lparr>db_tokens := db_tokens st', db_pending_token := db_pending_token st'\<rparr>"

lemma same_books_refl: "db_faults st = [] \<Longrightarrow> same_books st st"
  by (simp add: same_books_def same_tokens_def)

lemma same_booksD:
  assumes "same_books st st'"
  shows "same_tokens st st'" "db_faults st' = []" "db_users st' = db_users st" "db_pending_user st' = db_pending_user st"
    "db_subs st' = db_subs st" "db_records st' = db_records st"
proof -
  have *: "st' = st\<lparr>db_tokens := db_tokens st', db_pending_token := db_pending_token st'\<rparr>"
    using assms by (simp add: same_books_def)
  show "same_tokens st st'" "db_faults st' = []"
    using assms by (simp_all add: same_books_def same_tokens_def)
  show "db_users st' = db_users st" "db_pending_user st' = db_pending_user st" "db_subs st' = db_subs st" "db_records st' = db_records st"
    by (subst *, simp)+
qed

lemma same_books_source:
  assumes "same_books st st'" "db_faults st = []"
  shows "source_ready f a st' = source_ready f a st" "source_before f st' = source_before f st" "source_charged f st' = source_charged f st"
    "token_ok info st' = token_ok info st"
proof -
  note b = same_booksD [OF assms(1)]
  have same: "find_sub i st' = find_sub i st" "find_record r st' = find_record r st" "subs_ok st' = subs_ok st" for i r
    by (rule find_sub_tables, rule b)+
  show "source_ready f a st' = source_ready f a st" "source_before f st' = source_before f st" "source_charged f st' = source_charged f st"
    by (cases f; simp add: wallet_ready_def subscription_ready_def wallet_charged_def subscription_before_def subscription_charged_def
        used_of_def user_balance_def has_user_def same b assms(2))+
  show "token_ok info st' = token_ok info st"
    using b(1) by (simp add: token_ok_def same_tokens_def)
qed

lemma same_books_trans: "same_books st st' \<Longrightarrow> same_books st' st'' \<Longrightarrow> same_books st st''"
proof -
  assume a: "same_books st st'" "same_books st' st''"
  have "st'' = st'\<lparr>db_tokens := db_tokens st'', db_pending_token := db_pending_token st''\<rparr>"
    "st' = st\<lparr>db_tokens := db_tokens st', db_pending_token := db_pending_token st'\<rparr>"
    using a by (simp_all add: same_books_def)
  then have "st'' = st\<lparr>db_tokens := db_tokens st'', db_pending_token := db_pending_token st''\<rparr>"
    by (metis (no_types, lifting) store.surjective store.update_convs(2) store.update_convs(10))
  then show ?thesis
    using a same_tokens_trans by (auto simp: same_books_def)
qed

lemma rollback_books:
  assumes "token_ok info st" "db_faults st = []"
  shows "same_books st (reserve_token info e (reserve_token info (- e) st))"
proof -
  let ?st = "reserve_token info e (reserve_token info (- e) st)"
  have "token_balance t ?st = token_balance t st" for t
    using assms(1) by (simp add: token_balance_reserve token_ok_def)
  moreover have "?st = st\<lparr>db_tokens := db_tokens ?st, db_pending_token := db_pending_token ?st\<rparr>"
    by (simp add: reserve_token_def change_token_def add_token_def)
  ultimately show ?thesis
    using assms(2) by (simp add: same_books_def same_tokens_def)
qed

lemma run_preConsume_fails:
  assumes "preConsume env (new_session info f) q st = (Inr (Some x, s), st')" "e = effective_quota env (new_session info f) q"
    "source_ready f e st" "token_ok info st" "db_faults st = []"
  shows "same_books st st' \<and> bs_relayInfo s = info"
proof -
  let ?first = "(if 0 < e then tryM (PreConsumeTokenQuota info e) else returnM None) st"
  let ?st1 = "if 0 < e then reserve_token info (- e) st else st"
  have first: "?first = (Inr None, ?st1) \<or> (\<exists>m. ?first = (Inr (Some m), st))"
    using run_PreConsumeTokenQuota [OF assms(5), of info e]
    by (cases "PreConsumeTokenQuota info e st", cases "fst (PreConsumeTokenQuota info e st)") (auto simp: tryM_def catchM_def)
  have run: "preConsume env (new_session info f) q st =
      (case ?first of
         (Inr None, st1) \<Rightarrow>
           (let s1 = (if 0 < e then (new_session info f)\<lparr>bs_tokenConsumed := e\<rparr> else new_session info f)
            in catchM (funding_PreConsume f e)
                 (\<lambda>m. bindM (rollback_token s1) (\<lambda>s2. returnM (Some (funding_error m), s2)))
                 (\<lambda>f'. returnM (None, syncRelayInfo (s1\<lparr>bs_funding := f', bs_preConsumedQuota := e\<rparr>))) st1)
       | (Inr (Some m), st1) \<Rightarrow>
           (Inr (Some (NewErrorWithStatusCode m (str ''pre_consume_token_quota_failed'') 403
              [ErrOptionWithSkipRetry, ErrOptionWithNoRecordErrorLog]), new_session info f), st1)
       | (Inl m, st1) \<Rightarrow> (Inl m, st1))"
    unfolding preConsume_def Let_def effective_quota_def [symmetric] assms(2) [symmetric]
    by (auto simp: bindM_def split: prod.splits sum.splits option.splits)
  from first show ?thesis
  proof
    assume "\<exists>m. ?first = (Inr (Some m), st)"
    then show ?thesis
      using assms(1,5) run by (auto simp: same_books_refl)
  next
    assume none: "?first = (Inr None, ?st1)"
    then obtain m st2 where m: "funding_PreConsume f e ?st1 = (Inl m, st2)"
      using assms(1) run by (auto simp: catchM_def Let_def split: prod.splits sum.splits)
    have "source_ready f e ?st1"
      using assms(3) by simp
    from source.not_reserved [OF this m] have st2: "st2 = ?st1" .
    have "st' = (if 0 < e then reserve_token info e ?st1 else ?st1) \<and> bs_relayInfo s = info"
      using assms(1,5) run none m unfolding st2
      by (auto simp: catchM_def Let_def rollback_token_def bindM_def ignoreM_def run_quota reserve_token_def split: if_splits)
    then show ?thesis
      using rollback_books [OF assms(4,5), of e] assms(5) by (auto simp: same_books_refl)
  qed
qed


subsection \<open>Settling and refunding\<close>

lemma members_source [simp]:
  "source_holds f a (st\<lparr>db_members := ms\<rparr>) = source_holds f a st" "source_charged f (st\<lparr>db_members := ms\<rparr>) = source_charged f st"
  "token_balance t (st\<lparr>db_members := ms\<rparr>) = token_balance t st" "has_token t (st\<lparr>db_members := ms\<rparr>) = has_token t st"
  by (cases f; simp add: wallet_holds_def subscription_holds_def wallet_charged_def subscription_charged_def used_of_def user_balance_def
      has_user_def find_sub_def find_record_def token_balance_def has_token_def)+

lemma run_count_member:
  assumes "db_faults st = []"
  shows "\<exists>ms. (if b then ignoreM (IncrTeamMemberUsedQuota t u n) else returnM ()) st = (Inr (), st\<lparr>db_members := ms\<rparr>)"
proof (cases b)
  case True
  then show ?thesis
    using assms by (cases "n = 0") (auto simp: ignoreM_def catchM_def IncrTeamMemberUsedQuota_def intro: exI [of _ "db_members st"])
qed (auto intro: exI [of _ "db_members st"])

lemma run_adjust_token:
  "db_faults st = [] \<Longrightarrow> adjust_token info d st = (Inr (), change_token (ri_TokenId info) (- d) st)"
  by (simp add: adjust_token_def run_quota)

lemma post_delta_simps [simp]:
  "bs_settled (post_delta d s) = bs_settled s" "bs_fundingSettled (post_delta d s) = bs_fundingSettled s"
  "bs_funding (post_delta d s) = bs_funding s"
  by (simp_all add: post_delta_def)

lemma change_token_source [simp]:
  "source_charged f (change_token t d st) = source_charged f st"
  using source_reserve_token(3) [of f "undefined\<lparr>ri_IsPlayground := False, ri_TokenId := t\<rparr>" d st] by (simp add: reserve_token_def)

definition token_share :: "RelayInfo \<Rightarrow> int \<Rightarrow> int \<Rightarrow> int" where
  "token_share info d t = (if t = ri_TokenId info \<and> \<not> ri_IsPlayground info then d else 0)"

lemma run_Settle:
  assumes "reserved_session info e st s st1" "token_ok info st" "0 \<le> actual" "Settle actual s st1 = (Inr (err, s'), st2)"
  shows "source_charged (bs_funding s) st2 = source_before (bs_funding s) st + (if err = None then actual else e)
    \<and> (\<forall>t. token_balance t st2 = token_balance t st - token_share info (if err = None then actual else e) t)
    \<and> (err = None \<longrightarrow> bs_settled s') \<and> (err \<noteq> None \<longrightarrow> s' = s)"
proof -
  let ?f = "bs_funding s" and ?i = "bs_relayInfo s" and ?d = "actual - bs_preConsumedQuota s"
  have r: "source_holds ?f e st1" "source_charged ?f st1 = source_before ?f st + e" "bs_preConsumedQuota s = e"
    "\<not> bs_settled s" "\<not> bs_fundingSettled s" "ri_TokenId ?i = ri_TokenId info" "ri_IsPlayground ?i = ri_IsPlayground info"
    "token_balance t st1 = token_balance t st - token_share info e t" "has_token t st1 = has_token t st" for t
    using assms(1) by (simp_all add: reserved_session_def token_share_def)
  have faults: "db_faults st1 = []"
    using holds_nonneg [OF r(1)] by simp
  obtain ms where ms: "(if is_team ?f \<and> 0 < actual \<and> \<not> ri_IsPlayground ?i
      then ignoreM (IncrTeamMemberUsedQuota (ri_TokenTeamId ?i) (ri_UserId ?i) actual) else returnM ()) st1 = (Inr (), st1\<lparr>db_members := ms\<rparr>)"
    using run_count_member [OF faults] by blast
  let ?m = "st1\<lparr>db_members := ms\<rparr>"
  show ?thesis
  proof (cases "?d = 0")
    case True
    then have "err = None" "s' = s\<lparr>bs_settled := True\<rparr>" "st2 = ?m"
      using assms(4) r(4) ms by (auto simp: Settle_def Let_def bindM_def)
    then show ?thesis
      using True r by simp
  next
    case False
    obtain x st3 where x: "funding_Settle ?f ?d ?m = (x, st3)"
      by fastforce
    show ?thesis
    proof (cases x)
      case (Inl m)
      then have "err = Some m" "s' = s" "st2 = st3"
        using assms(4) r(4,5) ms False x by (auto simp: Settle_def Let_def bindM_def tryM_def catchM_def)
      moreover have "st3 = ?m"
        using source.not_settled [of ?f e ?m ?d m st3] r(1) x Inl by simp
      ultimately show ?thesis
        using r by simp
    next
      case (Inr u)
      have t: "source_charged ?f st3 = source_charged ?f ?m + ?d \<and> same_tokens ?m st3"
        using source.settled [of ?f e ?m ?d st3] r(1,3) x Inr assms(3) by simp
      have "err = None" "bs_settled s'" "st2 = (if ri_IsPlayground info then st3 else change_token (ri_TokenId info) (- ?d) st3)"
        using assms(4) r(4-7) ms False x Inr t
        by (auto simp: Settle_def Let_def bindM_def tryM_def catchM_def run_adjust_token same_tokens_def)
      moreover have "ri_IsPlayground info \<or> has_token (ri_TokenId info) st3"
        using t r(9) assms(2) by (simp add: same_tokens_def token_ok_def)
      ultimately show ?thesis
        using t r by (auto simp: same_tokens_def token_share_def)
    qed
  qed
qed

lemma run_Refund_session:
  assumes "reserved_session info e st s st1" "token_ok info st" "Refund s st1 = (Inr s', st2)"
  shows "source_charged (bs_funding s) st2 = source_before (bs_funding s) st \<and> (\<forall>t. token_balance t st2 = token_balance t st)"
proof -
  let ?f = "bs_funding s" and ?i = "bs_relayInfo s"
  have r: "source_holds ?f e st1" "source_charged ?f st1 = source_before ?f st + e" "bs_tokenConsumed s = e"
    "\<not> bs_settled s" "\<not> bs_fundingSettled s" "\<not> bs_refunded s" "ri_TokenId ?i = ri_TokenId info" "ri_IsPlayground ?i = ri_IsPlayground info"
    "token_balance t st1 = token_balance t st - token_share info e t" "has_token t st1 = has_token t st" for t
    using assms(1) by (simp_all add: reserved_session_def token_share_def)
  have e: "0 \<le> e" "db_faults st1 = []"
    using holds_nonneg [OF r(1)] by simp_all
  show ?thesis
  proof (cases "e = 0")
    case True
    then have "\<not> needsRefund s"
      using r(1,3) by (auto simp: needsRefund_def subscription_holds_def split: FundingSource.splits)
    then have "st2 = st1"
      using assms(3) by (simp add: Refund_def Let_def)
    then show ?thesis
      using r True by (simp add: token_share_def)
  next
    case False
    obtain st3 where st3: "funding_Refund ?f st1 = (Inr (), st3)" "source_charged ?f st3 = source_charged ?f st1 - e" "same_tokens st1 st3"
      using source.refunded [OF r(1)] by blast
    have "st2 = (if ri_IsPlayground info then st3 else change_token (ri_TokenId info) e st3)"
      using assms(3) r(3-8) e False st3
      by (auto simp: Refund_def Let_def needsRefund_def bindM_def ignoreM_def catchM_def run_quota same_tokens_def split: if_splits)
    moreover have "ri_IsPlayground info \<or> has_token (ri_TokenId info) st3"
      using st3(3) r(10) assms(2) by (simp add: same_tokens_def token_ok_def)
    ultimately show ?thesis
      using st3 r by (auto simp: same_tokens_def token_share_def)
  qed
qed


subsection \<open>New sessions\<close>

definition billing_ready :: "RelayInfo \<Rightarrow> store \<Rightarrow> bool" where
  "billing_ready info st \<longleftrightarrow> db_faults st = [] \<and> subs_ok st \<and> find_record (ri_RequestId info) st = None
     \<and> distinct (map sb_Id (db_subs st)) \<and> (\<forall>s\<in>set (db_subs st). 0 < sb_Id s) \<and> has_user (ri_UserId info) st \<and> token_ok info st"

text \<open>The parts of the request that a session keeps.\<close>

definition same_request :: "RelayInfo \<Rightarrow> RelayInfo \<Rightarrow> bool" where
  "same_request i j \<longleftrightarrow> ri_UserId j = ri_UserId i \<and> ri_TokenId j = ri_TokenId i \<and> ri_IsPlayground j = ri_IsPlayground i
     \<and> ri_RequestId j = ri_RequestId i \<and> ri_TokenTeamId j = ri_TokenTeamId i"

lemma same_request_refl [simp]: "same_request i i" "same_request i (i\<lparr>ri_UserQuota := q\<rparr>)" "same_request i (i\<lparr>ri_BillingWalletFallback := b\<rparr>)"
  by (simp_all add: same_request_def)

lemma same_request_trans: "same_request i j \<Longrightarrow> same_request j k \<Longrightarrow> same_request i k"
  by (simp add: same_request_def)

lemma billing_ready_request: "same_request i j \<Longrightarrow> billing_ready j st = billing_ready i st"
  by (simp add: same_request_def billing_ready_def token_ok_def)

lemma billing_ready_books: "same_books st st' \<Longrightarrow> billing_ready info st \<Longrightarrow> billing_ready info st'"
proof -
  assume b: "same_books st st'" and r: "billing_ready info st"
  note d = same_booksD [OF b]
  have "find_record (ri_RequestId info) st' = find_record (ri_RequestId info) st" "subs_ok st' = subs_ok st"
    by (rule find_sub_tables, rule d)+
  then show "billing_ready info st'"
    using r d same_books_source(4) [OF b, of info] by (simp add: billing_ready_def has_user_def)
qed

text \<open>The outcome of an attempt: a session with its reservation, or books as they were.\<close>

definition good_result :: "RelayInfo \<Rightarrow> store \<Rightarrow> billing_result \<Rightarrow> store \<Rightarrow> bool" where
  "good_result info st r st' \<longleftrightarrow> same_request info (snd r) \<and>
     (case fst r of Inl _ \<Rightarrow> same_books st st' | Inr s \<Rightarrow> reserved_session info (bs_preConsumedQuota s) st s st')"

definition good :: "billing_result db \<Rightarrow> RelayInfo \<Rightarrow> store \<Rightarrow> bool" where
  "good m info st \<longleftrightarrow> (\<exists>r st'. m st = (Inr r, st') \<and> good_result info st r st')"

lemma sync_request [simp]: "same_request (bs_relayInfo s) (bs_relayInfo (syncRelayInfo s))"
  by (simp add: same_request_def syncRelayInfo_def Let_def sync_subscription_def split: FundingSource.splits)

lemma preConsume_returns:
  assumes "db_faults st = []"
  shows "\<exists>x s st'. preConsume env (new_session info f) q st = (Inr (x, s), st') \<and> (x = None \<longrightarrow> same_request info (bs_relayInfo s))"
proof -
  have roll: "\<exists>s' st'. rollback_token s st1 = (Inr s', st')" for s st1
    by (auto simp: rollback_token_def Let_def bindM_def ignoreM_def catchM_def split: prod.splits sum.splits)
  have tried: "\<exists>r st'. tryM m st = (Inr r, st')" for m :: "unit db"
    by (auto simp: tryM_def catchM_def split: prod.splits sum.splits)
  let ?e = "if shouldTrust env (new_session info f) then 0 else q"
  obtain r st1 where r: "(if 0 < ?e then tryM (PreConsumeTokenQuota info ?e) else returnM None) st = (Inr r, st1)"
    using tried [of "PreConsumeTokenQuota info ?e"] by (cases "0 < ?e") auto
  let ?s1 = "if 0 < ?e then (new_session info f)\<lparr>bs_tokenConsumed := ?e\<rparr> else new_session info f"
  show ?thesis
  proof (cases r)
    case None
    obtain y st2 where y: "funding_PreConsume f ?e st1 = (y, st2)"
      by fastforce
    obtain s2 st3 where "rollback_token ?s1 st2 = (Inr s2, st3)"
      using roll by blast
    moreover have "same_request info (bs_relayInfo (syncRelayInfo (?s1\<lparr>bs_funding := f', bs_preConsumedQuota := ?e\<rparr>)))" for f'
      using sync_request [of "?s1\<lparr>bs_funding := f', bs_preConsumedQuota := ?e\<rparr>"] by (simp split: if_splits)
    ultimately show ?thesis
      using None y r by (cases y) (auto simp: preConsume_def Let_def bindM_def catchM_def simp del: sync_simps split: if_splits)
  next
    case (Some m)
    then show ?thesis
      using r by (auto simp: preConsume_def Let_def bindM_def)
  qed
qed

lemma good_start:
  assumes "source_ready f (effective_quota env (new_session info f) q) st" "token_ok info st" "db_faults st = []"
  shows "good (start_session env info f q) info st"
proof -
  obtain x s st' where run: "preConsume env (new_session info f) q st = (Inr (x, s), st')" "x = None \<longrightarrow> same_request info (bs_relayInfo s)"
    using preConsume_returns [OF assms(3)] by blast
  show ?thesis
  proof (cases x)
    case None
    then have "reserved_session info (effective_quota env (new_session info f) q) st s st'"
      using run_preConsume [of env info f q st s st', OF _ refl assms] run(1) by simp
    moreover from this have "bs_preConsumedQuota s = effective_quota env (new_session info f) q"
      by (simp add: reserved_session_def)
    ultimately show ?thesis
      using run None by (simp add: good_def good_result_def start_session_def bindM_def)
  next
    case (Some e)
    then show ?thesis
      using run_preConsume_fails [of env info f q st e s st', OF _ refl assms] run(1)
      by (simp add: good_def good_result_def start_session_def bindM_def)
  qed
qed

lemma good_request:
  assumes "good m j st" "same_request i j"
  shows "good m i st"
proof -
  have same: "reserved_session j e st s st' = reserved_session i e st s st'" for e s st'
    using assms(2) by (simp add: same_request_def reserved_session_def)
  obtain r st' where "m st = (Inr r, st')" "good_result j st r st'"
    using assms(1) by (auto simp: good_def)
  moreover from this(2) have "good_result i st r st'"
    using same_request_trans [OF assms(2)] same by (auto simp: good_result_def split: sum.splits)
  ultimately show ?thesis
    by (auto simp: good_def)
qed

lemma reserved_books:
  assumes "same_books st st1" "db_faults st = []"
  shows "reserved_session info e st1 s st' = reserved_session info e st s st'"
  using same_books_source(2,3) [OF assms, of "bs_funding s"] same_booksD(1) [OF assms(1)]
  by (simp add: reserved_session_def same_tokens_def)

lemma good_first_then:
  assumes "good m info st" "db_faults st = []"
    "\<And>info' st'. same_request info info' \<Longrightarrow> same_books st st' \<Longrightarrow> good (n info') info st'"
  shows "good (first_then m n) info st"
proof -
  obtain r info' st1 where m: "m st = (Inr (r, info'), st1)" "good_result info st (r, info') st1"
    using assms(1) unfolding good_def by (metis prod.exhaust)
  show ?thesis
  proof (cases r)
    case (Inl e)
    then have books: "same_books st st1" "same_request info info'"
      using m(2) by (simp_all add: good_result_def)
    obtain r2 st2 where n: "n info' st1 = (Inr r2, st2)" "good_result info st1 r2 st2"
      using assms(3) [OF books(2,1)] by (auto simp: good_def)
    have "good_result info st r2 st2"
      using n(2) books(1) same_books_trans reserved_books [OF books(1) assms(2)] by (auto simp: good_result_def split: sum.splits)
    then show ?thesis
      using m n Inl by (cases r2) (auto simp: good_def first_then_def bindM_def)
  next
    case (Inr s)
    then show ?thesis
      using m by (auto simp: good_def first_then_def bindM_def)
  qed
qed

lemma good_return: "db_faults st = [] \<Longrightarrow> good (returnM (Inl e, info)) info st"
  by (simp add: good_def good_result_def same_books_refl)

lemma good_if: "(b \<Longrightarrow> good m info st) \<Longrightarrow> (\<not> b \<Longrightarrow> good m' info st) \<Longrightarrow> good (if b then m else m') info st"
  by simp

lemma good_read:
  assumes "\<exists>r. m st = (r, st)" "\<And>e. good (h e) info st" "\<And>x. good (f x) info st"
  shows "good (catchM m h f) info st"
proof -
  obtain r where "m st = (r, st)"
    using assms(1) by blast
  then show ?thesis
    using assms(2,3) by (cases r) (simp_all add: good_def catchM_def)
qed

lemma good_bind_read:
  assumes "\<exists>x. m st = (Inr x, st)" "\<And>x. good (f x) info st"
  shows "good (bindM m f) info st"
  using assms by (auto simp: good_def bindM_def)

lemma good_tryWallet:
  assumes "billing_ready info st" "0 \<le> q"
  shows "good (tryWallet env info q) info st"
proof -
  have st: "db_faults st = []" "has_user (ri_UserId info) st" "token_ok info st"
    using assms(1) by (simp_all add: billing_ready_def)
  have "good (start_session env (info\<lparr>ri_UserQuota := u\<rparr>) (WalletFunding (ri_UserId info) 0) q) info st" for u
    by (rule good_request [OF good_start])
      (use st assms(2) in \<open>simp_all add: wallet_ready_def effective_quota_def token_ok_def\<close>)
  then show ?thesis
    unfolding tryWallet_def using st(1) by (intro good_read good_if good_return) (simp_all add: GetUserQuota_def)
qed

lemma subscription_not_trusted: "Source f = str ''subscription'' \<Longrightarrow> effective_quota env (new_session info f) q = q"
proof -
  have "str ''subscription'' \<noteq> str ''wallet''"
    by code_simp
  then show "Source f = str ''subscription'' \<Longrightarrow> ?thesis"
    by (simp add: effective_quota_def shouldTrust_def Let_def)
qed

lemma good_subscription:
  assumes "billing_ready info st" "f \<in> {SubscriptionFunding (new_funding info u a), TeamSubscriptionFunding (new_funding info u a)}"
  shows "good (start_session env info f a) info st"
proof (rule good_start)
  have "Source f = str ''subscription''"
    using assms(2) by auto
  then show "source_ready f (effective_quota env (new_session info f) a) st"
    using assms by (auto simp: subscription_not_trusted subscription_ready_def new_funding_def billing_ready_def)
qed (use assms(1) in \<open>simp_all add: billing_ready_def\<close>)

lemma good_trySubscription: "billing_ready info st \<Longrightarrow> good (trySubscription env info q) info st"
  unfolding trySubscription_def Let_def by (rule good_subscription) auto

lemma run_queries:
  assumes "db_faults st = []"
  shows "\<exists>r. HasActiveUserSubscription u st = (r, st)" "\<exists>r. HasActiveTeamSubscription t st = (r, st)" "\<exists>r. GetTeamMemberQuota t u st = (r, st)"
    "\<exists>x. isOutOfPlanGroupModel cache u m st = (Inr x, st)"
  using assms
  by (auto simp: HasActiveUserSubscription_def HasActiveTeamSubscription_def GetTeamMemberQuota_def isOutOfPlanGroupModel_def
      IsWalletFallbackEnabledForUser_def GetActiveUpgradeGroups_def bindM_def catchM_def split: option.split)

lemma good_team_session:
  assumes "billing_ready info st"
  shows "good (team_session env info q) info st"
proof -
  have st: "db_faults st = []"
    using assms by (simp add: billing_ready_def)
  obtain r where r: "GetTeamMemberQuota (ri_TokenTeamId info) (ri_UserId info) st = (r, st)"
    using run_queries(3) [OF st] by blast
  have "\<exists>x. catchM (GetTeamMemberQuota (ri_TokenTeamId info) (ri_UserId info)) (\<lambda>_. returnM False)
      (\<lambda>(limit, used). returnM (0 < limit \<and> limit \<le> used)) st = (Inr x, st)"
    using r by (cases r) (auto simp: catchM_def)
  then show ?thesis
    unfolding team_session_def Let_def
    by (intro good_read run_queries st good_if good_return good_bind_read good_subscription assms) auto
qed

lemma good_NewBillingSession:
  assumes "billing_ready info st" "0 \<le> q"
  shows "good (NewBillingSession env info q) info st"
proof -
  have st: "db_faults st = []"
    using assms by (simp add: billing_ready_def)
  have force: "\<exists>x. (if be_forceWallet env then returnM True
      else isOutOfPlanGroupModel (be_cache env) (ri_UserId info) (ri_OriginModelName info)) st = (Inr x, st)"
    using run_queries(4) [OF st] by (cases "be_forceWallet env") auto
  have fallback: "good (tryWallet env (info\<lparr>ri_BillingWalletFallback := True\<rparr>) q) info st"
    by (rule good_request [OF good_tryWallet]) (use assms in \<open>simp_all add: billing_ready_request [OF same_request_refl(3)]\<close>)
  have other: "good (tryWallet env info' q) info st'" "good (trySubscription env info' q) info st'"
    if "same_request info info'" "same_books st st'" for info' st'
    using that assms billing_ready_books billing_ready_request good_request good_tryWallet good_trySubscription by metis+
  show ?thesis
    unfolding NewBillingSession_def Let_def
    by (intro good_if good_team_session good_bind_read force good_return fallback good_trySubscription good_tryWallet good_first_then
        good_read run_queries st assms other)
qed

subsection \<open>Properties of sessions\<close>

lemma new_session_reserved:
  assumes "billing_ready info st" "0 \<le> q" "NewBillingSession env info q st = (Inr (r, info'), st1)"
  shows "case r of Inl _ \<Rightarrow> same_books st st1 | Inr s \<Rightarrow> reserved_session info (bs_preConsumedQuota s) st s st1"
  using good_NewBillingSession [OF assms(1,2), of env] assms(3) by (auto simp: good_def good_result_def split: sum.splits)

text \<open>A store in which user 7 has a token, a wallet and the subscription to the pro plan, and their requests.\<close>

definition billing_store :: store where
  "billing_store =
     (pro_store\<lparr>db_users := [\<lparr>us_Id = 7, us_Quota = 500, us_Group = str ''pro''\<rparr>],
        db_tokens := [\<lparr>tk_Id = 3, tk_Key = str ''k'', tk_RemainQuota = 400, tk_UsedQuota = 0\<rparr>]\<rparr>)"

definition billing_info :: "jstr \<Rightarrow> RelayInfo" where
  "billing_info pref =
     \<lparr>ri_UserId = 7, ri_TokenId = 3, ri_TokenKey = str ''k'', ri_TokenUnlimited = False, ri_TokenTeamId = 0, ri_IsPlayground = False,
      ri_ForcePreConsume = False, ri_RequestId = str ''r'', ri_OriginModelName = str ''m'', ri_BillingPreference = pref, ri_UserQuota = 0,
      ri_BillingWalletFallback = False, ri_FinalPreConsumedQuota = 0, ri_BillingSource = [], ri_SubscriptionId = 0,
      ri_SubscriptionPreConsumed = 0, ri_SubscriptionPostDelta = 0, ri_SubscriptionAmountTotal = 0,
      ri_SubscriptionAmountUsedAfterPreConsume = 0, ri_SubscriptionPlanId = 0, ri_SubscriptionPlanTitle = []\<rparr>"

definition cautious_env :: billing_env where
  "cautious_env = \<lparr>be_trustQuota = 0, be_token_quota = 400, be_forceWallet = False, be_cache = two_channels\<rparr>"

definition rejected_with :: "jstr \<Rightarrow> billing_env \<Rightarrow> RelayInfo \<Rightarrow> int \<Rightarrow> store \<Rightarrow> bool" where
  "rejected_with code env info q st =
     (case NewBillingSession env info q st of (Inr (Inl e, _), _) \<Rightarrow> GetErrorCode (Some e) = code | _ \<Rightarrow> False)"

lemma rejected_withE:
  assumes "rejected_with code env info q st"
  obtains e info' st' where "NewBillingSession env info q st = (Inr (Inl e, info'), st')" "GetErrorCode (Some e) = code"
proof -
  obtain x st1 where x: "NewBillingSession env info q st = (x, st1)"
    by fastforce
  show ?thesis
  proof (cases x)
    case (Inr r)
    then show ?thesis
      using assms x that by (cases r, cases "fst r") (auto simp: rejected_with_def)
  qed (use assms x in \<open>simp add: rejected_with_def\<close>)
qed

definition new_session_with :: "(BillingSession \<Rightarrow> store \<Rightarrow> bool) \<Rightarrow> billing_env \<Rightarrow> RelayInfo \<Rightarrow> int \<Rightarrow> store \<Rightarrow> bool" where
  "new_session_with P env info q st =
     (case NewBillingSession env info q st of (Inr (Inr s, _), st1) \<Rightarrow> P s st1 | _ \<Rightarrow> False)"

lemma new_session_withE:
  assumes "new_session_with P env info q st"
  obtains s info' st1 where "NewBillingSession env info q st = (Inr (Inr s, info'), st1)" "P s st1"
proof -
  obtain x st1 where x: "NewBillingSession env info q st = (x, st1)"
    by fastforce
  show ?thesis
  proof (cases x)
    case (Inr r)
    then show ?thesis
      using assms x that by (cases r, cases "fst r") (auto simp: new_session_with_def)
  qed (use assms x in \<open>simp add: new_session_with_def\<close>)
qed

lemma ignoreM_returns: "\<exists>st'. ignoreM m st = (Inr (), st')"
  by (auto simp: ignoreM_def catchM_def returnM_def split: prod.splits sum.splits)

lemma tryM_returns: "\<exists>r st'. tryM m st = (Inr r, st')"
  by (auto simp: tryM_def catchM_def returnM_def split: prod.splits sum.splits)

text \<open>\<open>returns m\<close>: the program gives a value from every store, whatever accesses fail.\<close>

definition returns :: "'a db \<Rightarrow> bool" where
  "returns m \<longleftrightarrow> (\<forall>st. \<exists>x st'. m st = (Inr x, st'))"

lemma returns_return: "returns (returnM x)"
  by (simp add: returns_def returnM_def)

lemma returns_bind: "returns m \<Longrightarrow> (\<And>x. returns (f x)) \<Longrightarrow> returns (bindM m f)"
proof -
  assume m: "returns m" and f: "\<And>x. returns (f x)"
  have "\<exists>y st2. bindM m f st = (Inr y, st2)" for st
  proof -
    obtain x st1 where "m st = (Inr x, st1)"
      using m unfolding returns_def by blast
    then show ?thesis
      using f [of x] by (simp add: returns_def bindM_def)
  qed
  then show ?thesis
    by (simp add: returns_def)
qed

lemma returns_ignore: "returns (ignoreM m)"
  using ignoreM_returns by (fastforce simp: returns_def)

lemma returns_try: "returns (tryM m)"
  using tryM_returns by (fastforce simp: returns_def)

lemma returns_if: "returns m \<Longrightarrow> returns n \<Longrightarrow> returns (if b then m else n)"
  by simp

lemma returns_option: "returns n \<Longrightarrow> (\<And>x. returns (f x)) \<Longrightarrow> returns (case r of None \<Rightarrow> n | Some x \<Rightarrow> f x)"
  by (cases r) auto

lemmas returns_intros = returns_return returns_bind returns_ignore returns_try returns_if returns_option

lemma returns_Settle: "returns (Settle actual s)"
  unfolding Settle_def Let_def by (intro returns_intros)

lemma returns_Refund: "returns (Refund s)"
  unfolding Refund_def Let_def by (intro returns_intros)



text \<open>
  C2: a refund restores the books. Refunding a newly opened session, whatever its source, returns and leaves the
  source charged with what was charged before and every token with its balance from before.
\<close>

theorem refund_restores:
  assumes "billing_ready info st" "0 \<le> q" "NewBillingSession env info q st = (Inr (Inr s, info'), st1)"
  shows "\<exists>s' st2. Refund s st1 = (Inr s', st2) \<and> source_charged (bs_funding s) st2 = source_before (bs_funding s) st
    \<and> source_before (bs_funding s) st \<in> {0, source_charged (bs_funding s) st} \<and> (\<forall>t. token_balance t st2 = token_balance t st)"
proof -
  have r: "reserved_session info (bs_preConsumedQuota s) st s st1"
    using new_session_reserved [OF assms(1-3)] by simp
  have "source_before (bs_funding s) st \<in> {0, source_charged (bs_funding s) st}"
    using r by (simp add: reserved_session_def)
  moreover obtain s' st2 where run: "Refund s st1 = (Inr s', st2)"
    using returns_Refund unfolding returns_def by metis
  ultimately show ?thesis
    using run_Refund_session [OF r _ run] assms(1) by (simp add: billing_ready_def)
qed

theorem refund_restores_witness:
  "\<exists>s info' st1 s' st2. NewBillingSession cautious_env (billing_info (str ''subscription_first'')) 60 billing_store = (Inr (Inr s, info'), st1)
    \<and> token_balance 3 st1 = 340 \<and> Refund s st1 = (Inr s', st2) \<and> token_balance 3 st2 = 400"
proof -
  let ?info = "billing_info (str ''subscription_first'')"
  have run: "billing_ready ?info billing_store" "token_balance 3 billing_store = 400"
    "new_session_with (\<lambda>s st1. token_balance 3 st1 = 340 \<and> succeeds (Refund s) st1) cautious_env ?info 60 billing_store"
    by code_simp+
  obtain s info' st1 where s: "NewBillingSession cautious_env ?info 60 billing_store = (Inr (Inr s, info'), st1)"
    "token_balance 3 st1 = 340 \<and> succeeds (Refund s) st1"
    using run(3) by (rule new_session_withE)
  obtain s' st2 where refund: "Refund s st1 = (Inr s', st2)"
    using s(2) by (auto elim: succeedsE)
  show ?thesis
    using refund_restores [OF run(1) _ s(1)] s refund run(2) by auto
qed

text \<open>
  C6: a rejected request costs nothing. When no session can be opened, on the preferred source nor on
  the one to fall back to, users, subscriptions, records and the balances of tokens are as before.
\<close>

theorem rejected_costs_nothing:
  assumes "billing_ready info st" "0 \<le> q" "NewBillingSession env info q st = (Inr (Inl e, info'), st')"
  shows "db_users st' = db_users st \<and> db_pending_user st' = db_pending_user st \<and> db_subs st' = db_subs st
    \<and> db_records st' = db_records st \<and> (\<forall>t. token_balance t st' = token_balance t st)"
proof -
  have b: "same_books st st'"
    using new_session_reserved [OF assms] by simp
  show ?thesis
    using same_booksD [OF b] by (simp add: same_tokens_def)
qed

theorem rejected_costs_nothing_witness:
  "\<exists>e info' st'. NewBillingSession cautious_env (billing_info (str ''subscription_only'')) 200 billing_store = (Inr (Inl e, info'), st')
    \<and> GetErrorCode (Some e) = str ''insufficient_user_quota'' \<and> token_balance 3 st' = 400"
proof -
  let ?info = "billing_info (str ''subscription_only'')"
  have run: "billing_ready ?info billing_store" "token_balance 3 billing_store = 400"
    "rejected_with (str ''insufficient_user_quota'') cautious_env ?info 200 billing_store"
    by code_simp+
  obtain e info' st' where e: "NewBillingSession cautious_env ?info 200 billing_store = (Inr (Inl e, info'), st')"
    "GetErrorCode (Some e) = str ''insufficient_user_quota''"
    using run(3) by (rule rejected_withE)
  show ?thesis
    using rejected_costs_nothing [OF run(1) _ e(1)] e run(2) by auto
qed

text \<open>
  C8: a session is closed once. After a settlement that succeeded, settling again and refunding do
  nothing, whatever the state of the database; after a refund a second refund does nothing.
\<close>

theorem session_closed_once:
  assumes "Settle a s st = (Inr (None, s'), st') \<or> Refund s st = (Inr s', st') \<and> needsRefund s"
  shows "Refund s' st2 = (Inr s', st2) \<and> (bs_settled s' \<longrightarrow> Settle b s' st2 = (Inr (None, s'), st2))
    \<and> (bs_settled s' \<or> bs_refunded s')"
proof -
  have "bs_settled s' \<or> bs_refunded s'"
    using assms
    by (auto simp: Settle_def Refund_def needsRefund_def Let_def bindM_def post_delta_def split: if_splits prod.splits sum.splits option.splits)
  then show ?thesis
    by (auto simp: Refund_def Settle_def Let_def)
qed

theorem session_closed_once_witness:
  "\<exists>s info' st1 s' st2. NewBillingSession cautious_env (billing_info (str ''wallet_only'')) 100 billing_store = (Inr (Inr s, info'), st1)
    \<and> Settle 130 s st1 = (Inr (None, s'), st2) \<and> Refund s' st2 = (Inr s', st2)"
proof -
  let ?info = "billing_info (str ''wallet_only'')"
  have run: "new_session_with (\<lambda>s st1. case Settle 130 s st1 of (Inr (None, _), _) \<Rightarrow> True | _ \<Rightarrow> False) cautious_env ?info 100 billing_store"
    by code_simp
  obtain s info' st1 where s: "NewBillingSession cautious_env ?info 100 billing_store = (Inr (Inr s, info'), st1)"
    "case Settle 130 s st1 of (Inr (None, _), _) \<Rightarrow> True | _ \<Rightarrow> False"
    using run by (rule new_session_withE)
  obtain s' st2 where settled: "Settle 130 s st1 = (Inr (None, s'), st2)"
    using s(2) by (auto split: prod.splits sum.splits option.splits)
  show ?thesis
    using session_closed_once [OF disjI1 [OF settled]] s(1) settled by blast
qed

end
