(* ===== verification/Spec2Isabelle.thy ===== *)
theory Spec2Isabelle
  imports StatusCodeRules StatusCodeRiskGuard PricingEditor ParamOverrideProperties VerifierRun GoStatusCodes RelayRetry SubscriptionGroups BillingSessions
begin

text \<open>
  \<^bold>\<open>A verification library for aggre-api\<close>

  aggre-api is a gateway in front of model providers: a server in Go and a web console in
  JavaScript. Of the console the library models the parts that compute: the rules for HTTP status
  codes, the guard on status code mappings, the pricing editor, the editor for parameter overrides
  and the model verifier. Of the server it models the way of a request from the choice of a channel
  over the retries to the bill: status codes, errors, channels, the retry loop, subscriptions and
  billing sessions. The two sides meet in the rules for status codes, which the console saves and the
  retry loop obeys.

  \<^bold>\<open>The language\<close>

  \<^item> \<open>JS_Base\<close>: texts as lists of UTF-16 code units, with the methods of strings and arrays the sources
    use; \<open>str\<close> turns an ASCII literal into such a text.
  \<^item> \<open>JS_Number\<close>, \<open>JS_NumText\<close>, \<open>JS_ToFixed\<close>, \<open>JS_IntText\<close>: numbers as rationals rounded to IEEE
    doubles after every operation, their shortest decimal text, \<open>toFixed\<close>, and reading them back.
  \<^item> \<open>JS_Value\<close>: values of unknown type, truthiness, conversions, objects as lists of properties in the
    order of the language.
  \<^item> \<open>JS_JSON\<close>: \<open>JSON.parse\<close> and \<open>JSON.stringify\<close>. The parser takes fuel \<open>2 * length s + 1\<close>; every
    call in it consumes a unit of the text or turns from a value to its parts, so that this is enough,
    and the round trip \<open>json_parse_stringify\<close> shows that no value runs out of it.
  \<^item> \<open>JS_Dict\<close>: the locale \<open>dictionary\<close> of lookup, update and deletion laws, interpreted on objects.

  \<^item> \<open>GoText\<close>, \<open>GoCalendar\<close>: what the server uses of Go's packages for texts, integers and times.
  \<^item> \<open>GoStore\<close>: the tables of the database and programs over them, with transactions. Each access takes
    an entry of the list \<open>db_faults\<close>, which says whether it fails.

  \<^bold>\<open>The components of the console\<close>

  \<^item> \<open>StatusCodeRules\<close> (web/src/helpers/statusCodeRules.js): parsing, merging and normalizing rules such
    as \<open>401,500-503\<close>. Accepted texts give the ascending ranges that cover exactly the codes named; the
    normalized text is a canonical form and is parsed back.
  \<^item> \<open>StatusCodeRiskGuard\<close> (.../channels/modals/statusCodeRiskGuard.js): mappings of status codes that
    must not redirect 504 and 524.
  \<^item> \<open>PricingModel\<close> and \<open>PricingEditor\<close> (.../Setting/Ratio/hooks/useModelPricingEditorState.js): the
    conversion between ratios and prices, and the hook as a state machine \<open>editor_step\<close> with its
    effects and saving. Shown: unique names, exact round trip of ratios, saved options read back,
    preview and saving agree, and that a free model loses its ratios.
  \<^item> \<open>ParamOverrideModes\<close>, \<open>ParamOverrideDraft\<close>, \<open>ParamOverrideOperations\<close>, \<open>ParamOverrideTemplates\<close>,
    \<open>ParamOverrideEditor\<close>, \<open>ParamOverrideProperties\<close>
    (.../channels/modals/ParamOverrideEditorModal.jsx): the tables, the forms for structured values,
    operations with validation and serialization, templates, and the modal as a state machine
    \<open>param_step\<close>. Identifiers come from a clock and a counter (locale \<open>id_supply\<close>). Shown: an
    invariant of every reachable state, saving as a fixed point of opening, completeness of
    validated payloads, and defects of the form for pruning rules.
  \<^item> \<open>VerifierEndpoint\<close>, \<open>VerifierProbe\<close>, \<open>VerifierRun\<close> (web/src/pages/Verifier/verifierEngine.js): the
    endpoint of a URL, requests and responses of three formats, the reader of event streams (locale
    \<open>line_handler\<close>), and a run with its retries. Shown: all spellings of a URL reach one endpoint, a
    run sends at most four requests, its score tells the verdict, and streams are read
    independently of their pieces.

  \<^bold>\<open>The components of the server\<close>

  \<^item> \<open>GoStatusCodes\<close> (setting/operation_setting/status_code_ranges.go, service/error.go): the server's
    reading of status code rules and mappings. Rules the console accepts select the same codes on the
    server, and a mapping it accepts keeps 504 and 524.
  \<^item> \<open>GoErrors\<close> (types/error.go): errors with their codes and options.
  \<^item> \<open>ChannelSelect\<close> (model/channel_cache.go, model/ability.go, service/channel_select.go): the choice of
    a channel by group, priority and weight. Shown: from the cache each channel is chosen in proportion
    to its weight, and the choice from the database is off by one.
  \<^item> \<open>RelayRetry\<close> (controller/relay.go, service/channel.go, service/violation_fee.go): the decisions to
    retry and to disable a channel, and the loop of \<open>Relay\<close> as a \<open>while_option\<close>. Shown: the loop ends
    for all outcomes of the attempts, with a bound on them; the rules saved in the console decide the
    retries.
  \<^item> \<open>Subscriptions\<close> (model/subscription.go, model/team_subscription.go) with \<open>SubscriptionLaws\<close>,
    \<open>SubscriptionCharges\<close> and \<open>SubscriptionGroups\<close>: plans, orders, the accounting of used quota and
    the groups of users. Shown for all sequences of operations and all failing accesses: no
    subscription is overdrawn. Shown for an order with any failing accesses: it fails without effect or
    is fulfilled once. Shown for runs in which no access fails: a request is charged once and its refund
    restores the used amount, and groups follow the ranking. A refund whose last access fails can be
    repeated.
  \<^item> \<open>Billing\<close> (service/billing_session.go, service/funding_source.go, service/billing.go, and the quota
    functions of model/user.go, model/token.go, model/team.go, model/utils.go and service/quota.go),
    \<open>BillingLaws\<close> and \<open>BillingSessions\<close>: sessions that reserve, settle and refund. The contract of a
    source of funds is the locale \<open>funding_source\<close>, interpreted on wallets, on the subscriptions of
    users and of teams, and on their sum. Shown for runs in which no access fails: settling and
    refunding return, a settled request is charged exactly, a refund restores the balances, a rejected
    request costs nothing. For all accesses: a session is closed once.

  \<^bold>\<open>Parameters\<close>

  The HTTP client, clocks, random numbers, the decoder of byte streams and the collation of the
  browser are arguments of the definitions that use them, as are on the server the random numbers, the
  outcomes of the attempts, the multi-pattern search and the masking of messages. Translated messages
  are represented by their keys.

  \<^bold>\<open>Not modelled\<close>

  Rendered markup and styles, the translations, the clipboard and browser storage are input and
  output without a result to state. Negative zero is not distinguished from zero; case mapping is
  that of ASCII; objects have no own \<open>toString\<close> or \<open>valueOf\<close>; properties inherited from prototypes are
  left out.

  On the server the provider adapters, the HTTP handlers around the modelled functions, the engine that
  applies parameter overrides, log entries, notifications and statistics are not modelled. Redis and
  the plan cache are taken as disabled; of the caches only the channels and the group of a user are
  modelled. Left out of the modelled operations are the reward for an invitation and the clean-up of
  tokens after a change of group. Quotas are unbounded integers. Operations on the database run one
  after another, and a refund runs at once where the code starts a goroutine.
\<close>

end
